theory Spec2Isabelle
  imports Complex_Main
begin

section \<open>JavaScript values and arrays\<close>

text \<open>
  The engine is the file \<^verbatim>\<open>lib/NeuralNetwork.ts\<close>: a class \<^verbatim>\<open>Matrix\<close> over
  \<^verbatim>\<open>number[][]\<close> and a class \<^verbatim>\<open>NeuralNetwork\<close> that owns four matrices.

  A JavaScript \<^verbatim>\<open>number\<close> is modelled by the real number it stands for
  (\<open>Num\<close>); rounding and the infinities of IEEE doubles are not modelled. \<open>NaN\<close> and
  \<open>Undefined\<close> are values of their own, because reading an array beyond its end
  gives \<^verbatim>\<open>undefined\<close> and arithmetic on \<^verbatim>\<open>undefined\<close> gives \<^verbatim>\<open>NaN\<close>.
\<close>

datatype jsv = Num real | NaN | Undefined

fun js_add :: "jsv \<Rightarrow> jsv \<Rightarrow> jsv" where
  "js_add (Num x) (Num y) = Num (x + y)"
| "js_add _ _ = NaN"

fun js_sub :: "jsv \<Rightarrow> jsv \<Rightarrow> jsv" where
  "js_sub (Num x) (Num y) = Num (x - y)"
| "js_sub _ _ = NaN"

fun js_mul :: "jsv \<Rightarrow> jsv \<Rightarrow> jsv" where
  "js_mul (Num x) (Num y) = Num (x * y)"
| "js_mul _ _ = NaN"

text \<open>\<^verbatim>\<open>function sigmoid(x) { return 1 / (1 + Math.exp(-x)); }\<close>\<close>

fun sigmoid :: "jsv \<Rightarrow> jsv" where
  "sigmoid (Num x) = Num (1 / (1 + exp (- x)))"
| "sigmoid _ = NaN"

text \<open>\<^verbatim>\<open>function dsigmoid(y) { return y * (1 - y); }\<close>\<close>

definition dsigmoid :: "jsv \<Rightarrow> jsv" where
  "dsigmoid y = js_mul y (js_sub (Num 1) y)"

text \<open>
  Reading \<^verbatim>\<open>xs[j]\<close> beyond the end gives \<^verbatim>\<open>undefined\<close>; writing \<^verbatim>\<open>xs[j] = v\<close> beyond
  the end extends the array, and the holes read as \<^verbatim>\<open>undefined\<close>.
\<close>

definition js_nth :: "jsv list \<Rightarrow> nat \<Rightarrow> jsv" where
  "js_nth xs j = (if j < length xs then xs ! j else Undefined)"

definition js_update :: "jsv list \<Rightarrow> nat \<Rightarrow> jsv \<Rightarrow> jsv list" where
  "js_update xs j v =
     (if j < length xs then xs[j := v]
      else xs @ replicate (j - length xs) Undefined @ [v])"

section \<open>The store\<close>

text \<open>
  Arrays are objects with identity: \<^verbatim>\<open>serialize\<close> and \<^verbatim>\<open>deserialize\<close> pass references
  to them around, and the in-place operations write through those references. The store
  holds the outer arrays (\<^verbatim>\<open>number[][]\<close>, lists of references to rows) and the rows
  (\<^verbatim>\<open>number[]\<close>); a reference is an index into the respective list, and allocation
  appends. The store also holds the sequence of values that \<^verbatim>\<open>Math.random()\<close> returns
  and the position of the next one.
\<close>

type_synonym addr = nat

record heap =
  outers :: "addr list list"
  inners :: "jsv list list"
  rng :: "nat \<Rightarrow> real"
  rng_pos :: nat

text \<open>
  The source throws \<^verbatim>\<open>new Error(message)\<close> at its shape checks; reading a property of
  \<^verbatim>\<open>undefined\<close> (a row that is not there) throws a \<^verbatim>\<open>TypeError\<close>.
\<close>

datatype error = Error string | TypeError

type_synonym 'a js = "heap \<Rightarrow> (error + 'a) \<times> heap"

definition returnJ :: "'a \<Rightarrow> 'a js" where
  "returnJ x = (\<lambda>h. (Inr x, h))"

definition throwJ :: "error \<Rightarrow> 'a js" where
  "throwJ e = (\<lambda>h. (Inl e, h))"

definition bindJ :: "'a js \<Rightarrow> ('a \<Rightarrow> 'b js) \<Rightarrow> 'b js" where
  "bindJ m f = (\<lambda>h. case m h of (Inl e, h') \<Rightarrow> (Inl e, h') | (Inr x, h') \<Rightarrow> f x h')"

text \<open>\<^verbatim>\<open>for (let i = 0; i < n; i++) body\<close> is \<open>forJ [0..<n] body\<close>.\<close>

primrec forJ :: "nat list \<Rightarrow> (nat \<Rightarrow> unit js) \<Rightarrow> unit js" where
  "forJ [] body = returnJ ()"
| "forJ (i # is) body = bindJ (body i) (\<lambda>_. forJ is body)"

text \<open>A loop that updates a local variable (\<^verbatim>\<open>sum\<close>, \<^verbatim>\<open>arr\<close>).\<close>

primrec foldJ :: "nat list \<Rightarrow> (nat \<Rightarrow> 'a \<Rightarrow> 'a js) \<Rightarrow> 'a \<Rightarrow> 'a js" where
  "foldJ [] body acc = returnJ acc"
| "foldJ (i # is) body acc = bindJ (body i acc) (\<lambda>acc'. foldJ is body acc')"

text \<open>A row by its reference; a reference is never dangling in JavaScript.\<close>

definition row_at :: "heap \<Rightarrow> addr \<Rightarrow> jsv list" where
  "row_at h r = (if r < length (inners h) then inners h ! r else [])"

text \<open>\<^verbatim>\<open>data[i]\<close>: the reference to row \<open>i\<close>, or \<^verbatim>\<open>undefined\<close> (\<open>None\<close>).\<close>

definition row_ref :: "heap \<Rightarrow> addr \<Rightarrow> nat \<Rightarrow> addr option" where
  "row_ref h d i =
     (if d < length (outers h) \<and> i < length (outers h ! d) then Some (outers h ! d ! i)
      else None)"

text \<open>Reading \<^verbatim>\<open>data[i][j]\<close>.\<close>

definition get_cell :: "addr \<Rightarrow> nat \<Rightarrow> nat \<Rightarrow> jsv js" where
  "get_cell d i j = (\<lambda>h. case row_ref h d i of
       None \<Rightarrow> (Inl TypeError, h)
     | Some r \<Rightarrow> (Inr (js_nth (row_at h r) j), h))"

text \<open>Writing \<^verbatim>\<open>data[i][j] = v\<close>.\<close>

definition set_cell :: "addr \<Rightarrow> nat \<Rightarrow> nat \<Rightarrow> jsv \<Rightarrow> unit js" where
  "set_cell d i j v = (\<lambda>h. case row_ref h d i of
       None \<Rightarrow> (Inl TypeError, h)
     | Some r \<Rightarrow> (Inr (), h\<lparr>inners := (inners h)[r := js_update (row_at h r) j v]\<rparr>))"

text \<open>\<^verbatim>\<open>Math.random()\<close>\<close>

definition Math_random :: "jsv js" where
  "Math_random = (\<lambda>h. (Inr (Num (rng h (rng_pos h))), h\<lparr>rng_pos := Suc (rng_pos h)\<rparr>))"

section \<open>Matrix\<close>

record Matrix =
  rows :: nat
  cols :: nat
  data :: addr

text \<open>
  The constructor:
  \<^verbatim>\<open>this.data = Array(this.rows).fill(0).map(() => Array(this.cols).fill(0))\<close>
  allocates \<open>rows\<close> new rows of \<open>cols\<close> zeros and a new outer array that refers to them.
\<close>

definition new_Matrix :: "nat \<Rightarrow> nat \<Rightarrow> Matrix js" where
  "new_Matrix r c = (\<lambda>h.
     (Inr \<lparr>rows = r, cols = c, data = length (outers h)\<rparr>,
      h\<lparr>outers := outers h @ [[length (inners h) ..< length (inners h) + r]],
        inners := inners h @ replicate r (replicate c (Num 0))\<rparr>))"

definition Matrix_fromArray :: "jsv list \<Rightarrow> Matrix js" where
  "Matrix_fromArray arr =
     bindJ (new_Matrix (length arr) 1) (\<lambda>m.
     bindJ (forJ [0..<length arr] (\<lambda>i. set_cell (data m) i 0 (js_nth arr i))) (\<lambda>_.
     returnJ m))"

definition toArray :: "Matrix \<Rightarrow> jsv list js" where
  "toArray this =
     foldJ [0..<rows this] (\<lambda>i arr.
       foldJ [0..<cols this] (\<lambda>j arr.
         bindJ (get_cell (data this) i j) (\<lambda>x. returnJ (arr @ [x]))) arr) []"

definition randomize :: "Matrix \<Rightarrow> Matrix js" where
  "randomize this =
     bindJ (forJ [0..<rows this] (\<lambda>i.
       forJ [0..<cols this] (\<lambda>j.
         bindJ Math_random (\<lambda>x.
         set_cell (data this) i j (js_sub (js_mul x (Num 2)) (Num 1)))))) (\<lambda>_.
     returnJ this)"

text \<open>The argument of \<^verbatim>\<open>add\<close> and of the instance method \<^verbatim>\<open>multiply\<close>: \<^verbatim>\<open>Matrix | number\<close>.\<close>

datatype operand = Mat Matrix | Scalar jsv

definition add :: "Matrix \<Rightarrow> operand \<Rightarrow> Matrix js" where
  "add this n = (case n of
       Mat m \<Rightarrow>
         if rows this \<noteq> rows m \<or> cols this \<noteq> cols m
         then throwJ (Error ''Matrix dimensions must match for addition.'')
         else
           bindJ (forJ [0..<rows this] (\<lambda>i.
             forJ [0..<cols this] (\<lambda>j.
               bindJ (get_cell (data this) i j) (\<lambda>x.
               bindJ (get_cell (data m) i j) (\<lambda>y.
               set_cell (data this) i j (js_add x y)))))) (\<lambda>_.
           returnJ this)
     | Scalar s \<Rightarrow>
         bindJ (forJ [0..<rows this] (\<lambda>i.
           forJ [0..<cols this] (\<lambda>j.
             bindJ (get_cell (data this) i j) (\<lambda>x.
             set_cell (data this) i j (js_add x s))))) (\<lambda>_.
         returnJ this))"

definition Matrix_subtract :: "Matrix \<Rightarrow> Matrix \<Rightarrow> Matrix js" where
  "Matrix_subtract a b =
     (if rows a \<noteq> rows b \<or> cols a \<noteq> cols b
      then throwJ (Error ''Matrix dimensions must match for subtraction.'')
      else
        bindJ (new_Matrix (rows a) (cols a)) (\<lambda>result.
        bindJ (forJ [0..<rows result] (\<lambda>i.
          forJ [0..<cols result] (\<lambda>j.
            bindJ (get_cell (data a) i j) (\<lambda>x.
            bindJ (get_cell (data b) i j) (\<lambda>y.
            set_cell (data result) i j (js_sub x y)))))) (\<lambda>_.
        returnJ result)))"

definition Matrix_transpose :: "Matrix \<Rightarrow> Matrix js" where
  "Matrix_transpose matrix =
     bindJ (new_Matrix (cols matrix) (rows matrix)) (\<lambda>result.
     bindJ (forJ [0..<rows matrix] (\<lambda>i.
       forJ [0..<cols matrix] (\<lambda>j.
         bindJ (get_cell (data matrix) i j) (\<lambda>x.
         set_cell (data result) j i x)))) (\<lambda>_.
     returnJ result))"

text \<open>The static \<^verbatim>\<open>Matrix.multiply(a, b)\<close>: the matrix product.\<close>

definition Matrix_multiply :: "Matrix \<Rightarrow> Matrix \<Rightarrow> Matrix js" where
  "Matrix_multiply a b =
     (if cols a \<noteq> rows b
      then throwJ (Error ''Columns of A must match rows of B for dot product.'')
      else
        bindJ (new_Matrix (rows a) (cols b)) (\<lambda>result.
        bindJ (forJ [0..<rows result] (\<lambda>i.
          forJ [0..<cols result] (\<lambda>j.
            bindJ (foldJ [0..<cols a] (\<lambda>k sum.
              bindJ (get_cell (data a) i k) (\<lambda>x.
              bindJ (get_cell (data b) k j) (\<lambda>y.
              returnJ (js_add sum (js_mul x y))))) (Num 0)) (\<lambda>sum.
            set_cell (data result) i j sum)))) (\<lambda>_.
        returnJ result)))"

text \<open>The instance method \<^verbatim>\<open>multiply(n)\<close>: element-wise, or by a scalar, in place.\<close>

definition multiply :: "Matrix \<Rightarrow> operand \<Rightarrow> Matrix js" where
  "multiply this n = (case n of
       Mat m \<Rightarrow>
         if rows this \<noteq> rows m \<or> cols this \<noteq> cols m
         then throwJ (Error ''Matrix dimensions must match for element-wise multiplication.'')
         else
           bindJ (forJ [0..<rows this] (\<lambda>i.
             forJ [0..<cols this] (\<lambda>j.
               bindJ (get_cell (data this) i j) (\<lambda>x.
               bindJ (get_cell (data m) i j) (\<lambda>y.
               set_cell (data this) i j (js_mul x y)))))) (\<lambda>_.
           returnJ this)
     | Scalar s \<Rightarrow>
         bindJ (forJ [0..<rows this] (\<lambda>i.
           forJ [0..<cols this] (\<lambda>j.
             bindJ (get_cell (data this) i j) (\<lambda>x.
             set_cell (data this) i j (js_mul x s))))) (\<lambda>_.
         returnJ this))"

text \<open>The instance method \<^verbatim>\<open>map(fn)\<close>, in place.\<close>

definition map_this :: "Matrix \<Rightarrow> (jsv \<Rightarrow> jsv) \<Rightarrow> Matrix js" where
  "map_this this fn =
     bindJ (forJ [0..<rows this] (\<lambda>i.
       forJ [0..<cols this] (\<lambda>j.
         bindJ (get_cell (data this) i j) (\<lambda>x.
         set_cell (data this) i j (fn x))))) (\<lambda>_.
     returnJ this)"

text \<open>The static \<^verbatim>\<open>Matrix.map(matrix, fn)\<close>.\<close>

definition Matrix_map :: "Matrix \<Rightarrow> (jsv \<Rightarrow> jsv) \<Rightarrow> Matrix js" where
  "Matrix_map matrix fn =
     bindJ (new_Matrix (rows matrix) (cols matrix)) (\<lambda>result.
     bindJ (forJ [0..<rows matrix] (\<lambda>i.
       forJ [0..<cols matrix] (\<lambda>j.
         bindJ (get_cell (data matrix) i j) (\<lambda>x.
         set_cell (data result) i j (fn x))))) (\<lambda>_.
     returnJ result))"

section \<open>NeuralNetwork\<close>

record NeuralNetwork =
  inputNodes :: nat
  hiddenNodes :: nat
  outputNodes :: nat
  weights_ih :: Matrix
  weights_ho :: Matrix
  bias_h :: Matrix
  bias_o :: Matrix
  learningRate :: jsv

text \<open>The snapshot: the grids are references to \<^verbatim>\<open>number[][]\<close> arrays.\<close>

record SerializedNetwork =
  s_inputNodes :: nat
  s_hiddenNodes :: nat
  s_outputNodes :: nat
  s_weights_ih :: addr
  s_weights_ho :: addr
  s_bias_h :: addr
  s_bias_o :: addr
  s_learningRate :: jsv

text \<open>The constructor \<^verbatim>\<open>new NeuralNetwork(input, hidden, output)\<close>.\<close>

definition new_NeuralNetwork :: "nat \<Rightarrow> nat \<Rightarrow> nat \<Rightarrow> NeuralNetwork js" where
  "new_NeuralNetwork input hidden output =
     bindJ (bindJ (new_Matrix hidden input) randomize) (\<lambda>wih.
     bindJ (bindJ (new_Matrix output hidden) randomize) (\<lambda>who.
     bindJ (bindJ (new_Matrix hidden 1) randomize) (\<lambda>bh.
     bindJ (bindJ (new_Matrix output 1) randomize) (\<lambda>bo.
     returnJ \<lparr>inputNodes = input, hiddenNodes = hidden, outputNodes = output,
              weights_ih = wih, weights_ho = who, bias_h = bh, bias_o = bo,
              learningRate = Num (1 / 10)\<rparr>))))"

definition setLearningRate :: "NeuralNetwork \<Rightarrow> jsv \<Rightarrow> NeuralNetwork" where
  "setLearningRate this rate = this\<lparr>learningRate := rate\<rparr>"

definition predict :: "NeuralNetwork \<Rightarrow> jsv list \<Rightarrow> jsv list js" where
  "predict this input_array =
     bindJ (Matrix_fromArray input_array) (\<lambda>inputs.
     bindJ (Matrix_multiply (weights_ih this) inputs) (\<lambda>hidden.
     bindJ (add hidden (Mat (bias_h this))) (\<lambda>_.
     bindJ (map_this hidden sigmoid) (\<lambda>_.
     bindJ (Matrix_multiply (weights_ho this) hidden) (\<lambda>output.
     bindJ (add output (Mat (bias_o this))) (\<lambda>_.
     bindJ (map_this output sigmoid) (\<lambda>_.
     toArray output)))))))"

text \<open>
  \<^verbatim>\<open>train\<close> assigns to no field of \<^verbatim>\<open>this\<close>: all its effects are on the arrays in the
  store, so the network record is not part of its result.
\<close>

definition train :: "NeuralNetwork \<Rightarrow> jsv list \<Rightarrow> jsv list \<Rightarrow> unit js" where
  "train this input_array target_array =
     bindJ (Matrix_fromArray input_array) (\<lambda>inputs.
     bindJ (Matrix_fromArray target_array) (\<lambda>targets.
     bindJ (Matrix_multiply (weights_ih this) inputs) (\<lambda>hidden.
     bindJ (add hidden (Mat (bias_h this))) (\<lambda>_.
     bindJ (map_this hidden sigmoid) (\<lambda>_.
     bindJ (Matrix_multiply (weights_ho this) hidden) (\<lambda>outputs.
     bindJ (add outputs (Mat (bias_o this))) (\<lambda>_.
     bindJ (map_this outputs sigmoid) (\<lambda>_.
     bindJ (Matrix_subtract targets outputs) (\<lambda>output_errors.
     bindJ (Matrix_map outputs dsigmoid) (\<lambda>gradients.
     bindJ (multiply gradients (Mat output_errors)) (\<lambda>_.
     bindJ (multiply gradients (Scalar (learningRate this))) (\<lambda>_.
     bindJ (Matrix_transpose hidden) (\<lambda>hidden_t.
     bindJ (Matrix_multiply gradients hidden_t) (\<lambda>weight_ho_deltas.
     bindJ (add (weights_ho this) (Mat weight_ho_deltas)) (\<lambda>_.
     bindJ (add (bias_o this) (Mat gradients)) (\<lambda>_.
     bindJ (Matrix_transpose (weights_ho this)) (\<lambda>who_t.
     bindJ (Matrix_multiply who_t output_errors) (\<lambda>hidden_errors.
     bindJ (Matrix_map hidden dsigmoid) (\<lambda>hidden_gradient.
     bindJ (multiply hidden_gradient (Mat hidden_errors)) (\<lambda>_.
     bindJ (multiply hidden_gradient (Scalar (learningRate this))) (\<lambda>_.
     bindJ (Matrix_transpose inputs) (\<lambda>inputs_t.
     bindJ (Matrix_multiply hidden_gradient inputs_t) (\<lambda>weight_ih_deltas.
     bindJ (add (weights_ih this) (Mat weight_ih_deltas)) (\<lambda>_.
     bindJ (add (bias_h this) (Mat hidden_gradient)) (\<lambda>_.
     returnJ ())))))))))))))))))))))))))"

text \<open>\<^verbatim>\<open>serialize\<close> builds an object literal from the fields; it allocates no array.\<close>

definition serialize :: "NeuralNetwork \<Rightarrow> SerializedNetwork js" where
  "serialize this =
     returnJ \<lparr>s_inputNodes = inputNodes this, s_hiddenNodes = hiddenNodes this,
              s_outputNodes = outputNodes this,
              s_weights_ih = data (weights_ih this), s_weights_ho = data (weights_ho this),
              s_bias_h = data (bias_h this), s_bias_o = data (bias_o this),
              s_learningRate = learningRate this\<rparr>"

text \<open>
  \<^verbatim>\<open>deserialize\<close> assigns every field of \<^verbatim>\<open>this\<close>. Each \<^verbatim>\<open>new Matrix\<close> allocates a grid
  of zeros, which the assignment to \<^verbatim>\<open>data\<close> then drops.
\<close>

definition deserialize :: "NeuralNetwork \<Rightarrow> SerializedNetwork \<Rightarrow> NeuralNetwork js" where
  "deserialize this d =
     bindJ (new_Matrix (s_hiddenNodes d) (s_inputNodes d)) (\<lambda>wih.
     bindJ (new_Matrix (s_outputNodes d) (s_hiddenNodes d)) (\<lambda>who.
     bindJ (new_Matrix (s_hiddenNodes d) 1) (\<lambda>bh.
     bindJ (new_Matrix (s_outputNodes d) 1) (\<lambda>bo.
     returnJ (this\<lparr>inputNodes := s_inputNodes d, hiddenNodes := s_hiddenNodes d,
                   outputNodes := s_outputNodes d, learningRate := s_learningRate d,
                   weights_ih := wih\<lparr>data := s_weights_ih d\<rparr>,
                   weights_ho := who\<lparr>data := s_weights_ho d\<rparr>,
                   bias_h := bh\<lparr>data := s_bias_h d\<rparr>,
                   bias_o := bo\<lparr>data := s_bias_o d\<rparr>\<rparr>)))))"

section \<open>Reading the store: matrices as grids\<close>

text \<open>
  The grid that a reference to an outer array denotes in a store, and what it means for
  a \<open>Matrix\<close> object to be well formed there: its outer array has \<open>rows\<close> rows, no row
  occurs twice in it, and every row has \<open>cols\<close> entries.
\<close>

type_synonym grid = "jsv list list"

definition refs_at :: "heap \<Rightarrow> addr \<Rightarrow> addr list" where
  "refs_at h d = (if d < length (outers h) then outers h ! d else [])"

definition grid_at :: "heap \<Rightarrow> addr \<Rightarrow> grid" where
  "grid_at h d = map (row_at h) (refs_at h d)"

definition wfM :: "heap \<Rightarrow> Matrix \<Rightarrow> bool" where
  "wfM h m = (data m < length (outers h) \<and> length (refs_at h (data m)) = rows m \<and>
     distinct (refs_at h (data m)) \<and>
     (\<forall>r \<in> set (refs_at h (data m)). r < length (inners h) \<and> length (inners h ! r) = cols m))"

text \<open>Two outer arrays share no row.\<close>

definition sep_rows :: "heap \<Rightarrow> addr \<Rightarrow> addr \<Rightarrow> bool" where
  "sep_rows h d d' = (set (refs_at h d) \<inter> set (refs_at h d') = {})"

definition rect :: "nat \<Rightarrow> nat \<Rightarrow> 'a list list \<Rightarrow> bool" where
  "rect R C G = (length G = R \<and> (\<forall>i < R. length (G ! i) = C))"

text \<open>The \<open>R\<close> by \<open>C\<close> grid with entry \<open>f i j\<close> in row \<open>i\<close>, column \<open>j\<close>.\<close>

definition tab :: "nat \<Rightarrow> nat \<Rightarrow> (nat \<Rightarrow> nat \<Rightarrow> 'a) \<Rightarrow> 'a list list" where
  "tab R C f = map (\<lambda>i. map (f i) [0..<C]) [0..<R]"

text \<open>Stores described in closed form: a grid overwritten, a grid allocated.\<close>

fun assign_rows :: "'a list \<Rightarrow> nat list \<Rightarrow> 'a list \<Rightarrow> 'a list" where
  "assign_rows ins (r # rs) (g # gs) = assign_rows (ins[r := g]) rs gs"
| "assign_rows ins _ _ = ins"

definition put_grid :: "heap \<Rightarrow> addr \<Rightarrow> grid \<Rightarrow> heap" where
  "put_grid h d G = h\<lparr>inners := assign_rows (inners h) (refs_at h d) G\<rparr>"

definition alloc_grid :: "heap \<Rightarrow> grid \<Rightarrow> heap" where
  "alloc_grid h G = h\<lparr>outers := outers h @ [[length (inners h) ..< length (inners h) + length G]],
        inners := inners h @ G\<rparr>"

definition newM :: "heap \<Rightarrow> nat \<Rightarrow> nat \<Rightarrow> Matrix" where
  "newM h R C = \<lparr>rows = R, cols = C, data = length (outers h)\<rparr>"

definition zeros :: "nat \<Rightarrow> nat \<Rightarrow> grid" where
  "zeros R C = replicate R (replicate C (Num 0))"

text \<open>The grid in the middle of a row-by-row loop that has reached row \<open>i\<close>, column \<open>j\<close>.\<close>

definition partial_grid :: "nat \<Rightarrow> nat \<Rightarrow> (nat \<Rightarrow> nat \<Rightarrow> jsv) \<Rightarrow> grid \<Rightarrow> nat \<Rightarrow> nat \<Rightarrow> grid" where
  "partial_grid R C V Old i j =
     tab R C (\<lambda>a b. if a < i \<or> (a = i \<and> b < j) then V a b else Old ! a ! b)"

definition rand_cell :: "heap \<Rightarrow> nat \<Rightarrow> nat \<Rightarrow> nat \<Rightarrow> jsv" where
  "rand_cell h C i j = Num (rng h (rng_pos h + i * C + j) * 2 - 1)"

text \<open>A computation that never throws an \<^verbatim>\<open>Error\<close> (it may throw a \<^verbatim>\<open>TypeError\<close>).\<close>

definition no_Error :: "'a js \<Rightarrow> bool" where
  "no_Error m = (\<forall>h r h' s. m h = (r, h') \<longrightarrow> r \<noteq> Inl (Error s))"

section \<open>The formulas of the specification\<close>

text \<open>
  Matrix algebra on grids, with the shapes as arguments. The sum of a matrix product is
  accumulated from \<open>0\<close> in the order of the index.
\<close>

definition dotp :: "grid \<Rightarrow> grid \<Rightarrow> nat \<Rightarrow> nat \<Rightarrow> nat \<Rightarrow> jsv" where
  "dotp A B n i j = fold (\<lambda>k s. js_add s (js_mul (A ! i ! k) (B ! k ! j))) [0..<n] (Num 0)"

definition m_add :: "nat \<Rightarrow> nat \<Rightarrow> grid \<Rightarrow> grid \<Rightarrow> grid" where
  "m_add R C A B = tab R C (\<lambda>i j. js_add (A ! i ! j) (B ! i ! j))"

definition m_sub :: "nat \<Rightarrow> nat \<Rightarrow> grid \<Rightarrow> grid \<Rightarrow> grid" where
  "m_sub R C A B = tab R C (\<lambda>i j. js_sub (A ! i ! j) (B ! i ! j))"

definition m_had :: "nat \<Rightarrow> nat \<Rightarrow> grid \<Rightarrow> grid \<Rightarrow> grid" where
  "m_had R C A B = tab R C (\<lambda>i j. js_mul (A ! i ! j) (B ! i ! j))"

definition m_scale :: "nat \<Rightarrow> nat \<Rightarrow> grid \<Rightarrow> jsv \<Rightarrow> grid" where
  "m_scale R C A s = tab R C (\<lambda>i j. js_mul (A ! i ! j) s)"

definition m_map :: "nat \<Rightarrow> nat \<Rightarrow> (jsv \<Rightarrow> jsv) \<Rightarrow> grid \<Rightarrow> grid" where
  "m_map R C f A = tab R C (\<lambda>i j. f (A ! i ! j))"

text \<open>The transpose of an \<open>R\<close> by \<open>C\<close> grid.\<close>

definition m_transpose :: "nat \<Rightarrow> nat \<Rightarrow> grid \<Rightarrow> grid" where
  "m_transpose R C A = tab C R (\<lambda>i j. A ! j ! i)"

text \<open>The product of an \<open>R\<close> by \<open>N\<close> grid and an \<open>N\<close> by \<open>C\<close> grid.\<close>

definition m_mul :: "nat \<Rightarrow> nat \<Rightarrow> nat \<Rightarrow> grid \<Rightarrow> grid \<Rightarrow> grid" where
  "m_mul R N C A B = tab R C (dotp A B N)"

definition col_vec :: "jsv list \<Rightarrow> grid" where
  "col_vec xs = tab (length xs) 1 (\<lambda>i j. xs ! i)"

text \<open>One layer of the forward pass: \<open>sigmoid (W \<cdot> X + b)\<close>, for \<open>W\<close> of shape \<open>R\<close> by \<open>N\<close>.\<close>

definition layer :: "nat \<Rightarrow> nat \<Rightarrow> grid \<Rightarrow> grid \<Rightarrow> grid \<Rightarrow> grid" where
  "layer R N W b X = m_map R 1 sigmoid (m_add R 1 (m_mul R N 1 W X) b)"

text \<open>
  \<^verbatim>\<open>hidden = sigmoid(weights_ih . input + bias_h);
  output = sigmoid(weights_ho . hidden + bias_o)\<close>, returned as a flat vector.
\<close>

definition predict_spec ::
  "nat \<Rightarrow> nat \<Rightarrow> nat \<Rightarrow> grid \<Rightarrow> grid \<Rightarrow> grid \<Rightarrow> grid \<Rightarrow> jsv list \<Rightarrow> jsv list" where
  "predict_spec ni nh no Wih Bh Who Bo x =
     concat (layer no nh Who Bo (layer nh ni Wih Bh (col_vec x)))"

text \<open>\<^verbatim>\<open>gradient = act (.) (1 - act) (.) error (.) learningRate\<close>, for a column of \<open>R\<close> entries.\<close>

definition gradient :: "nat \<Rightarrow> jsv \<Rightarrow> grid \<Rightarrow> grid \<Rightarrow> grid" where
  "gradient R lr A E = m_scale R 1 (m_had R 1 (m_map R 1 dsigmoid A) E) lr"

text \<open>\<^verbatim>\<open>gradient . transpose(act)\<close>, for a gradient of \<open>R\<close> and an activation of \<open>C\<close> entries.\<close>

definition weight_delta :: "nat \<Rightarrow> nat \<Rightarrow> grid \<Rightarrow> grid \<Rightarrow> grid" where
  "weight_delta R C G A = m_mul R 1 C G (m_transpose C 1 A)"

text \<open>\<^verbatim>\<open>hiddenError = transpose(W) . outputError\<close>, for \<open>W\<close> of shape \<open>no\<close> by \<open>nh\<close>.\<close>

definition hidden_error :: "nat \<Rightarrow> nat \<Rightarrow> grid \<Rightarrow> grid \<Rightarrow> grid" where
  "hidden_error nh no W E = m_mul nh no 1 (m_transpose no nh W) E"

text \<open>
  The seven steps of \<^verbatim>\<open>train\<close> as the specification lists them. Step 5 takes the
  hidden error from \<open>Who'\<close>, the hidden-to-output weights that step 4 has already
  updated. The result is the new \<open>(weights_ih, weights_ho, bias_h, bias_o)\<close>.
\<close>

definition train_spec ::
  "nat \<Rightarrow> nat \<Rightarrow> nat \<Rightarrow> jsv \<Rightarrow> grid \<Rightarrow> grid \<Rightarrow> grid \<Rightarrow> grid \<Rightarrow> jsv list \<Rightarrow> jsv list \<Rightarrow>
   grid \<times> grid \<times> grid \<times> grid" where
  "train_spec ni nh no lr Wih Who Bh Bo x t =
     (let Hd = layer nh ni Wih Bh (col_vec x);
          Out = layer no nh Who Bo Hd;
          E = m_sub no 1 (col_vec t) Out;
          G = gradient no lr Out E;
          Who' = m_add no nh Who (weight_delta no nh G Hd);
          Bo' = m_add no 1 Bo G;
          HE = hidden_error nh no Who' E;
          HG = gradient nh lr Hd HE;
          Wih' = m_add nh ni Wih (weight_delta nh ni HG (col_vec x));
          Bh' = m_add nh 1 Bh HG
      in (Wih', Who', Bh', Bo'))"

text \<open>
  The same seven steps with the hidden error taken from the weights as they were before
  step 4 (the textbook order), for comparison.
\<close>

definition train_spec_preupdate ::
  "nat \<Rightarrow> nat \<Rightarrow> nat \<Rightarrow> jsv \<Rightarrow> grid \<Rightarrow> grid \<Rightarrow> grid \<Rightarrow> grid \<Rightarrow> jsv list \<Rightarrow> jsv list \<Rightarrow>
   grid \<times> grid \<times> grid \<times> grid" where
  "train_spec_preupdate ni nh no lr Wih Who Bh Bo x t =
     (let Hd = layer nh ni Wih Bh (col_vec x);
          Out = layer no nh Who Bo Hd;
          E = m_sub no 1 (col_vec t) Out;
          G = gradient no lr Out E;
          Who' = m_add no nh Who (weight_delta no nh G Hd);
          Bo' = m_add no 1 Bo G;
          HE = hidden_error nh no Who E;
          HG = gradient nh lr Hd HE;
          Wih' = m_add nh ni Wih (weight_delta nh ni HG (col_vec x));
          Bh' = m_add nh 1 Bh HG
      in (Wih', Who', Bh', Bo'))"

section \<open>Networks in the store\<close>

text \<open>The shape fields of the four matrices agree with the topology.\<close>

definition shape_ok :: "NeuralNetwork \<Rightarrow> bool" where
  "shape_ok n =
     (rows (weights_ih n) = hiddenNodes n \<and> cols (weights_ih n) = inputNodes n \<and>
      rows (weights_ho n) = outputNodes n \<and> cols (weights_ho n) = hiddenNodes n \<and>
      rows (bias_h n) = hiddenNodes n \<and> cols (bias_h n) = 1 \<and>
      rows (bias_o n) = outputNodes n \<and> cols (bias_o n) = 1)"

text \<open>A matrix is well formed in the store and holds the grid \<open>G\<close>.\<close>

definition live :: "heap \<Rightarrow> Matrix \<Rightarrow> grid \<Rightarrow> bool" where
  "live h m G = (wfM h m \<and> grid_at h (data m) = G)"

text \<open>
  The store holds the listed matrices with the listed grids, and no two of them share a
  row (the data model's "no aliasing between matrices").
\<close>

fun owns :: "heap \<Rightarrow> (Matrix \<times> grid) list \<Rightarrow> bool" where
  "owns h [] = True"
| "owns h (x # bs) = (live h (fst x) (snd x) \<and> (\<forall>y \<in> set bs. sep_rows h (data (fst x)) (data (fst y)))
      \<and> owns h bs)"

definition net_grids :: "NeuralNetwork \<Rightarrow> grid \<Rightarrow> grid \<Rightarrow> grid \<Rightarrow> grid \<Rightarrow> (Matrix \<times> grid) list" where
  "net_grids n Wih Who Bh Bo =
     [(weights_ih n, Wih), (weights_ho n, Who), (bias_h n, Bh), (bias_o n, Bo)]"

text \<open>
  The shape invariant of the data model: weights_ih is hiddenNodes by inputNodes,
  weights_ho is outputNodes by hiddenNodes, bias_h is hiddenNodes by 1 and bias_o is
  outputNodes by 1, as the fields say and as the arrays in the store are; the four
  matrices share no row.
\<close>

definition shape_inv :: "heap \<Rightarrow> NeuralNetwork \<Rightarrow> bool" where
  "shape_inv h n = (shape_ok n \<and>
     owns h (net_grids n (grid_at h (data (weights_ih n))) (grid_at h (data (weights_ho n)))
                         (grid_at h (data (bias_h n))) (grid_at h (data (bias_o n)))))"

section \<open>The expressions of the algebraic property\<close>

text \<open>\<^verbatim>\<open>transpose(transpose(M))\<close> and \<^verbatim>\<open>multiply(transpose(transpose(M)), I)\<close>.\<close>

definition transpose_twice :: "Matrix \<Rightarrow> Matrix js" where
  "transpose_twice m = bindJ (Matrix_transpose m) Matrix_transpose"

definition transpose_twice_times :: "Matrix \<Rightarrow> Matrix \<Rightarrow> Matrix js" where
  "transpose_twice_times m i = bindJ (transpose_twice m) (\<lambda>t. Matrix_multiply t i)"

text \<open>
  The identity matrix of size \<open>n\<close>, as a grid (the source has no function that builds
  one: the property takes it as given), and the grids all of whose entries are numbers.
\<close>

definition identity_grid :: "nat \<Rightarrow> grid" where
  "identity_grid n = tab n n (\<lambda>i j. if i = j then Num 1 else Num 0)"

fun is_num :: "jsv \<Rightarrow> bool" where
  "is_num (Num x) = True"
| "is_num _ = False"

definition all_num :: "grid \<Rightarrow> bool" where
  "all_num G = list_all (list_all is_num) G"

section \<open>Stores that only grow\<close>

text \<open>
  What is left of a store \<open>b\<close> after calls that allocate, and write only to what has been
  allocated since: the store \<open>h\<close> still has every array of \<open>b\<close>, at the same reference and
  with the same contents; the random sequence is where it was; and the outer arrays
  allocated since \<open>b\<close> refer only to rows allocated since \<open>b\<close>.
\<close>

definition keeps :: "heap \<Rightarrow> heap \<Rightarrow> bool" where
  "keeps b h =
     (take (length (inners b)) (inners h) = inners b \<and>
      take (length (outers b)) (outers h) = outers b \<and>
      length (inners b) \<le> length (inners h) \<and> length (outers b) \<le> length (outers h) \<and>
      rng h = rng b \<and> rng_pos h = rng_pos b \<and>
      (\<forall>d. length (outers b) \<le> d \<longrightarrow> d < length (outers h) \<longrightarrow>
           (\<forall>r \<in> set (outers h ! d). length (inners b) \<le> r)))"

text \<open>Every result that the computation returns satisfies \<open>Q\<close>.\<close>

definition result_sat :: "'a js \<Rightarrow> ('a \<Rightarrow> bool) \<Rightarrow> bool" where
  "result_sat m Q = (\<forall>h h' x. m h = (Inr x, h') \<longrightarrow> Q x)"

text \<open>The computation keeps the store \<open>b\<close> whenever it throws an \<^verbatim>\<open>Error\<close>.\<close>

definition frame_Error :: "heap \<Rightarrow> 'a js \<Rightarrow> bool" where
  "frame_Error b m = (\<forall>h s h'. keeps b h \<longrightarrow> m h = (Inl (Error s), h') \<longrightarrow> keeps b h')"

text \<open>
  The computation keeps the store \<open>b\<close> whether it returns or throws, and every result
  that it returns satisfies \<open>Q\<close>.
\<close>

definition frame :: "heap \<Rightarrow> 'a js \<Rightarrow> ('a \<Rightarrow> bool) \<Rightarrow> bool" where
  "frame b m Q = (\<forall>h r h'. keeps b h \<longrightarrow> m h = (r, h') \<longrightarrow>
                   keeps b h' \<and> (\<forall>x. r = Inr x \<longrightarrow> Q x))"

text \<open>
  No outer array of the store refers to a row that is not there, and the four arrays of
  a network are in the store: both hold of every store and network of a JavaScript
  program, where a reference always refers to an object.
\<close>

definition no_dangling :: "heap \<Rightarrow> bool" where
  "no_dangling h = (\<forall>d < length (outers h). \<forall>r \<in> set (outers h ! d). r < length (inners h))"

definition in_store :: "heap \<Rightarrow> NeuralNetwork \<Rightarrow> bool" where
  "in_store h n =
     (data (weights_ih n) < length (outers h) \<and> data (weights_ho n) < length (outers h) \<and>
      data (bias_h n) < length (outers h) \<and> data (bias_o n) < length (outers h))"

text \<open>
  Every array of the store \<open>h\<close> is in the store \<open>h'\<close>, at the same reference and with the
  same contents; the four grids of a network are in \<open>h'\<close> what they are in \<open>h\<close>.
\<close>

definition same_arrays :: "heap \<Rightarrow> heap \<Rightarrow> bool" where
  "same_arrays h h' =
     (take (length (outers h)) (outers h') = outers h \<and>
      take (length (inners h)) (inners h') = inners h)"

definition same_grids :: "heap \<Rightarrow> heap \<Rightarrow> NeuralNetwork \<Rightarrow> bool" where
  "same_grids h h' n =
     (grid_at h' (data (weights_ih n)) = grid_at h (data (weights_ih n)) \<and>
      grid_at h' (data (weights_ho n)) = grid_at h (data (weights_ho n)) \<and>
      grid_at h' (data (bias_h n)) = grid_at h (data (bias_h n)) \<and>
      grid_at h' (data (bias_o n)) = grid_at h (data (bias_o n)))"

text \<open>
  The same computation run in a store \<open>g\<close> and in a store \<open>g1\<close> that holds \<open>ko\<close> more outer
  arrays and \<open>ki\<close> more rows, allocated after the first \<open>No\<close> outer arrays and \<open>Ni\<close> rows that
  the two stores have in common: what the first run allocates at the reference \<open>a\<close> the
  second allocates at \<open>moved\<close> of \<open>a\<close>. \<open>sim_heap\<close> relates the two stores, \<open>sim_Matrix\<close> the
  matrix objects, and \<open>sim\<close> two computations that take related stores to related stores
  with the same error or with related results.
\<close>

definition moved :: "nat \<Rightarrow> nat \<Rightarrow> addr \<Rightarrow> addr" where
  "moved N k a = (if a < N then a else a + k)"

definition sim_heap :: "nat \<Rightarrow> nat \<Rightarrow> nat \<Rightarrow> nat \<Rightarrow> heap \<Rightarrow> heap \<Rightarrow> bool" where
  "sim_heap No Ni ko ki g g1 =
     (length (outers g1) = length (outers g) + ko \<and> length (inners g1) = length (inners g) + ki \<and>
      No \<le> length (outers g) \<and> Ni \<le> length (inners g) \<and>
      (\<forall>d < length (outers g). outers g1 ! moved No ko d = map (moved Ni ki) (outers g ! d)) \<and>
      (\<forall>r < length (inners g). inners g1 ! moved Ni ki r = inners g ! r) \<and>
      no_dangling g)"

definition sim_Matrix :: "nat \<Rightarrow> nat \<Rightarrow> Matrix \<Rightarrow> Matrix \<Rightarrow> bool" where
  "sim_Matrix No ko m m1 = (data m1 = moved No ko (data m) \<and> rows m1 = rows m \<and> cols m1 = cols m)"

definition sim :: "nat \<Rightarrow> nat \<Rightarrow> nat \<Rightarrow> nat \<Rightarrow> 'a js \<Rightarrow> 'b js \<Rightarrow> ('a \<Rightarrow> 'b \<Rightarrow> bool) \<Rightarrow> bool" where
  "sim No Ni ko ki m m1 V =
     (\<forall>g g1 r g'. sim_heap No Ni ko ki g g1 \<longrightarrow> m g = (r, g') \<longrightarrow>
        (\<exists>r1 g1'. m1 g1 = (r1, g1') \<and> sim_heap No Ni ko ki g' g1' \<and>
           (case r of Inl e \<Rightarrow> r1 = Inl e | Inr x \<Rightarrow> (\<exists>x1. r1 = Inr x1 \<and> V x x1))))"

section \<open>Concrete networks and stores\<close>

text \<open>
  \<open>ex_heap\<close> is the store after \<^verbatim>\<open>new NeuralNetwork(1, 1, 1)\<close> on the empty store
  \<open>ex_heap0\<close> when every \<^verbatim>\<open>Math.random()\<close> returns \<open>0.5\<close> (all weights and biases
  are 0); \<open>ex_net\<close> is that network after \<^verbatim>\<open>setLearningRate(1)\<close>, and \<open>ex_snap\<close> is what
  \<^verbatim>\<open>serialize\<close> returns for it.
\<close>

definition ex_heap0 :: heap where
  "ex_heap0 = \<lparr>outers = [], inners = [], rng = (\<lambda>_. 1 / 2), rng_pos = 0\<rparr>"

definition ex_heap :: heap where
  "ex_heap = \<lparr>outers = [[0], [1], [2], [3]],
              inners = [[Num 0], [Num 0], [Num 0], [Num 0]],
              rng = (\<lambda>_. 1 / 2), rng_pos = 4\<rparr>"

definition ex_net :: NeuralNetwork where
  "ex_net = \<lparr>inputNodes = 1, hiddenNodes = 1, outputNodes = 1,
             weights_ih = \<lparr>rows = 1, cols = 1, data = 0\<rparr>,
             weights_ho = \<lparr>rows = 1, cols = 1, data = 1\<rparr>,
             bias_h = \<lparr>rows = 1, cols = 1, data = 2\<rparr>,
             bias_o = \<lparr>rows = 1, cols = 1, data = 3\<rparr>,
             learningRate = Num 1\<rparr>"

definition ex_snap :: SerializedNetwork where
  "ex_snap = \<lparr>s_inputNodes = 1, s_hiddenNodes = 1, s_outputNodes = 1,
              s_weights_ih = 0, s_weights_ho = 1, s_bias_h = 2, s_bias_o = 3,
              s_learningRate = Num 1\<rparr>"

text \<open>A network with two input nodes, and its store.\<close>

definition ex_net2 :: NeuralNetwork where
  "ex_net2 = \<lparr>inputNodes = 2, hiddenNodes = 1, outputNodes = 1,
             weights_ih = \<lparr>rows = 1, cols = 2, data = 0\<rparr>,
             weights_ho = \<lparr>rows = 1, cols = 1, data = 1\<rparr>,
             bias_h = \<lparr>rows = 1, cols = 1, data = 2\<rparr>,
             bias_o = \<lparr>rows = 1, cols = 1, data = 3\<rparr>,
             learningRate = Num (1 / 10)\<rparr>"

definition ex_heap2 :: heap where
  "ex_heap2 = \<lparr>outers = [[0], [1], [2], [3]],
              inners = [[Num 0, Num 0], [Num 0], [Num 0], [Num 0]],
              rng = (\<lambda>_. 1 / 2), rng_pos = 5\<rparr>"

text \<open>
  A store with a 1 by 2 matrix that holds a \<^verbatim>\<open>NaN\<close>, the 2 by 2 identity matrix and a
  1 by 2 matrix of numbers.
\<close>

definition ex_heap10 :: heap where
  "ex_heap10 = \<lparr>outers = [[0], [1, 2], [3]],
              inners = [[NaN, Num 0], [Num 1, Num 0], [Num 0, Num 1], [Num 3, Num 4]],
              rng = (\<lambda>_. 1 / 2), rng_pos = 0\<rparr>"

definition ex_M_nan :: Matrix where
  "ex_M_nan = \<lparr>rows = 1, cols = 2, data = 0\<rparr>"

definition ex_I2 :: Matrix where
  "ex_I2 = \<lparr>rows = 2, cols = 2, data = 1\<rparr>"

definition ex_M_num :: Matrix where
  "ex_M_num = \<lparr>rows = 1, cols = 2, data = 2\<rparr>"

section \<open>Lemmas\<close>

subsection \<open>Loops and row assignment\<close>

lemma bindJ_Inr: "m h = (Inr x, h') \<Longrightarrow> bindJ m f h = f x h'"
  by (simp add: bindJ_def)

lemma bindJ_Inl: "m h = (Inl e, h') \<Longrightarrow> bindJ m f h = (Inl e, h')"
  by (simp add: bindJ_def)

lemma forJ_upt:
  assumes "\<And>k. a \<le> k \<Longrightarrow> k < n \<Longrightarrow> body k (S k) = (Inr (), S (Suc k))" and "a \<le> n"
  shows "forJ [a..<n] body (S a) = (Inr (), S n)"
  using assms
proof (induction "n - a" arbitrary: a)
  case 0
  then show ?case by (simp add: returnJ_def)
next
  case (Suc d)
  then have lt: "a < n" by simp
  have step: "body a (S a) = (Inr (), S (Suc a))" using Suc.prems(1)[of a] lt by simp
  have rest: "forJ [Suc a..<n] body (S (Suc a)) = (Inr (), S n)"
    using Suc.hyps(1)[of "Suc a"] Suc.hyps(2) Suc.prems(1) lt by simp
  show ?case using lt step rest by (simp add: upt_conv_Cons bindJ_def)
qed

lemma forJ_states:
  assumes "\<And>k. k < n \<Longrightarrow> body k (S k) = (Inr (), S (Suc k))"
  shows "forJ [0..<n] body (S 0) = (Inr (), S n)"
  using forJ_upt[of 0 n body S] assms by simp

lemma forJ2_states:
  assumes step: "\<And>i j. i < R \<Longrightarrow> j < C \<Longrightarrow> body i j (S i j) = (Inr (), S i (Suc j))"
    and link: "\<And>i. i < R \<Longrightarrow> S i C = S (Suc i) 0"
  shows "forJ [0..<R] (\<lambda>i. forJ [0..<C] (body i)) (S 0 0) = (Inr (), S R 0)"
proof (rule forJ_states[where S = "\<lambda>i. S i 0"])
  fix i assume i: "i < R"
  have "forJ [0..<C] (body i) (S i 0) = (Inr (), S i C)"
    by (rule forJ_states[where S = "S i"]) (simp add: step i)
  then show "forJ [0..<C] (body i) (S i 0) = (Inr (), S (Suc i) 0)"
    by (simp add: link i)
qed

lemma foldJ_pure:
  assumes "\<And>k acc. k \<in> set xs \<Longrightarrow> body k acc h = (Inr (g k acc), h)"
  shows "foldJ xs body a h = (Inr (fold g xs a), h)"
  using assms by (induction xs arbitrary: a) (simp_all add: returnJ_def bindJ_def)

lemma length_assign_rows [simp]: "length (assign_rows ins rs gs) = length ins"
  by (induction ins rs gs rule: assign_rows.induct) simp_all

lemma assign_rows_other: "r \<notin> set rs \<Longrightarrow> assign_rows ins rs gs ! r = ins ! r"
  by (induction ins rs gs rule: assign_rows.induct) auto

lemma assign_rows_nth:
  "distinct rs \<Longrightarrow> length gs = length rs \<Longrightarrow> k < length rs \<Longrightarrow> \<forall>r \<in> set rs. r < length ins \<Longrightarrow>
   assign_rows ins rs gs ! (rs ! k) = gs ! k"
proof (induction ins rs gs arbitrary: k rule: assign_rows.induct)
  case (1 ins r rs g gs)
  show ?case
  proof (cases k)
    case 0
    then show ?thesis using 1 by (simp add: assign_rows_other)
  next
    case (Suc k')
    then show ?thesis using 1 by simp
  qed
qed simp_all

lemma assign_rows_update:
  assumes "distinct rs" "length gs = length rs" "i < length rs" "\<forall>r \<in> set rs. r < length ins"
  shows "(assign_rows ins rs gs)[rs ! i := x] = assign_rows ins rs (gs[i := x])"
proof (rule nth_equalityI)
  show "length ((assign_rows ins rs gs)[rs ! i := x]) = length (assign_rows ins rs (gs[i := x]))"
    by simp
next
  fix r assume "r < length ((assign_rows ins rs gs)[rs ! i := x])"
  then have r: "r < length ins" by simp
  show "(assign_rows ins rs gs)[rs ! i := x] ! r = assign_rows ins rs (gs[i := x]) ! r"
  proof (cases "r \<in> set rs")
    case False
    then have "r \<noteq> rs ! i" using assms(3) by auto
    then show ?thesis using False by (simp add: assign_rows_other)
  next
    case True
    then obtain k where k: "k < length rs" "rs ! k = r" by (auto simp: in_set_conv_nth)
    show ?thesis
    proof (cases "k = i")
      case True
      have "assign_rows ins rs (gs[i := x]) ! (rs ! i) = gs[i := x] ! i"
        using assms by (intro assign_rows_nth) auto
      then show ?thesis using assms k r True by simp
    next
      case False
      then have "rs ! i \<noteq> r" using assms(1,3) k by (auto simp: nth_eq_iff_index_eq)
      moreover have "assign_rows ins rs gs ! (rs ! k) = gs ! k"
        using assms k by (intro assign_rows_nth) auto
      moreover have "assign_rows ins rs (gs[i := x]) ! (rs ! k) = gs[i := x] ! k"
        using assms k by (intro assign_rows_nth) auto
      ultimately show ?thesis using False k by simp
    qed
  qed
qed

lemma assign_rows_same:
  "distinct rs \<Longrightarrow> \<forall>r \<in> set rs. r < length ins \<Longrightarrow> assign_rows ins rs (map ((!) ins) rs) = ins"
proof (rule nth_equalityI)
  show "length (assign_rows ins rs (map ((!) ins) rs)) = length ins" by simp
next
  fix r assume d: "distinct rs" and b: "\<forall>r \<in> set rs. r < length ins"
    and "r < length (assign_rows ins rs (map ((!) ins) rs))"
  show "assign_rows ins rs (map ((!) ins) rs) ! r = ins ! r"
  proof (cases "r \<in> set rs")
    case False then show ?thesis by (simp add: assign_rows_other)
  next
    case True
    then obtain k where k: "k < length rs" "rs ! k = r" by (auto simp: in_set_conv_nth)
    have "assign_rows ins rs (map ((!) ins) rs) ! (rs ! k) = map ((!) ins) rs ! k"
      using d b k by (intro assign_rows_nth) auto
    then show ?thesis using k by simp
  qed
qed

subsection \<open>Grids in the store\<close>

lemma length_tab [simp]: "length (tab R C f) = R"
  by (simp add: tab_def)

lemma nth_tab [simp]: "i < R \<Longrightarrow> tab R C f ! i = map (f i) [0..<C]"
  by (simp add: tab_def)

lemma rect_tab [simp]: "rect R C (tab R C f)"
  by (simp add: rect_def)

lemma tab_cong:
  assumes "\<And>i j. i < R \<Longrightarrow> j < C \<Longrightarrow> f i j = g i j"
  shows "tab R C f = tab R C g"
  unfolding tab_def by (intro map_cong refl) (simp add: assms)

lemma rect_nth: "rect R C G \<Longrightarrow> i < R \<Longrightarrow> length (G ! i) = C"
  by (simp add: rect_def)

lemma rect_length: "rect R C G \<Longrightarrow> length G = R"
  by (simp add: rect_def)

lemma rect_eq_tab:
  assumes "rect R C G"
  shows "tab R C (\<lambda>i j. G ! i ! j) = G"
proof (rule nth_equalityI)
  show "length (tab R C (\<lambda>i j. G ! i ! j)) = length G" using assms by (simp add: rect_def)
next
  fix i assume "i < length (tab R C (\<lambda>i j. G ! i ! j))"
  then have i: "i < R" by simp
  then have "length (G ! i) = C" using assms by (simp add: rect_def)
  then have "map ((!) (G ! i)) [0..<C] = G ! i" using map_nth[of "G ! i"] by simp
  then show "tab R C (\<lambda>i j. G ! i ! j) ! i = G ! i" using i by simp
qed

lemma rect_update:
  assumes "rect R C G" "i < R"
  shows "rect R C (G[i := (G ! i)[j := v]])"
  using assms by (simp add: rect_def nth_list_update)

lemma tab_update:
  assumes "i < R" "j < C"
  shows "(tab R C f)[i := (tab R C f ! i)[j := v]] =
         tab R C (\<lambda>a b. if a = i \<and> b = j then v else f a b)"
proof (rule nth_equalityI)
  show "length ((tab R C f)[i := (tab R C f ! i)[j := v]]) =
        length (tab R C (\<lambda>a b. if a = i \<and> b = j then v else f a b))" by simp
next
  fix a assume "a < length ((tab R C f)[i := (tab R C f ! i)[j := v]])"
  then have a: "a < R" by simp
  show "(tab R C f)[i := (tab R C f ! i)[j := v]] ! a =
        tab R C (\<lambda>a b. if a = i \<and> b = j then v else f a b) ! a"
  proof (cases "a = i")
    case True
    have "(map (f i) [0..<C])[j := v] = map (\<lambda>b. if b = j then v else f i b) [0..<C]"
      by (rule nth_equalityI) (simp_all add: nth_list_update)
    then show ?thesis using True a by simp
  next
    case False
    then show ?thesis using a by simp
  qed
qed

lemma refs_at_put [simp]: "refs_at (put_grid h d G) d' = refs_at h d'"
  by (simp add: refs_at_def put_grid_def)

lemma outers_put [simp]: "outers (put_grid h d G) = outers h"
  by (simp add: put_grid_def)

lemma rng_put [simp]: "rng (put_grid h d G) = rng h" "rng_pos (put_grid h d G) = rng_pos h"
  by (simp_all add: put_grid_def)

lemma length_inners_put [simp]: "length (inners (put_grid h d G)) = length (inners h)"
  by (simp add: put_grid_def)

lemma sep_rows_put [simp]: "sep_rows (put_grid h d G) a b = sep_rows h a b"
  by (simp add: sep_rows_def)

lemma wfM_rect: "wfM h m \<Longrightarrow> rect (rows m) (cols m) (grid_at h (data m))"
  by (simp add: wfM_def rect_def grid_at_def row_at_def)

lemma wfM_refs: "wfM h m \<Longrightarrow> refs_at h (data m) = outers h ! data m"
  by (simp add: wfM_def refs_at_def)

lemma row_put_same:
  assumes "wfM h t" "length G = rows t" "i < rows t"
  shows "inners (put_grid h (data t) G) ! (refs_at h (data t) ! i) = G ! i"
  using assms unfolding put_grid_def wfM_def
  by (simp add: assign_rows_nth)

lemma row_put_other:
  assumes "r \<notin> set (refs_at h d)"
  shows "inners (put_grid h d G) ! r = inners h ! r"
  using assms unfolding put_grid_def by (simp add: assign_rows_other)

lemma put_grid_same: "wfM h t \<Longrightarrow> put_grid h (data t) (grid_at h (data t)) = h"
proof -
  assume wf: "wfM h t"
  have "map (row_at h) (refs_at h (data t)) = map ((!) (inners h)) (refs_at h (data t))"
    using wf by (auto simp: wfM_def row_at_def)
  moreover have "assign_rows (inners h) (refs_at h (data t)) (map ((!) (inners h)) (refs_at h (data t)))
      = inners h"
    using wf by (intro assign_rows_same) (auto simp: wfM_def)
  ultimately have "assign_rows (inners h) (refs_at h (data t)) (map (row_at h) (refs_at h (data t)))
      = inners h" by (simp only:)
  then show ?thesis
    unfolding put_grid_def grid_at_def by simp
qed

lemma row_ref_wf: "wfM h m \<Longrightarrow> i < rows m \<Longrightarrow> row_ref h (data m) i = Some (refs_at h (data m) ! i)"
  by (auto simp: wfM_def row_ref_def refs_at_def)

lemma row_ref_put [simp]: "row_ref (put_grid h d G) d' i = row_ref h d' i"
  by (simp add: row_ref_def)

lemma refs_nth_mem: "wfM h m \<Longrightarrow> i < rows m \<Longrightarrow> refs_at h (data m) ! i \<in> set (refs_at h (data m))"
  by (simp add: wfM_def)

lemma refs_nth_bound: "wfM h m \<Longrightarrow> i < rows m \<Longrightarrow> refs_at h (data m) ! i < length (inners h)"
  by (simp add: wfM_def)

lemma get_cell_put_same:
  assumes "wfM h t" "rect (rows t) (cols t) G" "i < rows t" "j < cols t"
  shows "get_cell (data t) i j (put_grid h (data t) G) = (Inr (G ! i ! j), put_grid h (data t) G)"
  using assms
  by (simp add: get_cell_def row_ref_wf row_at_def refs_nth_bound row_put_same
      rect_length rect_nth js_nth_def)

lemma get_cell_put_other:
  assumes "wfM h t" "wfM h m" "sep_rows h (data m) (data t)" "i < rows m" "j < cols m"
  shows "get_cell (data m) i j (put_grid h (data t) G) =
         (Inr (grid_at h (data m) ! i ! j), put_grid h (data t) G)"
proof -
  let ?r = "refs_at h (data m) ! i"
  have mem: "?r \<in> set (refs_at h (data m))" using assms by (simp add: refs_nth_mem)
  then have "?r \<notin> set (refs_at h (data t))" using assms(3) by (auto simp: sep_rows_def)
  then have "inners (put_grid h (data t) G) ! ?r = inners h ! ?r" by (rule row_put_other)
  moreover have "?r < length (inners h)" "length (inners h ! ?r) = cols m"
    using assms mem by (auto simp: wfM_def)
  ultimately show ?thesis using assms
    by (simp add: get_cell_def row_ref_wf row_at_def js_nth_def grid_at_def wfM_def)
qed

lemma set_cell_put:
  assumes "wfM h t" "rect (rows t) (cols t) G" "i < rows t" "j < cols t"
  shows "set_cell (data t) i j v (put_grid h (data t) G) =
         (Inr (), put_grid h (data t) (G[i := (G ! i)[j := v]]))"
proof -
  let ?r = "refs_at h (data t) ! i"
  have "row_at (put_grid h (data t) G) ?r = G ! i"
    using assms by (simp add: row_at_def refs_nth_bound row_put_same rect_length)
  moreover have "length (G ! i) = cols t" using assms by (simp add: rect_nth)
  moreover have "(assign_rows (inners h) (refs_at h (data t)) G)[?r := x] =
        assign_rows (inners h) (refs_at h (data t)) (G[i := x])" for x
    using assms by (intro assign_rows_update) (simp_all add: wfM_def rect_def)
  ultimately show ?thesis using assms
    by (simp add: set_cell_def row_ref_wf js_update_def) (simp add: put_grid_def)
qed

lemma wfM_put_same:
  assumes "wfM h t" "rect (rows t) (cols t) G"
  shows "wfM (put_grid h (data t) G) t"
  unfolding wfM_def
proof (intro conjI ballI)
  fix r assume "r \<in> set (refs_at (put_grid h (data t) G) (data t))"
  then obtain i where i: "i < rows t" "r = refs_at h (data t) ! i"
    using assms(1) by (auto simp: in_set_conv_nth wfM_def)
  then show "length (inners (put_grid h (data t) G) ! r) = cols t"
    using assms by (simp add: row_put_same rect_length rect_nth)
  show "r < length (inners (put_grid h (data t) G))"
    using i assms by (simp add: refs_nth_bound)
qed (use assms in \<open>auto simp: wfM_def\<close>)

lemma grid_at_put_same:
  assumes "wfM h t" "length G = rows t"
  shows "grid_at (put_grid h (data t) G) (data t) = G"
proof (rule nth_equalityI)
  show "length (grid_at (put_grid h (data t) G) (data t)) = length G"
    using assms by (simp add: grid_at_def wfM_def)
next
  fix i assume "i < length (grid_at (put_grid h (data t) G) (data t))"
  then have i: "i < rows t" using assms by (simp add: grid_at_def wfM_def)
  then show "grid_at (put_grid h (data t) G) (data t) ! i = G ! i"
    using assms by (simp add: grid_at_def wfM_def row_at_def row_put_same)
qed

lemma row_put_disj:
  assumes "sep_rows h d' d" "r \<in> set (refs_at h d')"
  shows "inners (put_grid h d G) ! r = inners h ! r"
proof -
  have "r \<notin> set (refs_at h d)" using assms by (auto simp: sep_rows_def)
  then show ?thesis by (rule row_put_other)
qed

lemma wfM_put_other:
  assumes "wfM h m" "sep_rows h (data m) d"
  shows "wfM (put_grid h d G) m"
  using assms by (simp add: wfM_def row_put_disj)

lemma grid_at_put_other:
  assumes "sep_rows h d' d"
  shows "grid_at (put_grid h d G) d' = grid_at h d'"
  using assms by (simp add: grid_at_def row_at_def row_put_disj)

lemma new_Matrix_alloc:
  "new_Matrix R C h = (Inr \<lparr>rows = R, cols = C, data = length (outers h)\<rparr>,
     alloc_grid h (replicate R (replicate C (Num 0))))"
  by (simp add: new_Matrix_def alloc_grid_def)

lemma outers_alloc [simp]:
  "outers (alloc_grid h G) = outers h @ [[length (inners h) ..< length (inners h) + length G]]"
  "inners (alloc_grid h G) = inners h @ G"
  "rng (alloc_grid h G) = rng h" "rng_pos (alloc_grid h G) = rng_pos h"
  by (simp_all add: alloc_grid_def)

lemma refs_at_alloc_old: "d < length (outers h) \<Longrightarrow> refs_at (alloc_grid h G) d = refs_at h d"
  by (simp add: refs_at_def nth_append)

lemma refs_at_alloc_new:
  "refs_at (alloc_grid h G) (length (outers h)) = [length (inners h) ..< length (inners h) + length G]"
  by (simp add: refs_at_def)

lemma wfM_alloc_old: "wfM h m \<Longrightarrow> wfM (alloc_grid h G) m"
  by (auto simp: wfM_def refs_at_alloc_old nth_append)

lemma grid_at_alloc_old: "wfM h m \<Longrightarrow> grid_at (alloc_grid h G) (data m) = grid_at h (data m)"
  by (auto simp: wfM_def grid_at_def refs_at_alloc_old row_at_def nth_append)

lemma wfM_alloc_new:
  "rect R C G \<Longrightarrow> wfM (alloc_grid h G) \<lparr>rows = R, cols = C, data = length (outers h)\<rparr>"
  by (auto simp: wfM_def refs_at_alloc_new rect_def nth_append)

lemma grid_at_alloc_new: "grid_at (alloc_grid h G) (length (outers h)) = G"
proof (rule nth_equalityI)
  show "length (grid_at (alloc_grid h G) (length (outers h))) = length G"
    by (simp add: grid_at_def refs_at_alloc_new)
next
  fix i assume "i < length (grid_at (alloc_grid h G) (length (outers h)))"
  then have "i < length G" by (simp add: grid_at_def refs_at_alloc_new)
  then show "grid_at (alloc_grid h G) (length (outers h)) ! i = G ! i"
    by (simp add: grid_at_def refs_at_alloc_new row_at_def nth_append)
qed

lemma sep_rows_alloc_new: "wfM h m \<Longrightarrow> sep_rows (alloc_grid h G) (data m) (length (outers h))"
  by (auto simp: sep_rows_def wfM_def refs_at_alloc_old refs_at_alloc_new)

lemma sep_rows_alloc_old:
  "a < length (outers h) \<Longrightarrow> b < length (outers h) \<Longrightarrow> sep_rows (alloc_grid h G) a b = sep_rows h a b"
  by (simp add: sep_rows_def refs_at_alloc_old)

lemma sep_rows_sym: "sep_rows h a b = sep_rows h b a"
  by (auto simp: sep_rows_def)

lemma put_alloc:
  assumes "length G = length G0"
  shows "put_grid (alloc_grid h G0) (length (outers h)) G = alloc_grid h G"
proof -
  have "assign_rows (inners h @ G0) [length (inners h) ..< length (inners h) + length G0] G
        = inners h @ G"
  proof (rule nth_equalityI)
    show "length (assign_rows (inners h @ G0) [length (inners h)..<length (inners h) + length G0] G)
          = length (inners h @ G)" using assms by simp
  next
    fix r assume "r < length (assign_rows (inners h @ G0) [length (inners h)..<length (inners h) + length G0] G)"
    then have r: "r < length (inners h) + length G0" by simp
    show "assign_rows (inners h @ G0) [length (inners h)..<length (inners h) + length G0] G ! r
          = (inners h @ G) ! r"
    proof (cases "r < length (inners h)")
      case True
      then show ?thesis by (simp add: assign_rows_other nth_append)
    next
      case False
      define k where "k = r - length (inners h)"
      have k: "k < length G0" using False r by (simp add: k_def)
      have rk: "[length (inners h)..<length (inners h) + length G0] ! k = r"
        using False r by (simp add: k_def)
      have "assign_rows (inners h @ G0) [length (inners h)..<length (inners h) + length G0] G
              ! ([length (inners h)..<length (inners h) + length G0] ! k) = G ! k"
        using assms k by (intro assign_rows_nth) simp_all
      then have "assign_rows (inners h @ G0) [length (inners h)..<length (inners h) + length G0] G ! r
          = G ! k" by (simp only: rk)
      moreover have "(inners h @ G) ! r = G ! k" using False by (simp add: nth_append k_def)
      ultimately show ?thesis by simp
    qed
  qed
  then show ?thesis using assms by (simp add: put_grid_def refs_at_def alloc_grid_def)
qed

lemma loop_rowmajor:
  assumes wf: "wfM h t"
    and step: "\<And>i j G. i < rows t \<Longrightarrow> j < cols t \<Longrightarrow> rect (rows t) (cols t) G \<Longrightarrow>
        G ! i ! j = grid_at h (data t) ! i ! j \<Longrightarrow>
        body i j (put_grid h (data t) G) = (Inr (), put_grid h (data t) (G[i := (G ! i)[j := V i j]]))"
  shows "forJ [0..<rows t] (\<lambda>i. forJ [0..<cols t] (body i)) h =
         (Inr (), put_grid h (data t) (tab (rows t) (cols t) V))"
proof -
  define Old where "Old = grid_at h (data t)"
  define P where "P i j = tab (rows t) (cols t)
      (\<lambda>a b. if a < i \<or> (a = i \<and> b < j) then V a b else Old ! a ! b)" for i j
  define S where "S i j = put_grid h (data t) (P i j)" for i j
  have P_step: "(P i j)[i := (P i j ! i)[j := V i j]] = P i (Suc j)"
    if "i < rows t" "j < cols t" for i j
  proof -
    have "(P i j)[i := (P i j ! i)[j := V i j]] = tab (rows t) (cols t)
       (\<lambda>a b. if a = i \<and> b = j then V i j
               else if a < i \<or> (a = i \<and> b < j) then V a b else Old ! a ! b)"
      unfolding P_def using that by (rule tab_update)
    also have "\<dots> = P i (Suc j)"
      unfolding P_def by (rule tab_cong) (auto simp: less_Suc_eq)
    finally show ?thesis .
  qed
  have P_link: "P i (cols t) = P (Suc i) 0" for i
    unfolding P_def by (rule tab_cong) (auto simp: less_Suc_eq)
  have P_0: "P 0 0 = Old"
  proof -
    have "P 0 0 = tab (rows t) (cols t) (\<lambda>a b. Old ! a ! b)"
      unfolding P_def by (rule tab_cong) simp
    then show ?thesis using wf by (simp add: Old_def rect_eq_tab wfM_rect)
  qed
  have P_end: "P (rows t) 0 = tab (rows t) (cols t) V"
    unfolding P_def by (rule tab_cong) simp
  have "forJ [0..<rows t] (\<lambda>i. forJ [0..<cols t] (body i)) (S 0 0) = (Inr (), S (rows t) 0)"
  proof (rule forJ2_states)
    fix i j assume ij: "i < rows t" "j < cols t"
    have "body i j (put_grid h (data t) (P i j)) =
          (Inr (), put_grid h (data t) ((P i j)[i := (P i j ! i)[j := V i j]]))"
      using ij by (intro step) (simp_all add: P_def Old_def)
    then show "body i j (S i j) = (Inr (), S i (Suc j))"
      using ij by (simp only: S_def P_step)
  next
    fix i assume "i < rows t"
    show "S i (cols t) = S (Suc i) 0" by (simp only: S_def P_link)
  qed
  moreover have "S 0 0 = h"
    unfolding S_def P_0 Old_def using wf by (rule put_grid_same)
  moreover have "S (rows t) 0 = put_grid h (data t) (tab (rows t) (cols t) V)"
    unfolding S_def P_end ..
  ultimately show ?thesis by (simp only:)
qed

lemma loop_transposed:
  assumes wf: "wfM h t"
    and step: "\<And>i j G. i < cols t \<Longrightarrow> j < rows t \<Longrightarrow> rect (rows t) (cols t) G \<Longrightarrow>
        body i j (put_grid h (data t) G) = (Inr (), put_grid h (data t) (G[j := (G ! j)[i := V j i]]))"
  shows "forJ [0..<cols t] (\<lambda>i. forJ [0..<rows t] (body i)) h =
         (Inr (), put_grid h (data t) (tab (rows t) (cols t) V))"
proof -
  define Old where "Old = grid_at h (data t)"
  define P where "P i j = tab (rows t) (cols t)
      (\<lambda>a b. if b < i \<or> (b = i \<and> a < j) then V a b else Old ! a ! b)" for i j
  define S where "S i j = put_grid h (data t) (P i j)" for i j
  have P_step: "(P i j)[j := (P i j ! j)[i := V j i]] = P i (Suc j)"
    if "i < cols t" "j < rows t" for i j
  proof -
    have "(P i j)[j := (P i j ! j)[i := V j i]] = tab (rows t) (cols t)
       (\<lambda>a b. if a = j \<and> b = i then V j i
               else if b < i \<or> (b = i \<and> a < j) then V a b else Old ! a ! b)"
      unfolding P_def using that(2) that(1) by (rule tab_update)
    also have "\<dots> = P i (Suc j)"
      unfolding P_def by (rule tab_cong) (auto simp: less_Suc_eq)
    finally show ?thesis .
  qed
  have P_link: "P i (rows t) = P (Suc i) 0" for i
    unfolding P_def by (rule tab_cong) (auto simp: less_Suc_eq)
  have P_0: "P 0 0 = Old"
  proof -
    have "P 0 0 = tab (rows t) (cols t) (\<lambda>a b. Old ! a ! b)"
      unfolding P_def by (rule tab_cong) simp
    then show ?thesis using wf by (simp add: Old_def rect_eq_tab wfM_rect)
  qed
  have P_end: "P (cols t) 0 = tab (rows t) (cols t) V"
    unfolding P_def by (rule tab_cong) simp
  have "forJ [0..<cols t] (\<lambda>i. forJ [0..<rows t] (body i)) (S 0 0) = (Inr (), S (cols t) 0)"
  proof (rule forJ2_states)
    fix i j assume ij: "i < cols t" "j < rows t"
    have "body i j (put_grid h (data t) (P i j)) =
          (Inr (), put_grid h (data t) ((P i j)[j := (P i j ! j)[i := V j i]]))"
      using ij by (intro step) (simp_all add: P_def)
    then show "body i j (S i j) = (Inr (), S i (Suc j))"
      using ij by (simp only: S_def P_step)
  next
    fix i assume "i < cols t"
    show "S i (rows t) = S (Suc i) 0" by (simp only: S_def P_link)
  qed
  moreover have "S 0 0 = h"
    unfolding S_def P_0 Old_def using wf by (rule put_grid_same)
  moreover have "S (cols t) 0 = put_grid h (data t) (tab (rows t) (cols t) V)"
    unfolding S_def P_end ..
  ultimately show ?thesis by (simp only:)
qed

subsection \<open>What each Matrix operation does to a well-formed store\<close>

lemma rect_zeros: "rect R C (replicate R (replicate C z))"
  by (simp add: rect_def)

lemma step_unary:
  assumes "wfM h t" "i < rows t" "j < cols t" "rect (rows t) (cols t) G"
  shows "bindJ (get_cell (data t) i j) (\<lambda>x. set_cell (data t) i j (f x)) (put_grid h (data t) G)
         = (Inr (), put_grid h (data t) (G[i := (G ! i)[j := f (G ! i ! j)]]))"
  using assms by (simp add: bindJ_def get_cell_put_same set_cell_put)

lemma step_binary:
  assumes "wfM h t" "wfM h m" "sep_rows h (data m) (data t)" "rows t = rows m" "cols t = cols m"
    "i < rows t" "j < cols t" "rect (rows t) (cols t) G"
  shows "bindJ (get_cell (data t) i j) (\<lambda>x. bindJ (get_cell (data m) i j) (\<lambda>y.
            set_cell (data t) i j (f x y))) (put_grid h (data t) G)
         = (Inr (), put_grid h (data t)
              (G[i := (G ! i)[j := f (G ! i ! j) (grid_at h (data m) ! i ! j)]]))"
  using assms by (simp add: bindJ_def get_cell_put_same get_cell_put_other set_cell_put)

lemma map_this_wf:
  assumes "wfM h t"
  shows "map_this t fn h = (Inr t, put_grid h (data t)
           (tab (rows t) (cols t) (\<lambda>i j. fn (grid_at h (data t) ! i ! j))))"
proof -
  have "forJ [0..<rows t] (\<lambda>i. forJ [0..<cols t] (\<lambda>j.
          bindJ (get_cell (data t) i j) (\<lambda>x. set_cell (data t) i j (fn x)))) h
        = (Inr (), put_grid h (data t) (tab (rows t) (cols t) (\<lambda>i j. fn (grid_at h (data t) ! i ! j))))"
    by (rule loop_rowmajor[OF assms]) (simp add: step_unary[OF assms])
  then show ?thesis by (simp add: map_this_def bindJ_def returnJ_def)
qed

lemma add_Scalar_wf:
  assumes "wfM h t"
  shows "add t (Scalar s) h = (Inr t, put_grid h (data t)
           (tab (rows t) (cols t) (\<lambda>i j. js_add (grid_at h (data t) ! i ! j) s)))"
proof -
  have "forJ [0..<rows t] (\<lambda>i. forJ [0..<cols t] (\<lambda>j.
          bindJ (get_cell (data t) i j) (\<lambda>x. set_cell (data t) i j (js_add x s)))) h
        = (Inr (), put_grid h (data t) (tab (rows t) (cols t) (\<lambda>i j. js_add (grid_at h (data t) ! i ! j) s)))"
    by (rule loop_rowmajor[OF assms]) (simp add: step_unary[OF assms])
  then show ?thesis by (simp add: add_def bindJ_def returnJ_def)
qed

lemma multiply_Scalar_wf:
  assumes "wfM h t"
  shows "multiply t (Scalar s) h = (Inr t, put_grid h (data t)
           (tab (rows t) (cols t) (\<lambda>i j. js_mul (grid_at h (data t) ! i ! j) s)))"
proof -
  have "forJ [0..<rows t] (\<lambda>i. forJ [0..<cols t] (\<lambda>j.
          bindJ (get_cell (data t) i j) (\<lambda>x. set_cell (data t) i j (js_mul x s)))) h
        = (Inr (), put_grid h (data t) (tab (rows t) (cols t) (\<lambda>i j. js_mul (grid_at h (data t) ! i ! j) s)))"
    by (rule loop_rowmajor[OF assms]) (simp add: step_unary[OF assms])
  then show ?thesis by (simp add: multiply_def bindJ_def returnJ_def)
qed

lemma add_Mat_wf:
  assumes "wfM h t" "wfM h m" "sep_rows h (data m) (data t)" "rows t = rows m" "cols t = cols m"
  shows "add t (Mat m) h = (Inr t, put_grid h (data t)
           (tab (rows t) (cols t) (\<lambda>i j. js_add (grid_at h (data t) ! i ! j) (grid_at h (data m) ! i ! j))))"
proof -
  have "forJ [0..<rows t] (\<lambda>i. forJ [0..<cols t] (\<lambda>j.
          bindJ (get_cell (data t) i j) (\<lambda>x. bindJ (get_cell (data m) i j) (\<lambda>y.
            set_cell (data t) i j (js_add x y))))) h
        = (Inr (), put_grid h (data t) (tab (rows t) (cols t)
            (\<lambda>i j. js_add (grid_at h (data t) ! i ! j) (grid_at h (data m) ! i ! j))))"
    by (rule loop_rowmajor[OF assms(1)]) (simp add: step_binary[OF assms])
  then show ?thesis using assms by (simp add: add_def bindJ_def returnJ_def)
qed

lemma multiply_Mat_wf:
  assumes "wfM h t" "wfM h m" "sep_rows h (data m) (data t)" "rows t = rows m" "cols t = cols m"
  shows "multiply t (Mat m) h = (Inr t, put_grid h (data t)
           (tab (rows t) (cols t) (\<lambda>i j. js_mul (grid_at h (data t) ! i ! j) (grid_at h (data m) ! i ! j))))"
proof -
  have "forJ [0..<rows t] (\<lambda>i. forJ [0..<cols t] (\<lambda>j.
          bindJ (get_cell (data t) i j) (\<lambda>x. bindJ (get_cell (data m) i j) (\<lambda>y.
            set_cell (data t) i j (js_mul x y))))) h
        = (Inr (), put_grid h (data t) (tab (rows t) (cols t)
            (\<lambda>i j. js_mul (grid_at h (data t) ! i ! j) (grid_at h (data m) ! i ! j))))"
    by (rule loop_rowmajor[OF assms(1)]) (simp add: step_binary[OF assms])
  then show ?thesis using assms by (simp add: multiply_def bindJ_def returnJ_def)
qed

lemma newM_simps [simp]:
  "rows (newM h R C) = R" "cols (newM h R C) = C" "data (newM h R C) = length (outers h)"
  by (simp_all add: newM_def)

lemma rect_zeros' [simp]: "rect R C (zeros R C)" "length (zeros R C) = R"
  by (simp_all add: zeros_def rect_def)

lemma new_Matrix_eq: "new_Matrix R C h = (Inr (newM h R C), alloc_grid h (zeros R C))"
  by (simp add: new_Matrix_alloc newM_def zeros_def)

lemma wfM_newM: "rect R C G \<Longrightarrow> wfM (alloc_grid h G) (newM h R C)"
  unfolding newM_def by (rule wfM_alloc_new)

lemma get_cell_src:
  assumes "wfM h a" "i < rows a" "j < cols a"
  shows "get_cell (data a) i j (put_grid (alloc_grid h (zeros R C)) (length (outers h)) G)
         = (Inr (grid_at h (data a) ! i ! j), put_grid (alloc_grid h (zeros R C)) (length (outers h)) G)"
proof -
  have "get_cell (data a) i j (put_grid (alloc_grid h (zeros R C)) (data (newM h R C)) G)
     = (Inr (grid_at (alloc_grid h (zeros R C)) (data a) ! i ! j),
        put_grid (alloc_grid h (zeros R C)) (data (newM h R C)) G)"
    using assms
    by (intro get_cell_put_other wfM_newM wfM_alloc_old) (simp_all add: sep_rows_alloc_new)
  then show ?thesis using assms by (simp add: grid_at_alloc_old)
qed

lemma set_cell_res:
  assumes "i < R" "j < C" "rect R C G"
  shows "set_cell (length (outers h)) i j v (put_grid (alloc_grid h (zeros R C)) (length (outers h)) G)
         = (Inr (), put_grid (alloc_grid h (zeros R C)) (length (outers h)) (G[i := (G ! i)[j := v]]))"
  using set_cell_put[of "alloc_grid h (zeros R C)" "newM h R C" G i j v] assms
  by (simp add: wfM_newM)

lemma bindJ_new_Matrix:
  "bindJ (new_Matrix R C) f h = f (newM h R C) (alloc_grid h (zeros R C))"
  by (simp add: bindJ_def new_Matrix_eq)

lemma bindJ_unit: "m h = (Inr (), h') \<Longrightarrow> bindJ m (\<lambda>_. returnJ x) h = (Inr x, h')"
  by (simp add: bindJ_def returnJ_def)

lemma static_rowmajor:
  assumes step: "\<And>i j G. i < R \<Longrightarrow> j < C \<Longrightarrow> rect R C G \<Longrightarrow>
        body i j (put_grid (alloc_grid h (zeros R C)) (length (outers h)) G)
        = (Inr (), put_grid (alloc_grid h (zeros R C)) (length (outers h)) (G[i := (G ! i)[j := V i j]]))"
  shows "forJ [0..<R] (\<lambda>i. forJ [0..<C] (body i)) (alloc_grid h (zeros R C))
         = (Inr (), alloc_grid h (tab R C V))"
proof -
  have "forJ [0..<rows (newM h R C)] (\<lambda>i. forJ [0..<cols (newM h R C)] (body i)) (alloc_grid h (zeros R C))
        = (Inr (), put_grid (alloc_grid h (zeros R C)) (data (newM h R C))
             (tab (rows (newM h R C)) (cols (newM h R C)) V))"
    by (rule loop_rowmajor) (simp_all add: wfM_newM step)
  then show ?thesis by (simp add: put_alloc)
qed

lemma static_transposed:
  assumes step: "\<And>i j G. i < C \<Longrightarrow> j < R \<Longrightarrow> rect R C G \<Longrightarrow>
        body i j (put_grid (alloc_grid h (zeros R C)) (length (outers h)) G)
        = (Inr (), put_grid (alloc_grid h (zeros R C)) (length (outers h)) (G[j := (G ! j)[i := V j i]]))"
  shows "forJ [0..<C] (\<lambda>i. forJ [0..<R] (body i)) (alloc_grid h (zeros R C))
         = (Inr (), alloc_grid h (tab R C V))"
proof -
  have "forJ [0..<cols (newM h R C)] (\<lambda>i. forJ [0..<rows (newM h R C)] (body i)) (alloc_grid h (zeros R C))
        = (Inr (), put_grid (alloc_grid h (zeros R C)) (data (newM h R C))
             (tab (rows (newM h R C)) (cols (newM h R C)) V))"
    by (rule loop_transposed) (simp_all add: wfM_newM step)
  then show ?thesis by (simp add: put_alloc)
qed

lemma Matrix_fromArray_eq:
  "Matrix_fromArray arr h =
     (Inr (newM h (length arr) 1), alloc_grid h (tab (length arr) 1 (\<lambda>i j. arr ! i)))"
proof -
  have "forJ [0..<length arr] (\<lambda>i. set_cell (length (outers h)) i 0 (js_nth arr i))
          (alloc_grid h (zeros (length arr) 1))
        = (Inr (), alloc_grid h (tab (length arr) 1 (\<lambda>i j. arr ! i)))"
  proof -
    have "forJ [0..<length arr] (\<lambda>i. forJ [0..<1] (\<lambda>j. set_cell (length (outers h)) i j (js_nth arr i)))
          (alloc_grid h (zeros (length arr) 1))
        = (Inr (), alloc_grid h (tab (length arr) 1 (\<lambda>i j. arr ! i)))"
      by (rule static_rowmajor) (simp add: set_cell_res js_nth_def)
    moreover have "forJ [0..<1] (\<lambda>j. set_cell (length (outers h)) i j (js_nth arr i))
         = set_cell (length (outers h)) i 0 (js_nth arr i)" for i
      by (rule ext) (simp add: bindJ_def returnJ_def split: prod.splits sum.splits)
    ultimately show ?thesis by simp
  qed
  then show ?thesis
    by (simp add: Matrix_fromArray_def bindJ_new_Matrix bindJ_unit)
qed

lemma Matrix_map_wf:
  assumes "wfM h m"
  shows "Matrix_map m fn h = (Inr (newM h (rows m) (cols m)),
           alloc_grid h (tab (rows m) (cols m) (\<lambda>i j. fn (grid_at h (data m) ! i ! j))))"
proof -
  have loop: "forJ [0..<rows m] (\<lambda>i. forJ [0..<cols m] (\<lambda>j.
          bindJ (get_cell (data m) i j) (\<lambda>x. set_cell (length (outers h)) i j (fn x))))
          (alloc_grid h (zeros (rows m) (cols m)))
        = (Inr (), alloc_grid h (tab (rows m) (cols m) (\<lambda>i j. fn (grid_at h (data m) ! i ! j))))"
    by (rule static_rowmajor) (simp add: bindJ_def get_cell_src[OF assms] set_cell_res)
  show ?thesis
    by (simp add: Matrix_map_def bindJ_new_Matrix bindJ_unit[where m = "forJ _ _", OF loop])
qed

lemma Matrix_subtract_wf:
  assumes "wfM h a" "wfM h b" "rows a = rows b" "cols a = cols b"
  shows "Matrix_subtract a b h = (Inr (newM h (rows a) (cols a)),
           alloc_grid h (tab (rows a) (cols a)
             (\<lambda>i j. js_sub (grid_at h (data a) ! i ! j) (grid_at h (data b) ! i ! j))))"
proof -
  have loop: "forJ [0..<rows a] (\<lambda>i. forJ [0..<cols a] (\<lambda>j.
          bindJ (get_cell (data a) i j) (\<lambda>x. bindJ (get_cell (data b) i j) (\<lambda>y.
            set_cell (length (outers h)) i j (js_sub x y)))))
          (alloc_grid h (zeros (rows a) (cols a)))
        = (Inr (), alloc_grid h (tab (rows a) (cols a)
             (\<lambda>i j. js_sub (grid_at h (data a) ! i ! j) (grid_at h (data b) ! i ! j))))"
    using assms(3,4)
    by (intro static_rowmajor)
       (simp add: bindJ_def get_cell_src[OF assms(1)] get_cell_src[OF assms(2)] set_cell_res)
  have c: "(rows a \<noteq> rows b \<or> cols a \<noteq> cols b) = False" using assms(3,4) by simp
  show ?thesis unfolding Matrix_subtract_def c
    by (simp add: bindJ_new_Matrix bindJ_unit[where m = "forJ _ _", OF loop])
qed

lemma Matrix_transpose_wf:
  assumes "wfM h m"
  shows "Matrix_transpose m h = (Inr (newM h (cols m) (rows m)),
           alloc_grid h (tab (cols m) (rows m) (\<lambda>i j. grid_at h (data m) ! j ! i)))"
proof -
  have loop: "forJ [0..<rows m] (\<lambda>i. forJ [0..<cols m] (\<lambda>j.
          bindJ (get_cell (data m) i j) (\<lambda>x. set_cell (length (outers h)) j i x)))
          (alloc_grid h (zeros (cols m) (rows m)))
        = (Inr (), alloc_grid h (tab (cols m) (rows m) (\<lambda>i j. grid_at h (data m) ! j ! i)))"
    by (rule static_transposed) (simp add: bindJ_def get_cell_src[OF assms] set_cell_res)
  show ?thesis
    by (simp add: Matrix_transpose_def bindJ_new_Matrix bindJ_unit[where m = "forJ _ _", OF loop])
qed

lemma Matrix_multiply_wf:
  assumes "wfM h a" "wfM h b" "cols a = rows b"
  shows "Matrix_multiply a b h = (Inr (newM h (rows a) (cols b)),
           alloc_grid h (tab (rows a) (cols b)
             (dotp (grid_at h (data a)) (grid_at h (data b)) (cols a))))"
proof -
  have inner0: "foldJ [0..<cols a] (\<lambda>k sum.
              bindJ (get_cell (data a) i k) (\<lambda>x.
              bindJ (get_cell (data b) k j) (\<lambda>y.
              returnJ (js_add sum (js_mul x y))))) (Num 0)
            (put_grid (alloc_grid h (zeros (rows a) (cols b))) (length (outers h)) G)
        = (Inr (dotp (grid_at h (data a)) (grid_at h (data b)) (cols a) i j),
           put_grid (alloc_grid h (zeros (rows a) (cols b))) (length (outers h)) G)"
    if "i < rows a" "j < cols b" for i j G
    unfolding dotp_def using that assms(3)
    by (intro foldJ_pure)
       (simp add: bindJ_def returnJ_def get_cell_src[OF assms(1)] get_cell_src[OF assms(2)])
  have inner: "bindJ (foldJ [0..<cols a] (\<lambda>k sum.
              bindJ (get_cell (data a) i k) (\<lambda>x.
              bindJ (get_cell (data b) k j) (\<lambda>y.
              returnJ (js_add sum (js_mul x y))))) (Num 0)) f
            (put_grid (alloc_grid h (zeros (rows a) (cols b))) (length (outers h)) G)
        = f (dotp (grid_at h (data a)) (grid_at h (data b)) (cols a) i j)
           (put_grid (alloc_grid h (zeros (rows a) (cols b))) (length (outers h)) G)"
    if "i < rows a" "j < cols b" for i j G f
    using inner0[OF that, of G] by (simp add: bindJ_def)
  have loop: "forJ [0..<rows a] (\<lambda>i. forJ [0..<cols b] (\<lambda>j.
            bindJ (foldJ [0..<cols a] (\<lambda>k sum.
              bindJ (get_cell (data a) i k) (\<lambda>x.
              bindJ (get_cell (data b) k j) (\<lambda>y.
              returnJ (js_add sum (js_mul x y))))) (Num 0)) (\<lambda>sum.
            set_cell (length (outers h)) i j sum)))
          (alloc_grid h (zeros (rows a) (cols b)))
        = (Inr (), alloc_grid h (tab (rows a) (cols b)
             (dotp (grid_at h (data a)) (grid_at h (data b)) (cols a))))"
    by (rule static_rowmajor) (simp add: inner set_cell_res)
  have c: "(cols a \<noteq> rows b) = False" using assms(3) by simp
  show ?thesis unfolding Matrix_multiply_def c
    by (simp add: bindJ_new_Matrix bindJ_unit[where m = "forJ _ _", OF loop])
qed

lemma get_cell_wf:
  assumes "wfM h m" "i < rows m" "j < cols m"
  shows "get_cell (data m) i j h = (Inr (grid_at h (data m) ! i ! j), h)"
  using get_cell_put_same[OF assms(1) wfM_rect[OF assms(1)] assms(2,3)] assms(1)
  by (simp add: put_grid_same)

lemma fold_snoc: "fold (\<lambda>x acc. acc @ f x) xs acc = acc @ concat (map f xs)"
  by (induction xs arbitrary: acc) simp_all

lemma toArray_wf:
  assumes "wfM h m"
  shows "toArray m h = (Inr (concat (grid_at h (data m))), h)"
proof -
  have inner: "foldJ [0..<cols m] (\<lambda>j arr.
         bindJ (get_cell (data m) i j) (\<lambda>x. returnJ (arr @ [x]))) arr h
       = (Inr (fold (\<lambda>j arr. arr @ [grid_at h (data m) ! i ! j]) [0..<cols m] arr), h)"
    if "i < rows m" for i arr
    using that by (intro foldJ_pure) (simp add: bindJ_def returnJ_def get_cell_wf[OF assms])
  have "toArray m h = (Inr (fold (\<lambda>i arr. fold (\<lambda>j arr. arr @ [grid_at h (data m) ! i ! j]) [0..<cols m] arr)
           [0..<rows m] []), h)"
    unfolding toArray_def by (rule foldJ_pure) (simp add: inner)
  also have "(\<lambda>i arr. fold (\<lambda>j arr. arr @ [grid_at h (data m) ! i ! j]) [0..<cols m] arr)
      = (\<lambda>i arr. arr @ map (\<lambda>j. grid_at h (data m) ! i ! j) [0..<cols m])"
    by (intro ext) (simp add: fold_snoc[where f = "\<lambda>j. [_ j]", simplified])
  also have "fold (\<lambda>i arr. arr @ map (\<lambda>j. grid_at h (data m) ! i ! j) [0..<cols m]) [0..<rows m] []
      = concat (tab (rows m) (cols m) (\<lambda>i j. grid_at h (data m) ! i ! j))"
    by (simp add: fold_snoc tab_def)
  finally show ?thesis using assms by (simp add: rect_eq_tab wfM_rect)
qed

subsection \<open>Stores that hold a list of separate matrices\<close>

lemma rect_m [simp]:
  "rect R C (m_add R C A B)" "rect R C (m_sub R C A B)" "rect R C (m_had R C A B)"
  "rect R C (m_scale R C A s)" "rect R C (m_map R C f A)" "rect C R (m_transpose R C A)"
  "rect R C (m_mul R N C A B)" "rect (length xs) 1 (col_vec xs)"
  by (simp_all add: m_add_def m_sub_def m_had_def m_scale_def m_map_def m_transpose_def
      m_mul_def col_vec_def)

lemma owns_append:
  "owns h (xs @ ys) = (owns h xs \<and> owns h ys \<and>
     (\<forall>x \<in> set xs. \<forall>y \<in> set ys. sep_rows h (data (fst x)) (data (fst y))))"
  by (induction xs) auto

lemma owns_live: "owns h bs \<Longrightarrow> x \<in> set bs \<Longrightarrow> live h (fst x) (snd x)"
  by (induction bs) auto

lemma owns_wf: "owns h bs \<Longrightarrow> (m, G) \<in> set bs \<Longrightarrow> wfM h m"
  using owns_live[of h bs "(m, G)"] by (simp add: live_def)

lemma owns_grid: "owns h bs \<Longrightarrow> (m, G) \<in> set bs \<Longrightarrow> grid_at h (data m) = G"
  using owns_live[of h bs "(m, G)"] by (simp add: live_def)

lemma owns_alloc:
  assumes "owns h bs" "rect R C G"
  shows "owns (alloc_grid h G) ((newM h R C, G) # bs)"
proof -
  have old: "owns (alloc_grid h G) bs" using assms(1)
  proof (induction bs)
    case Nil then show ?case by simp
  next
    case (Cons x bs)
    then have wfx: "wfM h (fst x)" by (simp add: live_def)
    have "sep_rows (alloc_grid h G) (data (fst x)) (data (fst y)) = sep_rows h (data (fst x)) (data (fst y))"
      if "y \<in> set bs" for y
    proof -
      have "wfM h (fst y)" using Cons.prems that owns_live[of h bs y] by (simp add: live_def)
      then show ?thesis using wfx by (intro sep_rows_alloc_old) (simp_all add: wfM_def)
    qed
    then show ?case using Cons wfx
      by (simp add: live_def wfM_alloc_old grid_at_alloc_old)
  qed
  have "sep_rows (alloc_grid h G) (data (newM h R C)) (data (fst y))" if "y \<in> set bs" for y
  proof -
    have "wfM h (fst y)" using assms(1) that owns_live[of h bs y] by (simp add: live_def)
    then show ?thesis using sep_rows_alloc_new[of h "fst y" G] by (simp add: sep_rows_sym)
  qed
  then show ?thesis using old assms(2)
    by (simp add: live_def wfM_newM grid_at_alloc_new)
qed

lemma owns_put:
  assumes "owns h (pre @ (t, T) # post)" "rect (rows t) (cols t) G"
  shows "owns (put_grid h (data t) G) (pre @ (t, G) # post)"
proof -
  have wft: "wfM h t" using assms(1) by (simp add: owns_append live_def)
  have keep: "owns (put_grid h (data t) G) bs"
    if "owns h bs" "\<forall>x \<in> set bs. sep_rows h (data (fst x)) (data t)" for bs
    using that by (induction bs) (simp_all add: live_def wfM_put_other grid_at_put_other)
  have d1: "\<forall>x \<in> set pre. sep_rows h (data (fst x)) (data t)"
    using assms(1) by (simp add: owns_append)
  have d2: "\<forall>x \<in> set post. sep_rows h (data (fst x)) (data t)"
    using assms(1) by (simp add: owns_append sep_rows_sym[of h "data t"])
  show ?thesis using assms keep[OF _ d1] keep[OF _ d2] wft
    by (simp add: owns_append live_def wfM_put_same grid_at_put_same rect_length)
qed

lemma owns_swap: "owns h (xs @ ys) = owns h (ys @ xs)"
  by (auto simp: owns_append intro: sep_rows_sym[THEN iffD1])

lemma owns_tail: "owns h (xs @ ys) \<Longrightarrow> owns h ys"
  by (simp add: owns_append)

subsection \<open>The Matrix operations on such stores\<close>

lemma fromArray_owns:
  assumes "owns h bs"
  shows "\<exists>res h'. Matrix_fromArray xs h = (Inr res, h') \<and> rows res = length xs \<and> cols res = 1 \<and>
           owns h' ((res, col_vec xs) # bs)"
  using owns_alloc[OF assms, of "length xs" 1 "col_vec xs"]
  by (simp add: Matrix_fromArray_eq col_vec_def)

lemma Matrix_multiply_owns:
  assumes "owns h bs" "(a, A) \<in> set bs" "(b, B) \<in> set bs" "cols a = rows b"
  shows "\<exists>res h'. Matrix_multiply a b h = (Inr res, h') \<and> rows res = rows a \<and> cols res = cols b \<and>
           owns h' ((res, m_mul (rows a) (cols a) (cols b) A B) # bs)"
  using owns_alloc[OF assms(1), of "rows a" "cols b" "m_mul (rows a) (cols a) (cols b) A B"]
    Matrix_multiply_wf[OF owns_wf[OF assms(1,2)] owns_wf[OF assms(1,3)] assms(4)]
    owns_grid[OF assms(1,2)] owns_grid[OF assms(1,3)]
  by (simp add: m_mul_def)

lemma Matrix_subtract_owns:
  assumes "owns h bs" "(a, A) \<in> set bs" "(b, B) \<in> set bs" "rows a = rows b" "cols a = cols b"
  shows "\<exists>res h'. Matrix_subtract a b h = (Inr res, h') \<and> rows res = rows a \<and> cols res = cols a \<and>
           owns h' ((res, m_sub (rows a) (cols a) A B) # bs)"
  using owns_alloc[OF assms(1), of "rows a" "cols a" "m_sub (rows a) (cols a) A B"]
    Matrix_subtract_wf[OF owns_wf[OF assms(1,2)] owns_wf[OF assms(1,3)] assms(4,5)]
    owns_grid[OF assms(1,2)] owns_grid[OF assms(1,3)]
  by (simp add: m_sub_def)

lemma Matrix_transpose_owns:
  assumes "owns h bs" "(a, A) \<in> set bs"
  shows "\<exists>res h'. Matrix_transpose a h = (Inr res, h') \<and> rows res = cols a \<and> cols res = rows a \<and>
           owns h' ((res, m_transpose (rows a) (cols a) A) # bs)"
  using owns_alloc[OF assms(1), of "cols a" "rows a" "m_transpose (rows a) (cols a) A"]
    Matrix_transpose_wf[OF owns_wf[OF assms(1,2)]] owns_grid[OF assms(1,2)]
  by (simp add: m_transpose_def)

lemma Matrix_map_owns:
  assumes "owns h bs" "(a, A) \<in> set bs"
  shows "\<exists>res h'. Matrix_map a fn h = (Inr res, h') \<and> rows res = rows a \<and> cols res = cols a \<and>
           owns h' ((res, m_map (rows a) (cols a) fn A) # bs)"
  using owns_alloc[OF assms(1), of "rows a" "cols a" "m_map (rows a) (cols a) fn A"]
    Matrix_map_wf[OF owns_wf[OF assms(1,2)]] owns_grid[OF assms(1,2)]
  by (simp add: m_map_def)

lemma toArray_owns:
  assumes "owns h bs" "(m, M) \<in> set bs"
  shows "toArray m h = (Inr (concat M), h)"
  using toArray_wf[OF owns_wf[OF assms]] owns_grid[OF assms] by simp

lemma owns_focus:
  assumes "owns h (pre @ (t, T) # post)"
  shows "wfM h t" "grid_at h (data t) = T"
    "(m, M) \<in> set (pre @ post) \<Longrightarrow> wfM h m \<and> grid_at h (data m) = M \<and> sep_rows h (data m) (data t)"
proof -
  show "wfM h t" "grid_at h (data t) = T" using assms by (simp_all add: owns_append live_def)
  assume "(m, M) \<in> set (pre @ post)"
  then consider "(m, M) \<in> set pre" | "(m, M) \<in> set post" by auto
  then show "wfM h m \<and> grid_at h (data m) = M \<and> sep_rows h (data m) (data t)"
  proof cases
    case 1
    then show ?thesis using assms owns_live[of h pre "(m, M)"]
      by (auto simp: owns_append live_def)
  next
    case 2
    then show ?thesis using assms owns_live[of h post "(m, M)"]
      by (auto simp: owns_append live_def sep_rows_sym[of h "data t"])
  qed
qed

lemma add_owns:
  assumes "owns h (pre @ (t, T) # post)" "(m, M) \<in> set (pre @ post)"
    "rows t = rows m" "cols t = cols m"
  shows "\<exists>h'. add t (Mat m) h = (Inr t, h') \<and>
           owns h' (pre @ (t, m_add (rows t) (cols t) T M) # post)"
  using owns_focus[OF assms(1)] assms(2-)
    owns_put[OF assms(1), of "m_add (rows t) (cols t) T M"]
  by (simp add: add_Mat_wf m_add_def)

lemma multiply_owns:
  assumes "owns h (pre @ (t, T) # post)" "(m, M) \<in> set (pre @ post)"
    "rows t = rows m" "cols t = cols m"
  shows "\<exists>h'. multiply t (Mat m) h = (Inr t, h') \<and>
           owns h' (pre @ (t, m_had (rows t) (cols t) T M) # post)"
  using owns_focus[OF assms(1)] assms(2-)
    owns_put[OF assms(1), of "m_had (rows t) (cols t) T M"]
  by (simp add: multiply_Mat_wf m_had_def)

lemma scale_owns:
  assumes "owns h (pre @ (t, T) # post)"
  shows "\<exists>h'. multiply t (Scalar s) h = (Inr t, h') \<and>
           owns h' (pre @ (t, m_scale (rows t) (cols t) T s) # post)"
  using owns_focus(1,2)[OF assms] owns_put[OF assms, of "m_scale (rows t) (cols t) T s"]
  by (simp add: multiply_Scalar_wf m_scale_def)

lemma map_this_owns:
  assumes "owns h (pre @ (t, T) # post)"
  shows "\<exists>h'. map_this t fn h = (Inr t, h') \<and>
           owns h' (pre @ (t, m_map (rows t) (cols t) fn T) # post)"
  using owns_focus(1,2)[OF assms] owns_put[OF assms, of "m_map (rows t) (cols t) fn T"]
  by (simp add: map_this_wf m_map_def)

subsection \<open>predict\<close>

lemma predict_owns:
  assumes sh: "shape_ok n"
    and o0: "owns h (net_grids n Wih Who Bh Bo @ rest)"
    and len: "length x = inputNodes n"
  shows "\<exists>h'. predict n x h =
           (Inr (predict_spec (inputNodes n) (hiddenNodes n) (outputNodes n) Wih Bh Who Bo x), h') \<and>
           owns h' (net_grids n Wih Who Bh Bo @ rest)"
proof -
  let ?I = "inputNodes n" and ?H = "hiddenNodes n" and ?O = "outputNodes n"
  let ?N = "net_grids n Wih Who Bh Bo @ rest"
  let ?X = "col_vec x"
  let ?H1 = "m_mul ?H ?I 1 Wih ?X"
  let ?H2 = "m_add ?H 1 ?H1 Bh"
  let ?H3 = "m_map ?H 1 sigmoid ?H2"
  let ?O1 = "m_mul ?O ?H 1 Who ?H3"
  let ?O2 = "m_add ?O 1 ?O1 Bo"
  let ?O3 = "m_map ?O 1 sigmoid ?O2"
  note shs = sh[unfolded shape_ok_def]
  obtain inputs h1 where s1: "Matrix_fromArray x h = (Inr inputs, h1)"
    and d1: "rows inputs = ?I" "cols inputs = 1"
    and o1: "owns h1 ((inputs, ?X) # ?N)"
    using fromArray_owns[OF o0, of x] len by auto
  obtain hidden h2 where s2: "Matrix_multiply (weights_ih n) inputs h1 = (Inr hidden, h2)"
    and d2: "rows hidden = ?H" "cols hidden = 1"
    and o2: "owns h2 ((hidden, ?H1) # (inputs, ?X) # ?N)"
    using Matrix_multiply_owns[OF o1, of "weights_ih n" Wih inputs ?X] d1 shs
    by (auto simp: net_grids_def)
  obtain h3 where s3: "add hidden (Mat (bias_h n)) h2 = (Inr hidden, h3)"
    and o3: "owns h3 ((hidden, ?H2) # (inputs, ?X) # ?N)"
    using add_owns[of h2 "[]" hidden ?H1 "(inputs, ?X) # ?N" "bias_h n" Bh] o2 d2 shs
    by (auto simp: net_grids_def)
  obtain h4 where s4: "map_this hidden sigmoid h3 = (Inr hidden, h4)"
    and o4: "owns h4 ((hidden, ?H3) # (inputs, ?X) # ?N)"
    using map_this_owns[of h3 "[]" hidden ?H2 "(inputs, ?X) # ?N" sigmoid] o3 d2
    by auto
  obtain outp h5 where s5: "Matrix_multiply (weights_ho n) hidden h4 = (Inr outp, h5)"
    and d5: "rows outp = ?O" "cols outp = 1"
    and o5: "owns h5 ((outp, ?O1) # (hidden, ?H3) # (inputs, ?X) # ?N)"
    using Matrix_multiply_owns[OF o4, of "weights_ho n" Who hidden ?H3] d2 shs
    by (auto simp: net_grids_def)
  obtain h6 where s6: "add outp (Mat (bias_o n)) h5 = (Inr outp, h6)"
    and o6: "owns h6 ((outp, ?O2) # (hidden, ?H3) # (inputs, ?X) # ?N)"
    using add_owns[of h5 "[]" outp ?O1 "(hidden, ?H3) # (inputs, ?X) # ?N" "bias_o n" Bo] o5 d5 shs
    by (auto simp: net_grids_def)
  obtain h7 where s7: "map_this outp sigmoid h6 = (Inr outp, h7)"
    and o7: "owns h7 ((outp, ?O3) # (hidden, ?H3) # (inputs, ?X) # ?N)"
    using map_this_owns[of h6 "[]" outp ?O2 "(hidden, ?H3) # (inputs, ?X) # ?N" sigmoid] o6 d5
    by auto
  have s8: "toArray outp h7 = (Inr (concat ?O3), h7)"
    using toArray_owns[OF o7, of outp ?O3] by simp
  have "predict n x h = (Inr (concat ?O3), h7)"
    by (simp add: predict_def bindJ_def s1 s2 s3 s4 s5 s6 s7 s8)
  moreover have "owns h7 ?N"
    using o7 owns_append[of h7 "[(outp, ?O3), (hidden, ?H3), (inputs, ?X)]" ?N] by simp
  ultimately show ?thesis by (simp add: predict_spec_def layer_def)
qed

subsection \<open>train\<close>

declare owns.simps [simp del]

lemma train_owns:
  assumes sh: "shape_ok n"
    and own: "owns h (net_grids n Wih Who Bh Bo @ rest)"
    and lenx: "length x = inputNodes n"
    and lent: "length t = outputNodes n"
  shows "\<exists>h' Wih' Who' Bh' Bo'. train n x t h = (Inr (), h') \<and>
           train_spec (inputNodes n) (hiddenNodes n) (outputNodes n) (learningRate n)
                   Wih Who Bh Bo x t = (Wih', Who', Bh', Bo') \<and>
           owns h' (net_grids n Wih' Who' Bh' Bo' @ rest)"
proof -
  let ?I = "inputNodes n"
  let ?H = "hiddenNodes n"
  let ?Q = "outputNodes n"
  let ?lr = "learningRate n"
  let ?X = "col_vec x"
  let ?T = "col_vec t"
  let ?H1 = "m_mul ?H ?I 1 Wih ?X"
  let ?H2 = "m_add ?H 1 ?H1 Bh"
  let ?Hd = "m_map ?H 1 sigmoid ?H2"
  let ?O1 = "m_mul ?Q ?H 1 Who ?Hd"
  let ?O2 = "m_add ?Q 1 ?O1 Bo"
  let ?Out = "m_map ?Q 1 sigmoid ?O2"
  let ?E = "m_sub ?Q 1 ?T ?Out"
  let ?G0 = "m_map ?Q 1 dsigmoid ?Out"
  let ?G1 = "m_had ?Q 1 ?G0 ?E"
  let ?G2 = "m_scale ?Q 1 ?G1 ?lr"
  let ?Ht = "m_transpose ?H 1 ?Hd"
  let ?D1 = "m_mul ?Q 1 ?H ?G2 ?Ht"
  let ?Who' = "m_add ?Q ?H Who ?D1"
  let ?Bo' = "m_add ?Q 1 Bo ?G2"
  let ?WT = "m_transpose ?Q ?H ?Who'"
  let ?HE = "m_mul ?H ?Q 1 ?WT ?E"
  let ?HG0 = "m_map ?H 1 dsigmoid ?Hd"
  let ?HG1 = "m_had ?H 1 ?HG0 ?HE"
  let ?HG2 = "m_scale ?H 1 ?HG1 ?lr"
  let ?Xt = "m_transpose ?I 1 ?X"
  let ?D2 = "m_mul ?H 1 ?I ?HG2 ?Xt"
  let ?Wih' = "m_add ?H ?I Wih ?D2"
  let ?Bh' = "m_add ?H 1 Bh ?HG2"
  note shs = sh[unfolded shape_ok_def]
  note len = lenx lent
  note o0 = own[unfolded net_grids_def append.simps]
  obtain inputs h1 where s1: "Matrix_fromArray x h = (Inr inputs, h1)"
    and d1: "rows inputs = ?I" "cols inputs = 1"
    and o1: "owns h1 ((inputs, ?X) # (weights_ih n, Wih) # (weights_ho n, Who) # (bias_h n, Bh) # (bias_o n, Bo) # rest)"
    using fromArray_owns[OF o0, of x]  shs len
    by auto
  obtain targets h2 where s2: "Matrix_fromArray t h1 = (Inr targets, h2)"
    and d2: "rows targets = length t" "cols targets = 1"
    and o2: "owns h2 ((targets, ?T) # (inputs, ?X) # (weights_ih n, Wih) # (weights_ho n, Who) # (bias_h n, Bh) # (bias_o n, Bo) # rest)"
    using fromArray_owns[OF o1, of t] d1 shs len
    by auto
  obtain hidden h3 where s3: "Matrix_multiply (weights_ih n) inputs h2 = (Inr hidden, h3)"
    and d3: "rows hidden = ?H" "cols hidden = 1"
    and o3: "owns h3 ((hidden, ?H1) # (targets, ?T) # (inputs, ?X) # (weights_ih n, Wih) # (weights_ho n, Who) # (bias_h n, Bh) # (bias_o n, Bo) # rest)"
    using Matrix_multiply_owns[OF o2, of "weights_ih n" Wih inputs ?X] d1 d2 shs len
    by auto
  obtain h4 where s4: "add hidden (Mat (bias_h n)) h3 = (Inr (hidden), h4)"
    and o4: "owns h4 ((hidden, ?H2) # (targets, ?T) # (inputs, ?X) # (weights_ih n, Wih) # (weights_ho n, Who) # (bias_h n, Bh) # (bias_o n, Bo) # rest)"
    using add_owns[of h3 "[]" "hidden" "?H1" "(targets, ?T) # (inputs, ?X) # (weights_ih n, Wih) # (weights_ho n, Who) # (bias_h n, Bh) # (bias_o n, Bo) # rest" "bias_h n" "Bh"] o3 d1 d2 d3 shs
    by auto
  obtain h5 where s5: "map_this hidden sigmoid h4 = (Inr (hidden), h5)"
    and o5: "owns h5 ((hidden, ?Hd) # (targets, ?T) # (inputs, ?X) # (weights_ih n, Wih) # (weights_ho n, Who) # (bias_h n, Bh) # (bias_o n, Bo) # rest)"
    using map_this_owns[of h4 "[]" "hidden" "?H2" "(targets, ?T) # (inputs, ?X) # (weights_ih n, Wih) # (weights_ho n, Who) # (bias_h n, Bh) # (bias_o n, Bo) # rest" "sigmoid"] o4 d1 d2 d3 shs
    by auto
  obtain outputs h6 where s6: "Matrix_multiply (weights_ho n) hidden h5 = (Inr outputs, h6)"
    and d6: "rows outputs = ?Q" "cols outputs = 1"
    and o6: "owns h6 ((outputs, ?O1) # (hidden, ?Hd) # (targets, ?T) # (inputs, ?X) # (weights_ih n, Wih) # (weights_ho n, Who) # (bias_h n, Bh) # (bias_o n, Bo) # rest)"
    using Matrix_multiply_owns[OF o5, of "weights_ho n" Who hidden ?Hd] d1 d2 d3 shs len
    by auto
  obtain h7 where s7: "add outputs (Mat (bias_o n)) h6 = (Inr (outputs), h7)"
    and o7: "owns h7 ((outputs, ?O2) # (hidden, ?Hd) # (targets, ?T) # (inputs, ?X) # (weights_ih n, Wih) # (weights_ho n, Who) # (bias_h n, Bh) # (bias_o n, Bo) # rest)"
    using add_owns[of h6 "[]" "outputs" "?O1" "(hidden, ?Hd) # (targets, ?T) # (inputs, ?X) # (weights_ih n, Wih) # (weights_ho n, Who) # (bias_h n, Bh) # (bias_o n, Bo) # rest" "bias_o n" "Bo"] o6 d1 d2 d3 d6 shs
    by auto
  obtain h8 where s8: "map_this outputs sigmoid h7 = (Inr (outputs), h8)"
    and o8: "owns h8 ((outputs, ?Out) # (hidden, ?Hd) # (targets, ?T) # (inputs, ?X) # (weights_ih n, Wih) # (weights_ho n, Who) # (bias_h n, Bh) # (bias_o n, Bo) # rest)"
    using map_this_owns[of h7 "[]" "outputs" "?O2" "(hidden, ?Hd) # (targets, ?T) # (inputs, ?X) # (weights_ih n, Wih) # (weights_ho n, Who) # (bias_h n, Bh) # (bias_o n, Bo) # rest" "sigmoid"] o7 d1 d2 d3 d6 shs
    by auto
  obtain output_errors h9 where s9: "Matrix_subtract targets outputs h8 = (Inr output_errors, h9)"
    and d9: "rows output_errors = ?Q" "cols output_errors = 1"
    and o9: "owns h9 ((output_errors, ?E) # (outputs, ?Out) # (hidden, ?Hd) # (targets, ?T) # (inputs, ?X) # (weights_ih n, Wih) # (weights_ho n, Who) # (bias_h n, Bh) # (bias_o n, Bo) # rest)"
    using Matrix_subtract_owns[OF o8, of targets ?T outputs ?Out] d1 d2 d3 d6 shs len
    by auto
  obtain gradients h10 where s10: "Matrix_map outputs dsigmoid h9 = (Inr gradients, h10)"
    and d10: "rows gradients = ?Q" "cols gradients = 1"
    and o10: "owns h10 ((gradients, ?G0) # (output_errors, ?E) # (outputs, ?Out) # (hidden, ?Hd) # (targets, ?T) # (inputs, ?X) # (weights_ih n, Wih) # (weights_ho n, Who) # (bias_h n, Bh) # (bias_o n, Bo) # rest)"
    using Matrix_map_owns[OF o9, of outputs ?Out dsigmoid] d1 d2 d3 d6 d9 shs len
    by auto
  obtain h11 where s11: "multiply gradients (Mat output_errors) h10 = (Inr (gradients), h11)"
    and o11: "owns h11 ((gradients, ?G1) # (output_errors, ?E) # (outputs, ?Out) # (hidden, ?Hd) # (targets, ?T) # (inputs, ?X) # (weights_ih n, Wih) # (weights_ho n, Who) # (bias_h n, Bh) # (bias_o n, Bo) # rest)"
    using multiply_owns[of h10 "[]" "gradients" "?G0" "(output_errors, ?E) # (outputs, ?Out) # (hidden, ?Hd) # (targets, ?T) # (inputs, ?X) # (weights_ih n, Wih) # (weights_ho n, Who) # (bias_h n, Bh) # (bias_o n, Bo) # rest" "output_errors" "?E"] o10 d1 d2 d3 d6 d9 d10 shs
    by auto
  obtain h12 where s12: "multiply gradients (Scalar ?lr) h11 = (Inr (gradients), h12)"
    and o12: "owns h12 ((gradients, ?G2) # (output_errors, ?E) # (outputs, ?Out) # (hidden, ?Hd) # (targets, ?T) # (inputs, ?X) # (weights_ih n, Wih) # (weights_ho n, Who) # (bias_h n, Bh) # (bias_o n, Bo) # rest)"
    using scale_owns[of h11 "[]" "gradients" "?G1" "(output_errors, ?E) # (outputs, ?Out) # (hidden, ?Hd) # (targets, ?T) # (inputs, ?X) # (weights_ih n, Wih) # (weights_ho n, Who) # (bias_h n, Bh) # (bias_o n, Bo) # rest" "?lr"] o11 d1 d2 d3 d6 d9 d10 shs
    by auto
  obtain hidden_t h13 where s13: "Matrix_transpose hidden h12 = (Inr hidden_t, h13)"
    and d13: "rows hidden_t = 1" "cols hidden_t = ?H"
    and o13: "owns h13 ((hidden_t, ?Ht) # (gradients, ?G2) # (output_errors, ?E) # (outputs, ?Out) # (hidden, ?Hd) # (targets, ?T) # (inputs, ?X) # (weights_ih n, Wih) # (weights_ho n, Who) # (bias_h n, Bh) # (bias_o n, Bo) # rest)"
    using Matrix_transpose_owns[OF o12, of hidden ?Hd] d1 d2 d3 d6 d9 d10 shs len
    by auto
  obtain weight_ho_deltas h14 where s14: "Matrix_multiply gradients hidden_t h13 = (Inr weight_ho_deltas, h14)"
    and d14: "rows weight_ho_deltas = ?Q" "cols weight_ho_deltas = ?H"
    and o14: "owns h14 ((weight_ho_deltas, ?D1) # (hidden_t, ?Ht) # (gradients, ?G2) # (output_errors, ?E) # (outputs, ?Out) # (hidden, ?Hd) # (targets, ?T) # (inputs, ?X) # (weights_ih n, Wih) # (weights_ho n, Who) # (bias_h n, Bh) # (bias_o n, Bo) # rest)"
    using Matrix_multiply_owns[OF o13, of gradients ?G2 hidden_t ?Ht] d1 d2 d3 d6 d9 d10 d13 shs len
    by auto
  obtain h15 where s15: "add (weights_ho n) (Mat weight_ho_deltas) h14 = (Inr (weights_ho n), h15)"
    and o15: "owns h15 ((weight_ho_deltas, ?D1) # (hidden_t, ?Ht) # (gradients, ?G2) # (output_errors, ?E) # (outputs, ?Out) # (hidden, ?Hd) # (targets, ?T) # (inputs, ?X) # (weights_ih n, Wih) # (weights_ho n, ?Who') # (bias_h n, Bh) # (bias_o n, Bo) # rest)"
    using add_owns[of h14 "[(weight_ho_deltas, ?D1), (hidden_t, ?Ht), (gradients, ?G2), (output_errors, ?E), (outputs, ?Out), (hidden, ?Hd), (targets, ?T), (inputs, ?X), (weights_ih n, Wih)]" "weights_ho n" "Who" "(bias_h n, Bh) # (bias_o n, Bo) # rest" "weight_ho_deltas" "?D1"] o14 d1 d2 d3 d6 d9 d10 d13 d14 shs
    by auto
  obtain h16 where s16: "add (bias_o n) (Mat gradients) h15 = (Inr (bias_o n), h16)"
    and o16: "owns h16 ((weight_ho_deltas, ?D1) # (hidden_t, ?Ht) # (gradients, ?G2) # (output_errors, ?E) # (outputs, ?Out) # (hidden, ?Hd) # (targets, ?T) # (inputs, ?X) # (weights_ih n, Wih) # (weights_ho n, ?Who') # (bias_h n, Bh) # (bias_o n, ?Bo') # rest)"
    using add_owns[of h15 "[(weight_ho_deltas, ?D1), (hidden_t, ?Ht), (gradients, ?G2), (output_errors, ?E), (outputs, ?Out), (hidden, ?Hd), (targets, ?T), (inputs, ?X), (weights_ih n, Wih), (weights_ho n, ?Who'), (bias_h n, Bh)]" "bias_o n" "Bo" "rest" "gradients" "?G2"] o15 d1 d2 d3 d6 d9 d10 d13 d14 shs
    by auto
  obtain who_t h17 where s17: "Matrix_transpose (weights_ho n) h16 = (Inr who_t, h17)"
    and d17: "rows who_t = ?H" "cols who_t = ?Q"
    and o17: "owns h17 ((who_t, ?WT) # (weight_ho_deltas, ?D1) # (hidden_t, ?Ht) # (gradients, ?G2) # (output_errors, ?E) # (outputs, ?Out) # (hidden, ?Hd) # (targets, ?T) # (inputs, ?X) # (weights_ih n, Wih) # (weights_ho n, ?Who') # (bias_h n, Bh) # (bias_o n, ?Bo') # rest)"
    using Matrix_transpose_owns[OF o16, of "weights_ho n" ?Who'] d1 d2 d3 d6 d9 d10 d13 d14 shs len
    by auto
  obtain hidden_errors h18 where s18: "Matrix_multiply who_t output_errors h17 = (Inr hidden_errors, h18)"
    and d18: "rows hidden_errors = ?H" "cols hidden_errors = 1"
    and o18: "owns h18 ((hidden_errors, ?HE) # (who_t, ?WT) # (weight_ho_deltas, ?D1) # (hidden_t, ?Ht) # (gradients, ?G2) # (output_errors, ?E) # (outputs, ?Out) # (hidden, ?Hd) # (targets, ?T) # (inputs, ?X) # (weights_ih n, Wih) # (weights_ho n, ?Who') # (bias_h n, Bh) # (bias_o n, ?Bo') # rest)"
    using Matrix_multiply_owns[OF o17, of who_t ?WT output_errors ?E] d1 d2 d3 d6 d9 d10 d13 d14 d17 shs len
    by auto
  obtain hidden_gradient h19 where s19: "Matrix_map hidden dsigmoid h18 = (Inr hidden_gradient, h19)"
    and d19: "rows hidden_gradient = ?H" "cols hidden_gradient = 1"
    and o19: "owns h19 ((hidden_gradient, ?HG0) # (hidden_errors, ?HE) # (who_t, ?WT) # (weight_ho_deltas, ?D1) # (hidden_t, ?Ht) # (gradients, ?G2) # (output_errors, ?E) # (outputs, ?Out) # (hidden, ?Hd) # (targets, ?T) # (inputs, ?X) # (weights_ih n, Wih) # (weights_ho n, ?Who') # (bias_h n, Bh) # (bias_o n, ?Bo') # rest)"
    using Matrix_map_owns[OF o18, of hidden ?Hd dsigmoid] d1 d2 d3 d6 d9 d10 d13 d14 d17 d18 shs len
    by auto
  obtain h20 where s20: "multiply hidden_gradient (Mat hidden_errors) h19 = (Inr (hidden_gradient), h20)"
    and o20: "owns h20 ((hidden_gradient, ?HG1) # (hidden_errors, ?HE) # (who_t, ?WT) # (weight_ho_deltas, ?D1) # (hidden_t, ?Ht) # (gradients, ?G2) # (output_errors, ?E) # (outputs, ?Out) # (hidden, ?Hd) # (targets, ?T) # (inputs, ?X) # (weights_ih n, Wih) # (weights_ho n, ?Who') # (bias_h n, Bh) # (bias_o n, ?Bo') # rest)"
    using multiply_owns[of h19 "[]" "hidden_gradient" "?HG0" "(hidden_errors, ?HE) # (who_t, ?WT) # (weight_ho_deltas, ?D1) # (hidden_t, ?Ht) # (gradients, ?G2) # (output_errors, ?E) # (outputs, ?Out) # (hidden, ?Hd) # (targets, ?T) # (inputs, ?X) # (weights_ih n, Wih) # (weights_ho n, ?Who') # (bias_h n, Bh) # (bias_o n, ?Bo') # rest" "hidden_errors" "?HE"] o19 d1 d2 d3 d6 d9 d10 d13 d14 d17 d18 d19 shs
    by auto
  obtain h21 where s21: "multiply hidden_gradient (Scalar ?lr) h20 = (Inr (hidden_gradient), h21)"
    and o21: "owns h21 ((hidden_gradient, ?HG2) # (hidden_errors, ?HE) # (who_t, ?WT) # (weight_ho_deltas, ?D1) # (hidden_t, ?Ht) # (gradients, ?G2) # (output_errors, ?E) # (outputs, ?Out) # (hidden, ?Hd) # (targets, ?T) # (inputs, ?X) # (weights_ih n, Wih) # (weights_ho n, ?Who') # (bias_h n, Bh) # (bias_o n, ?Bo') # rest)"
    using scale_owns[of h20 "[]" "hidden_gradient" "?HG1" "(hidden_errors, ?HE) # (who_t, ?WT) # (weight_ho_deltas, ?D1) # (hidden_t, ?Ht) # (gradients, ?G2) # (output_errors, ?E) # (outputs, ?Out) # (hidden, ?Hd) # (targets, ?T) # (inputs, ?X) # (weights_ih n, Wih) # (weights_ho n, ?Who') # (bias_h n, Bh) # (bias_o n, ?Bo') # rest" "?lr"] o20 d1 d2 d3 d6 d9 d10 d13 d14 d17 d18 d19 shs
    by auto
  obtain inputs_t h22 where s22: "Matrix_transpose inputs h21 = (Inr inputs_t, h22)"
    and d22: "rows inputs_t = 1" "cols inputs_t = ?I"
    and o22: "owns h22 ((inputs_t, ?Xt) # (hidden_gradient, ?HG2) # (hidden_errors, ?HE) # (who_t, ?WT) # (weight_ho_deltas, ?D1) # (hidden_t, ?Ht) # (gradients, ?G2) # (output_errors, ?E) # (outputs, ?Out) # (hidden, ?Hd) # (targets, ?T) # (inputs, ?X) # (weights_ih n, Wih) # (weights_ho n, ?Who') # (bias_h n, Bh) # (bias_o n, ?Bo') # rest)"
    using Matrix_transpose_owns[OF o21, of inputs ?X] d1 d2 d3 d6 d9 d10 d13 d14 d17 d18 d19 shs len
    by auto
  obtain weight_ih_deltas h23 where s23: "Matrix_multiply hidden_gradient inputs_t h22 = (Inr weight_ih_deltas, h23)"
    and d23: "rows weight_ih_deltas = ?H" "cols weight_ih_deltas = ?I"
    and o23: "owns h23 ((weight_ih_deltas, ?D2) # (inputs_t, ?Xt) # (hidden_gradient, ?HG2) # (hidden_errors, ?HE) # (who_t, ?WT) # (weight_ho_deltas, ?D1) # (hidden_t, ?Ht) # (gradients, ?G2) # (output_errors, ?E) # (outputs, ?Out) # (hidden, ?Hd) # (targets, ?T) # (inputs, ?X) # (weights_ih n, Wih) # (weights_ho n, ?Who') # (bias_h n, Bh) # (bias_o n, ?Bo') # rest)"
    using Matrix_multiply_owns[OF o22, of hidden_gradient ?HG2 inputs_t ?Xt] d1 d2 d3 d6 d9 d10 d13 d14 d17 d18 d19 d22 shs len
    by auto
  obtain h24 where s24: "add (weights_ih n) (Mat weight_ih_deltas) h23 = (Inr (weights_ih n), h24)"
    and o24: "owns h24 ((weight_ih_deltas, ?D2) # (inputs_t, ?Xt) # (hidden_gradient, ?HG2) # (hidden_errors, ?HE) # (who_t, ?WT) # (weight_ho_deltas, ?D1) # (hidden_t, ?Ht) # (gradients, ?G2) # (output_errors, ?E) # (outputs, ?Out) # (hidden, ?Hd) # (targets, ?T) # (inputs, ?X) # (weights_ih n, ?Wih') # (weights_ho n, ?Who') # (bias_h n, Bh) # (bias_o n, ?Bo') # rest)"
    using add_owns[of h23 "[(weight_ih_deltas, ?D2), (inputs_t, ?Xt), (hidden_gradient, ?HG2), (hidden_errors, ?HE), (who_t, ?WT), (weight_ho_deltas, ?D1), (hidden_t, ?Ht), (gradients, ?G2), (output_errors, ?E), (outputs, ?Out), (hidden, ?Hd), (targets, ?T), (inputs, ?X)]" "weights_ih n" "Wih" "(weights_ho n, ?Who') # (bias_h n, Bh) # (bias_o n, ?Bo') # rest" "weight_ih_deltas" "?D2"] o23 d1 d2 d3 d6 d9 d10 d13 d14 d17 d18 d19 d22 d23 shs
    by auto
  obtain h25 where s25: "add (bias_h n) (Mat hidden_gradient) h24 = (Inr (bias_h n), h25)"
    and o25: "owns h25 ((weight_ih_deltas, ?D2) # (inputs_t, ?Xt) # (hidden_gradient, ?HG2) # (hidden_errors, ?HE) # (who_t, ?WT) # (weight_ho_deltas, ?D1) # (hidden_t, ?Ht) # (gradients, ?G2) # (output_errors, ?E) # (outputs, ?Out) # (hidden, ?Hd) # (targets, ?T) # (inputs, ?X) # (weights_ih n, ?Wih') # (weights_ho n, ?Who') # (bias_h n, ?Bh') # (bias_o n, ?Bo') # rest)"
    using add_owns[of h24 "[(weight_ih_deltas, ?D2), (inputs_t, ?Xt), (hidden_gradient, ?HG2), (hidden_errors, ?HE), (who_t, ?WT), (weight_ho_deltas, ?D1), (hidden_t, ?Ht), (gradients, ?G2), (output_errors, ?E), (outputs, ?Out), (hidden, ?Hd), (targets, ?T), (inputs, ?X), (weights_ih n, ?Wih'), (weights_ho n, ?Who')]" "bias_h n" "Bh" "(bias_o n, ?Bo') # rest" "hidden_gradient" "?HG2"] o24 d1 d2 d3 d6 d9 d10 d13 d14 d17 d18 d19 d22 d23 shs
    by auto
  have run: "train n x t h = (Inr (), h25)"
    by (simp add: train_def bindJ_def returnJ_def s1 s2 s3 s4 s5 s6 s7 s8 s9 s10 s11 s12 s13 s14 s15 s16 s17 s18 s19 s20 s21 s22 s23 s24 s25)
  have "owns h25 ([(weight_ih_deltas, ?D2), (inputs_t, ?Xt), (hidden_gradient, ?HG2), (hidden_errors, ?HE), (who_t, ?WT), (weight_ho_deltas, ?D1), (hidden_t, ?Ht), (gradients, ?G2), (output_errors, ?E), (outputs, ?Out), (hidden, ?Hd), (targets, ?T), (inputs, ?X)] @ ((weights_ih n, ?Wih') # (weights_ho n, ?Who') # (bias_h n, ?Bh') # (bias_o n, ?Bo') # rest))"
    using o25 by simp
  then have "owns h25 ((weights_ih n, ?Wih') # (weights_ho n, ?Who') # (bias_h n, ?Bh') # (bias_o n, ?Bo') # rest)"
    by (rule owns_tail)
  then show ?thesis using run
    by (intro exI[of _ h25] exI[of _ "?Wih'"] exI[of _ "?Who'"] exI[of _ "?Bh'"] exI[of _ "?Bo'"])
       (simp add: train_spec_def net_grids_def Let_def layer_def gradient_def weight_delta_def
          hidden_error_def)
qed

subsection \<open>randomize and the constructor\<close>

lemma partial_step:
  assumes "i < R" "j < C"
  shows "(partial_grid R C V Old i j)[i := (partial_grid R C V Old i j ! i)[j := V i j]]
         = partial_grid R C V Old i (Suc j)"
proof -
  have "(partial_grid R C V Old i j)[i := (partial_grid R C V Old i j ! i)[j := V i j]]
      = tab R C (\<lambda>a b. if a = i \<and> b = j then V i j
               else if a < i \<or> (a = i \<and> b < j) then V a b else Old ! a ! b)"
    unfolding partial_grid_def using assms by (rule tab_update)
  also have "\<dots> = partial_grid R C V Old i (Suc j)"
    unfolding partial_grid_def by (rule tab_cong) (auto simp: less_Suc_eq)
  finally show ?thesis .
qed

lemma partial_link: "partial_grid R C V Old i C = partial_grid R C V Old (Suc i) 0"
  unfolding partial_grid_def by (rule tab_cong) (auto simp: less_Suc_eq)

lemma partial_0: "rect R C Old \<Longrightarrow> partial_grid R C V Old 0 0 = Old"
proof -
  assume r: "rect R C Old"
  have "partial_grid R C V Old 0 0 = tab R C (\<lambda>a b. Old ! a ! b)"
    unfolding partial_grid_def by (rule tab_cong) simp
  then show ?thesis using r by (simp add: rect_eq_tab)
qed

lemma partial_end: "partial_grid R C V Old R 0 = tab R C V"
  unfolding partial_grid_def by (rule tab_cong) simp

lemma rect_partial [simp]: "rect R C (partial_grid R C V Old i j)"
  by (simp add: partial_grid_def)

lemma rng_pos_irrelevant [simp]:
  "refs_at (h\<lparr>rng_pos := p\<rparr>) = refs_at h"
  "row_at (h\<lparr>rng_pos := p\<rparr>) = row_at h"
  "row_ref (h\<lparr>rng_pos := p\<rparr>) = row_ref h"
  by (auto simp: refs_at_def row_at_def row_ref_def fun_eq_iff)

lemma rng_pos_irrelevant' [simp]:
  "grid_at (h\<lparr>rng_pos := p\<rparr>) d = grid_at h d"
  "wfM (h\<lparr>rng_pos := p\<rparr>) m = wfM h m"
  "sep_rows (h\<lparr>rng_pos := p\<rparr>) a b = sep_rows h a b"
  by (simp_all add: grid_at_def wfM_def sep_rows_def)

lemma live_rng_pos [simp]: "live (h\<lparr>rng_pos := p\<rparr>) m G = live h m G"
  by (simp add: live_def)

lemma owns_rng_pos [simp]: "owns (h\<lparr>rng_pos := p\<rparr>) bs = owns h bs"
  by (induction bs) (simp_all add: owns.simps)

lemma set_cell_rng_pos:
  "set_cell d i j v (h\<lparr>rng_pos := p\<rparr>) =
     (case set_cell d i j v h of (r, h') \<Rightarrow> (r, h'\<lparr>rng_pos := p\<rparr>))"
  by (simp add: set_cell_def split: option.splits)

lemma randomize_wf:
  assumes wf: "wfM h t"
  shows "randomize t h = (Inr t,
           (put_grid h (data t) (tab (rows t) (cols t) (rand_cell h (cols t))))
             \<lparr>rng_pos := rng_pos h + rows t * cols t\<rparr>)"
proof -
  let ?R = "rows t" and ?C = "cols t"
  let ?V = "rand_cell h ?C"
  define S where "S i j = (put_grid h (data t) (partial_grid ?R ?C ?V (grid_at h (data t)) i j))
      \<lparr>rng_pos := rng_pos h + i * ?C + j\<rparr>" for i j
  have loop: "forJ [0..<?R] (\<lambda>i. forJ [0..<?C] (\<lambda>j.
         bindJ Math_random (\<lambda>x. set_cell (data t) i j (js_sub (js_mul x (Num 2)) (Num 1)))))
       (S 0 0) = (Inr (), S ?R 0)"
  proof (rule forJ2_states)
    fix i j assume ij: "i < ?R" "j < ?C"
    have "set_cell (data t) i j (?V i j)
            (put_grid h (data t) (partial_grid ?R ?C ?V (grid_at h (data t)) i j))
          = (Inr (), put_grid h (data t) (partial_grid ?R ?C ?V (grid_at h (data t)) i (Suc j)))"
      using set_cell_put[OF wf rect_partial ij] ij by (simp add: partial_step)
    then show "bindJ Math_random (\<lambda>x. set_cell (data t) i j (js_sub (js_mul x (Num 2)) (Num 1))) (S i j)
          = (Inr (), S i (Suc j))"
      by (simp add: S_def bindJ_def Math_random_def set_cell_rng_pos rand_cell_def)
  next
    fix i assume "i < ?R"
    show "S i ?C = S (Suc i) 0" by (simp add: S_def partial_link)
  qed
  have "S 0 0 = h" using wf by (simp add: S_def partial_0 wfM_rect put_grid_same)
  moreover have "S ?R 0 = (put_grid h (data t) (tab ?R ?C ?V))\<lparr>rng_pos := rng_pos h + ?R * ?C\<rparr>"
    by (simp add: S_def partial_end)
  ultimately have "forJ [0..<?R] (\<lambda>i. forJ [0..<?C] (\<lambda>j.
         bindJ Math_random (\<lambda>x. set_cell (data t) i j (js_sub (js_mul x (Num 2)) (Num 1))))) h
       = (Inr (), (put_grid h (data t) (tab ?R ?C ?V))\<lparr>rng_pos := rng_pos h + ?R * ?C\<rparr>)"
    using loop by simp
  then show ?thesis by (simp add: randomize_def bindJ_def returnJ_def)
qed

lemma new_random_owns:
  assumes "owns h bs"
  shows "\<exists>res h' G. bindJ (new_Matrix R C) randomize h = (Inr res, h') \<and>
           rows res = R \<and> cols res = C \<and> owns h' ((res, G) # bs)"
proof -
  let ?h1 = "alloc_grid h (zeros R C)"
  let ?G = "tab R C (rand_cell ?h1 C)"
  have "randomize (newM h R C) ?h1 = (Inr (newM h R C),
          (put_grid ?h1 (data (newM h R C)) ?G)\<lparr>rng_pos := rng_pos ?h1 + R * C\<rparr>)"
    using randomize_wf[of ?h1 "newM h R C"] by (simp add: wfM_newM)
  then have "bindJ (new_Matrix R C) randomize h =
         (Inr (newM h R C), (alloc_grid h ?G)\<lparr>rng_pos := rng_pos h + R * C\<rparr>)"
    by (simp add: bindJ_new_Matrix put_alloc)
  moreover have "owns ((alloc_grid h ?G)\<lparr>rng_pos := rng_pos h + R * C\<rparr>) ((newM h R C, ?G) # bs)"
    using owns_alloc[OF assms, of R C ?G] by simp
  ultimately show ?thesis
    by (intro exI[of _ "newM h R C"] exI[of _ "(alloc_grid h ?G)\<lparr>rng_pos := rng_pos h + R * C\<rparr>"]
          exI[of _ ?G]) simp
qed

lemma new_NeuralNetwork_owns:
  assumes "owns h rest"
  shows "\<exists>n h' Wih Who Bh Bo. new_NeuralNetwork ni nh no h = (Inr n, h') \<and>
           inputNodes n = ni \<and> hiddenNodes n = nh \<and> outputNodes n = no \<and>
           learningRate n = Num (1 / 10) \<and> shape_ok n \<and>
           owns h' (net_grids n Wih Who Bh Bo @ rest)"
proof -
  obtain wih h1 G1 where s1: "bindJ (new_Matrix nh ni) randomize h = (Inr wih, h1)"
    and d1: "rows wih = nh" "cols wih = ni" and o1: "owns h1 ((wih, G1) # rest)"
    using new_random_owns[OF assms, of nh ni] by blast
  obtain who h2 G2 where s2: "bindJ (new_Matrix no nh) randomize h1 = (Inr who, h2)"
    and d2: "rows who = no" "cols who = nh" and o2: "owns h2 ((who, G2) # (wih, G1) # rest)"
    using new_random_owns[OF o1, of no nh] by blast
  obtain bh h3 G3 where s3: "bindJ (new_Matrix nh 1) randomize h2 = (Inr bh, h3)"
    and d3: "rows bh = nh" "cols bh = 1" and o3: "owns h3 ((bh, G3) # (who, G2) # (wih, G1) # rest)"
    using new_random_owns[OF o2, of nh 1] by blast
  obtain bo h4 G4 where s4: "bindJ (new_Matrix no 1) randomize h3 = (Inr bo, h4)"
    and d4: "rows bo = no" "cols bo = 1"
    and o4: "owns h4 ((bo, G4) # (bh, G3) # (who, G2) # (wih, G1) # rest)"
    using new_random_owns[OF o3, of no 1] by blast
  let ?n = "\<lparr>inputNodes = ni, hiddenNodes = nh, outputNodes = no,
              weights_ih = wih, weights_ho = who, bias_h = bh, bias_o = bo,
              learningRate = Num (1 / 10)\<rparr>"
  have run: "new_NeuralNetwork ni nh no h = (Inr ?n, h4)"
    unfolding new_NeuralNetwork_def
    by (simp only: bindJ_Inr[where m = "bindJ _ _", OF s1] bindJ_Inr[where m = "bindJ _ _", OF s2]
        bindJ_Inr[where m = "bindJ _ _", OF s3] bindJ_Inr[where m = "bindJ _ _", OF s4] returnJ_def)
  have "owns h4 ([(wih, G1), (who, G2), (bh, G3), (bo, G4)] @ rest)"
    using o4 by (auto simp: owns.simps sep_rows_sym)
  then show ?thesis using run d1 d2 d3 d4
    by (intro exI[of _ ?n] exI[of _ h4] exI[of _ G1] exI[of _ G2] exI[of _ G3] exI[of _ G4])
       (simp add: shape_ok_def net_grids_def)
qed

subsection \<open>Shape errors\<close>

lemma no_Error_returnJ [simp]: "no_Error (returnJ x)"
  by (simp add: no_Error_def returnJ_def)

lemma no_Error_get_cell [simp]: "no_Error (get_cell d i j)"
  by (auto simp: no_Error_def get_cell_def split: option.splits)

lemma no_Error_set_cell [simp]: "no_Error (set_cell d i j v)"
  by (auto simp: no_Error_def set_cell_def split: option.splits)

lemma no_Error_new_Matrix [simp]: "no_Error (new_Matrix R C)"
  by (simp add: no_Error_def new_Matrix_def)

lemma no_Error_bindJ: "no_Error m \<Longrightarrow> (\<And>x. no_Error (f x)) \<Longrightarrow> no_Error (bindJ m f)"
  unfolding no_Error_def bindJ_def
  by (auto split: prod.splits sum.splits)

lemma no_Error_forJ: "(\<And>i. no_Error (body i)) \<Longrightarrow> no_Error (forJ xs body)"
  by (induction xs) (simp_all add: no_Error_bindJ)

lemma no_Error_foldJ: "(\<And>i acc. no_Error (body i acc)) \<Longrightarrow> no_Error (foldJ xs body acc)"
  by (induction xs arbitrary: acc) (simp_all add: no_Error_bindJ)

lemmas no_Error_intros = no_Error_bindJ no_Error_forJ no_Error_foldJ no_Error_returnJ
  no_Error_get_cell no_Error_set_cell no_Error_new_Matrix

lemma no_ErrorD: "no_Error m \<Longrightarrow> m h = (Inl (Error s), h') \<Longrightarrow> False"
  by (auto simp: no_Error_def)

lemma add_Error:
  assumes "add this n h = (Inl (Error s), h')"
  shows "h' = h"
proof (cases n)
  case (Mat m)
  show ?thesis
  proof (cases "rows this \<noteq> rows m \<or> cols this \<noteq> cols m")
    case True
    then show ?thesis using assms Mat by (simp add: add_def throwJ_def)
  next
    case False
    have "no_Error (bindJ (forJ [0..<rows this] (\<lambda>i.
             forJ [0..<cols this] (\<lambda>j.
               bindJ (get_cell (data this) i j) (\<lambda>x.
               bindJ (get_cell (data m) i j) (\<lambda>y.
               set_cell (data this) i j (js_add x y)))))) (\<lambda>_. returnJ this))"
      by (intro no_Error_intros)
    then show ?thesis using assms Mat False by (auto simp: add_def dest: no_ErrorD)
  qed
next
  case (Scalar v)
  have "no_Error (bindJ (forJ [0..<rows this] (\<lambda>i.
           forJ [0..<cols this] (\<lambda>j.
             bindJ (get_cell (data this) i j) (\<lambda>x.
             set_cell (data this) i j (js_add x v))))) (\<lambda>_. returnJ this))"
    by (intro no_Error_intros)
  then show ?thesis using assms Scalar by (auto simp: add_def dest: no_ErrorD)
qed

lemma multiply_Error:
  assumes "multiply this n h = (Inl (Error s), h')"
  shows "h' = h"
proof (cases n)
  case (Mat m)
  show ?thesis
  proof (cases "rows this \<noteq> rows m \<or> cols this \<noteq> cols m")
    case True
    then show ?thesis using assms Mat by (simp add: multiply_def throwJ_def)
  next
    case False
    have "no_Error (bindJ (forJ [0..<rows this] (\<lambda>i.
             forJ [0..<cols this] (\<lambda>j.
               bindJ (get_cell (data this) i j) (\<lambda>x.
               bindJ (get_cell (data m) i j) (\<lambda>y.
               set_cell (data this) i j (js_mul x y)))))) (\<lambda>_. returnJ this))"
      by (intro no_Error_intros)
    then show ?thesis using assms Mat False by (auto simp: multiply_def dest: no_ErrorD)
  qed
next
  case (Scalar v)
  have "no_Error (bindJ (forJ [0..<rows this] (\<lambda>i.
           forJ [0..<cols this] (\<lambda>j.
             bindJ (get_cell (data this) i j) (\<lambda>x.
             set_cell (data this) i j (js_mul x v))))) (\<lambda>_. returnJ this))"
    by (intro no_Error_intros)
  then show ?thesis using assms Scalar by (auto simp: multiply_def dest: no_ErrorD)
qed

lemma Matrix_subtract_Error:
  assumes "Matrix_subtract a b h = (Inl (Error s), h')"
  shows "h' = h"
proof (cases "rows a \<noteq> rows b \<or> cols a \<noteq> cols b")
  case True
  then show ?thesis using assms by (simp add: Matrix_subtract_def throwJ_def)
next
  case False
  have "no_Error (bindJ (new_Matrix (rows a) (cols a)) (\<lambda>result.
        bindJ (forJ [0..<rows result] (\<lambda>i.
          forJ [0..<cols result] (\<lambda>j.
            bindJ (get_cell (data a) i j) (\<lambda>x.
            bindJ (get_cell (data b) i j) (\<lambda>y.
            set_cell (data result) i j (js_sub x y)))))) (\<lambda>_.
        returnJ result)))"
    by (intro no_Error_intros)
  then show ?thesis using assms False by (auto simp: Matrix_subtract_def dest: no_ErrorD)
qed

lemma Matrix_multiply_Error:
  assumes "Matrix_multiply a b h = (Inl (Error s), h')"
  shows "h' = h"
proof (cases "cols a \<noteq> rows b")
  case True
  then show ?thesis using assms by (simp add: Matrix_multiply_def throwJ_def)
next
  case False
  have "no_Error (bindJ (new_Matrix (rows a) (cols b)) (\<lambda>result.
        bindJ (forJ [0..<rows result] (\<lambda>i.
          forJ [0..<cols result] (\<lambda>j.
            bindJ (foldJ [0..<cols a] (\<lambda>k sum.
              bindJ (get_cell (data a) i k) (\<lambda>x.
              bindJ (get_cell (data b) k j) (\<lambda>y.
              returnJ (js_add sum (js_mul x y))))) (Num 0)) (\<lambda>sum.
            set_cell (data result) i j sum)))) (\<lambda>_.
        returnJ result)))"
    by (intro no_Error_intros)
  then show ?thesis using assms False by (auto simp: Matrix_multiply_def dest: no_ErrorD)
qed

lemma Matrix_multiply_mismatch:
  "cols a \<noteq> rows b \<Longrightarrow> Matrix_multiply a b h =
     (Inl (Error ''Columns of A must match rows of B for dot product.''), h)"
  by (simp add: Matrix_multiply_def throwJ_def)

lemma Matrix_subtract_mismatch:
  "rows a \<noteq> rows b \<or> cols a \<noteq> cols b \<Longrightarrow> Matrix_subtract a b h =
     (Inl (Error ''Matrix dimensions must match for subtraction.''), h)"
  by (simp add: Matrix_subtract_def throwJ_def)

lemma predict_mismatch:
  assumes "cols (weights_ih n) = inputNodes n" "length x \<noteq> inputNodes n"
  shows "predict n x h = (Inl (Error ''Columns of A must match rows of B for dot product.''),
           alloc_grid h (col_vec x))"
  using assms
  by (simp add: predict_def bindJ_def Matrix_fromArray_eq Matrix_multiply_mismatch col_vec_def)

lemma train_mismatch_input:
  assumes "cols (weights_ih n) = inputNodes n" "length x \<noteq> inputNodes n"
  shows "train n x t h = (Inl (Error ''Columns of A must match rows of B for dot product.''),
           alloc_grid (alloc_grid h (col_vec x)) (col_vec t))"
  using assms
  by (simp add: train_def bindJ_def Matrix_fromArray_eq Matrix_multiply_mismatch col_vec_def)

lemma owns_alloc_keep: "owns h bs \<Longrightarrow> rect (length G) C G \<Longrightarrow> owns (alloc_grid h G) bs"
  using owns_alloc[of h bs "length G" C G] by (simp add: owns.simps)

lemma rect_any: "rect (length (col_vec x)) 1 (col_vec x)"
  by (simp add: col_vec_def)

subsection \<open>Failing calls, deserialize, the identity matrix\<close>

lemma train_target_mismatch:
  assumes sh: "shape_ok n"
    and own: "owns h (net_grids n Wih Who Bh Bo @ rest)"
    and lenx: "length x = inputNodes n"
    and lent: "length t \<noteq> outputNodes n"
  shows "\<exists>h'. train n x t h =
           (Inl (Error ''Matrix dimensions must match for subtraction.''), h') \<and>
           owns h' (net_grids n Wih Who Bh Bo @ rest)"
proof -
  let ?I = "inputNodes n"
  let ?H = "hiddenNodes n"
  let ?Q = "outputNodes n"
  let ?lr = "learningRate n"
  let ?X = "col_vec x"
  let ?T = "col_vec t"
  let ?H1 = "m_mul ?H ?I 1 Wih ?X"
  let ?H2 = "m_add ?H 1 ?H1 Bh"
  let ?Hd = "m_map ?H 1 sigmoid ?H2"
  let ?O1 = "m_mul ?Q ?H 1 Who ?Hd"
  let ?O2 = "m_add ?Q 1 ?O1 Bo"
  let ?Out = "m_map ?Q 1 sigmoid ?O2"
  note shs = sh[unfolded shape_ok_def]
  note len = lenx
  note o0 = own[unfolded net_grids_def append.simps]
  obtain inputs h1 where s1: "Matrix_fromArray x h = (Inr inputs, h1)"
    and d1: "rows inputs = ?I" "cols inputs = 1"
    and o1: "owns h1 ((inputs, ?X) # (weights_ih n, Wih) # (weights_ho n, Who) # (bias_h n, Bh) # (bias_o n, Bo) # rest)"
    using fromArray_owns[OF o0, of x]  shs len
    by auto
  obtain targets h2 where s2: "Matrix_fromArray t h1 = (Inr targets, h2)"
    and d2: "rows targets = length t" "cols targets = 1"
    and o2: "owns h2 ((targets, ?T) # (inputs, ?X) # (weights_ih n, Wih) # (weights_ho n, Who) # (bias_h n, Bh) # (bias_o n, Bo) # rest)"
    using fromArray_owns[OF o1, of t] d1 shs len
    by auto
  obtain hidden h3 where s3: "Matrix_multiply (weights_ih n) inputs h2 = (Inr hidden, h3)"
    and d3: "rows hidden = ?H" "cols hidden = 1"
    and o3: "owns h3 ((hidden, ?H1) # (targets, ?T) # (inputs, ?X) # (weights_ih n, Wih) # (weights_ho n, Who) # (bias_h n, Bh) # (bias_o n, Bo) # rest)"
    using Matrix_multiply_owns[OF o2, of "weights_ih n" Wih inputs ?X] d1 d2 shs len
    by auto
  obtain h4 where s4: "add hidden (Mat (bias_h n)) h3 = (Inr (hidden), h4)"
    and o4: "owns h4 ((hidden, ?H2) # (targets, ?T) # (inputs, ?X) # (weights_ih n, Wih) # (weights_ho n, Who) # (bias_h n, Bh) # (bias_o n, Bo) # rest)"
    using add_owns[of h3 "[]" "hidden" "?H1" "(targets, ?T) # (inputs, ?X) # (weights_ih n, Wih) # (weights_ho n, Who) # (bias_h n, Bh) # (bias_o n, Bo) # rest" "bias_h n" "Bh"] o3 d1 d2 d3 shs
    by auto
  obtain h5 where s5: "map_this hidden sigmoid h4 = (Inr (hidden), h5)"
    and o5: "owns h5 ((hidden, ?Hd) # (targets, ?T) # (inputs, ?X) # (weights_ih n, Wih) # (weights_ho n, Who) # (bias_h n, Bh) # (bias_o n, Bo) # rest)"
    using map_this_owns[of h4 "[]" "hidden" "?H2" "(targets, ?T) # (inputs, ?X) # (weights_ih n, Wih) # (weights_ho n, Who) # (bias_h n, Bh) # (bias_o n, Bo) # rest" "sigmoid"] o4 d1 d2 d3 shs
    by auto
  obtain outputs h6 where s6: "Matrix_multiply (weights_ho n) hidden h5 = (Inr outputs, h6)"
    and d6: "rows outputs = ?Q" "cols outputs = 1"
    and o6: "owns h6 ((outputs, ?O1) # (hidden, ?Hd) # (targets, ?T) # (inputs, ?X) # (weights_ih n, Wih) # (weights_ho n, Who) # (bias_h n, Bh) # (bias_o n, Bo) # rest)"
    using Matrix_multiply_owns[OF o5, of "weights_ho n" Who hidden ?Hd] d1 d2 d3 shs len
    by auto
  obtain h7 where s7: "add outputs (Mat (bias_o n)) h6 = (Inr (outputs), h7)"
    and o7: "owns h7 ((outputs, ?O2) # (hidden, ?Hd) # (targets, ?T) # (inputs, ?X) # (weights_ih n, Wih) # (weights_ho n, Who) # (bias_h n, Bh) # (bias_o n, Bo) # rest)"
    using add_owns[of h6 "[]" "outputs" "?O1" "(hidden, ?Hd) # (targets, ?T) # (inputs, ?X) # (weights_ih n, Wih) # (weights_ho n, Who) # (bias_h n, Bh) # (bias_o n, Bo) # rest" "bias_o n" "Bo"] o6 d1 d2 d3 d6 shs
    by auto
  obtain h8 where s8: "map_this outputs sigmoid h7 = (Inr (outputs), h8)"
    and o8: "owns h8 ((outputs, ?Out) # (hidden, ?Hd) # (targets, ?T) # (inputs, ?X) # (weights_ih n, Wih) # (weights_ho n, Who) # (bias_h n, Bh) # (bias_o n, Bo) # rest)"
    using map_this_owns[of h7 "[]" "outputs" "?O2" "(hidden, ?Hd) # (targets, ?T) # (inputs, ?X) # (weights_ih n, Wih) # (weights_ho n, Who) # (bias_h n, Bh) # (bias_o n, Bo) # rest" "sigmoid"] o7 d1 d2 d3 d6 shs
    by auto
  have s9: "Matrix_subtract targets outputs h8 =
      (Inl (Error ''Matrix dimensions must match for subtraction.''), h8)"
    using d2 d6 lent by (intro Matrix_subtract_mismatch) simp
  have run: "train n x t h =
      (Inl (Error ''Matrix dimensions must match for subtraction.''), h8)"
    by (simp add: train_def bindJ_def returnJ_def s1 s2 s3 s4 s5 s6 s7 s8 s9)
  have "owns h8 ([(outputs, ?Out), (hidden, ?Hd), (targets, ?T), (inputs, ?X)] @ ((weights_ih n, Wih) # (weights_ho n, Who) # (bias_h n, Bh) # (bias_o n, Bo) # rest))"
    using o8 by simp
  then have "owns h8 ((weights_ih n, Wih) # (weights_ho n, Who) # (bias_h n, Bh) # (bias_o n, Bo) # rest)"
    by (rule owns_tail)
  then show ?thesis using run
    by (simp add: net_grids_def)
qed

lemma owns_col_vec: "owns h bs \<Longrightarrow> owns (alloc_grid h (col_vec x)) bs"
  by (rule owns_alloc_keep[where C = 1]) (simp_all add: col_vec_def)

lemma predict_frame:
  assumes sh: "shape_ok n" and own: "owns h (net_grids n Wih Who Bh Bo @ rest)"
    and run: "predict n x h = (r, h')"
  shows "owns h' (net_grids n Wih Who Bh Bo @ rest) \<and> (\<exists>h''. predict n x h' = (r, h''))"
proof (cases "length x = inputNodes n")
  case True
  obtain h1 where p1: "predict n x h = (Inr (predict_spec (inputNodes n) (hiddenNodes n)
        (outputNodes n) Wih Bh Who Bo x), h1)" and o1: "owns h1 (net_grids n Wih Who Bh Bo @ rest)"
    using predict_owns[OF sh own True] by blast
  obtain h2 where p2: "predict n x h1 = (Inr (predict_spec (inputNodes n) (hiddenNodes n)
        (outputNodes n) Wih Bh Who Bo x), h2)"
    using predict_owns[OF sh o1 True] by blast
  show ?thesis using p1 o1 p2 run by auto
next
  case False
  have c: "cols (weights_ih n) = inputNodes n" using sh by (simp add: shape_ok_def)
  show ?thesis using run own predict_mismatch[OF c False]
    by (auto simp: owns_col_vec)
qed

lemma train_error_frame:
  assumes sh: "shape_ok n" and own: "owns h (net_grids n Wih Who Bh Bo @ rest)"
    and run: "train n x t h = (Inl e, h')"
  shows "owns h' (net_grids n Wih Who Bh Bo @ rest) \<and>
         (length x \<noteq> inputNodes n \<or> length t \<noteq> outputNodes n) \<and>
         e = (if length x \<noteq> inputNodes n
              then Error ''Columns of A must match rows of B for dot product.''
              else Error ''Matrix dimensions must match for subtraction.'')"
proof (cases "length x = inputNodes n")
  case False
  have c: "cols (weights_ih n) = inputNodes n" using sh by (simp add: shape_ok_def)
  show ?thesis using run own train_mismatch_input[OF c False] False
    by (auto simp: owns_col_vec)
next
  case True
  show ?thesis
  proof (cases "length t = outputNodes n")
    case False
    then show ?thesis using train_target_mismatch[OF sh own True False] run True by auto
  next
    case t: True
    then show ?thesis using train_owns[OF sh own True t] run by auto
  qed
qed

lemma train_success_lengths:
  assumes sh: "shape_ok n" and own: "owns h (net_grids n Wih Who Bh Bo @ rest)"
    and run: "train n x t h = (Inr (), h')"
  shows "length x = inputNodes n \<and> length t = outputNodes n"
proof -
  have c: "cols (weights_ih n) = inputNodes n" using sh by (simp add: shape_ok_def)
  have x: "length x = inputNodes n"
    using train_mismatch_input[OF c, of x t h] run by auto
  have "length t = outputNodes n"
    using train_target_mismatch[OF sh own x, of t] run by auto
  then show ?thesis using x by simp
qed

lemma owns_net_grids:
  assumes "owns h (net_grids n A B C D @ rest)"
  shows "grid_at h (data (weights_ih n)) = A" "grid_at h (data (weights_ho n)) = B"
    "grid_at h (data (bias_h n)) = C" "grid_at h (data (bias_o n)) = D"
  using assms by (auto simp: net_grids_def intro: owns_grid)

lemma owns_net_shape_inv:
  assumes "shape_ok n" "owns h (net_grids n A B C D @ rest)"
  shows "shape_inv h n"
proof -
  have o: "owns h (net_grids n A B C D)" using assms(2) by (simp add: owns_append)
  have "grid_at h (data (weights_ih n)) = A" "grid_at h (data (weights_ho n)) = B"
    "grid_at h (data (bias_h n)) = C" "grid_at h (data (bias_o n)) = D"
    using o by (auto simp: net_grids_def intro: owns_grid)
  then show ?thesis using assms(1) o by (simp add: shape_inv_def)
qed

lemma shape_inv_rect:
  assumes "shape_inv h n"
  shows "rect (hiddenNodes n) (inputNodes n) (grid_at h (data (weights_ih n)))"
    "rect (outputNodes n) (hiddenNodes n) (grid_at h (data (weights_ho n)))"
    "rect (hiddenNodes n) 1 (grid_at h (data (bias_h n)))"
    "rect (outputNodes n) 1 (grid_at h (data (bias_o n)))"
proof -
  let ?bs = "net_grids n (grid_at h (data (weights_ih n))) (grid_at h (data (weights_ho n)))
                         (grid_at h (data (bias_h n))) (grid_at h (data (bias_o n)))"
  have o: "owns h ?bs" and sh: "shape_ok n" using assms by (simp_all add: shape_inv_def)
  have "wfM h (weights_ih n)" "wfM h (weights_ho n)" "wfM h (bias_h n)" "wfM h (bias_o n)"
    using o by (auto simp: net_grids_def intro: owns_wf)
  then show "rect (hiddenNodes n) (inputNodes n) (grid_at h (data (weights_ih n)))"
    "rect (outputNodes n) (hiddenNodes n) (grid_at h (data (weights_ho n)))"
    "rect (hiddenNodes n) 1 (grid_at h (data (bias_h n)))"
    "rect (outputNodes n) 1 (grid_at h (data (bias_o n)))"
    using sh wfM_rect[of h "weights_ih n"] wfM_rect[of h "weights_ho n"]
      wfM_rect[of h "bias_h n"] wfM_rect[of h "bias_o n"]
    by (simp_all add: shape_ok_def)
qed

lemma deserialize_eq:
  "deserialize this d h =
     (Inr \<lparr>inputNodes = s_inputNodes d, hiddenNodes = s_hiddenNodes d,
           outputNodes = s_outputNodes d,
           weights_ih = \<lparr>rows = s_hiddenNodes d, cols = s_inputNodes d, data = s_weights_ih d\<rparr>,
           weights_ho = \<lparr>rows = s_outputNodes d, cols = s_hiddenNodes d, data = s_weights_ho d\<rparr>,
           bias_h = \<lparr>rows = s_hiddenNodes d, cols = 1, data = s_bias_h d\<rparr>,
           bias_o = \<lparr>rows = s_outputNodes d, cols = 1, data = s_bias_o d\<rparr>,
           learningRate = s_learningRate d\<rparr>,
      alloc_grid (alloc_grid (alloc_grid (alloc_grid h
        (zeros (s_hiddenNodes d) (s_inputNodes d)))
        (zeros (s_outputNodes d) (s_hiddenNodes d)))
        (zeros (s_hiddenNodes d) 1))
        (zeros (s_outputNodes d) 1))"
  by (cases this) (simp add: deserialize_def bindJ_new_Matrix returnJ_def newM_def)

lemma owns_zeros: "owns h bs \<Longrightarrow> owns (alloc_grid h (zeros R C)) bs"
  using owns_alloc_keep[of h bs "zeros R C" C] by simp

lemma grid_at_alloc_any: "d < length (outers h) \<Longrightarrow> \<forall>r \<in> set (outers h ! d). r < length (inners h) \<Longrightarrow>
   grid_at (alloc_grid h G) d = grid_at h d"
  by (auto simp: grid_at_def refs_at_def row_at_def nth_append)

lemma deserialize_keeps:
  assumes "deserialize this d h = (r, h1)"
  shows "take (length (inners h)) (inners h1) = inners h"
    "take (length (outers h)) (outers h1) = outers h" "rng h1 = rng h" "rng_pos h1 = rng_pos h"
  using assms by (auto simp: deserialize_eq)

lemma deserialize_owns:
  assumes "deserialize this d h = (r, h1)" "owns h bs"
  shows "owns h1 bs"
  using assms by (auto simp: deserialize_eq owns_zeros)

lemma all_num_nth: "all_num G \<Longrightarrow> i < length G \<Longrightarrow> j < length (G ! i) \<Longrightarrow> is_num (G ! i ! j)"
  by (simp add: all_num_def list_all_length)

lemma dotp_identity_upto:
  assumes "\<forall>k < C. is_num (G ! i ! k)" "j < C" "n \<le> C"
  shows "fold (\<lambda>k s. js_add s (js_mul (G ! i ! k) (identity_grid C ! k ! j))) [0..<n] (Num 0)
         = (if j < n then G ! i ! j else Num 0)"
  using assms(3)
proof (induction n)
  case 0
  then show ?case by simp
next
  case (Suc n)
  then have n: "n < C" by simp
  obtain a where a: "G ! i ! n = Num a" using assms(1) n by (cases "G ! i ! n") auto
  obtain b where b: "G ! i ! j = Num b" using assms(1,2) by (cases "G ! i ! j") auto
  show ?case using Suc n a b assms(2)
    by (auto simp: identity_grid_def less_Suc_eq)
qed

lemma dotp_identity:
  assumes "rect R C G" "all_num G" "i < R" "j < C"
  shows "dotp G (identity_grid C) C i j = G ! i ! j"
proof -
  have "\<forall>k < C. is_num (G ! i ! k)"
    using assms by (auto simp: rect_def intro!: all_num_nth)
  then show ?thesis unfolding dotp_def using dotp_identity_upto[of C G i j C] assms(4) by simp
qed

lemma m_mul_identity:
  assumes "rect R C G" "all_num G"
  shows "m_mul R C C G (identity_grid C) = G"
proof -
  have "m_mul R C C G (identity_grid C) = tab R C (\<lambda>i j. G ! i ! j)"
    unfolding m_mul_def by (rule tab_cong) (simp add: dotp_identity[OF assms])
  then show ?thesis using assms(1) by (simp add: rect_eq_tab)
qed

lemma m_transpose_twice:
  assumes "rect R C G"
  shows "m_transpose C R (m_transpose R C G) = G"
proof -
  have "m_transpose C R (m_transpose R C G) = tab R C (\<lambda>i j. G ! i ! j)"
    unfolding m_transpose_def by (rule tab_cong) simp
  then show ?thesis using assms by (simp add: rect_eq_tab)
qed

lemma transpose_twice_wf:
  assumes "wfM h m"
  shows "\<exists>t h'. transpose_twice m h = (Inr t, h') \<and> rows t = rows m \<and> cols t = cols m \<and>
           wfM h' t \<and> grid_at h' (data t) = grid_at h (data m) \<and>
           (\<forall>a. wfM h a \<longrightarrow> wfM h' a \<and> grid_at h' (data a) = grid_at h (data a))"
proof -
  let ?G = "grid_at h (data m)"
  let ?T1 = "m_transpose (rows m) (cols m) ?G"
  let ?h1 = "alloc_grid h ?T1"
  let ?t1 = "newM h (cols m) (rows m)"
  have s1: "Matrix_transpose m h = (Inr ?t1, ?h1)"
    using Matrix_transpose_wf[OF assms] by (simp add: m_transpose_def)
  have wf1: "wfM ?h1 ?t1" by (rule wfM_newM) simp
  have g1: "grid_at ?h1 (data ?t1) = ?T1" by (simp add: grid_at_alloc_new)
  let ?T2 = "m_transpose (cols m) (rows m) ?T1"
  let ?h2 = "alloc_grid ?h1 ?T2"
  let ?t2 = "newM ?h1 (rows m) (cols m)"
  have s2: "Matrix_transpose ?t1 ?h1 = (Inr ?t2, ?h2)"
    using Matrix_transpose_wf[OF wf1] g1 by (simp add: m_transpose_def)
  have wf2: "wfM ?h2 ?t2" by (rule wfM_newM) simp
  have g2: "grid_at ?h2 (data ?t2) = ?G"
    using m_transpose_twice[OF wfM_rect[OF assms]] grid_at_alloc_new[of ?h1 ?T2] by simp
  have run: "transpose_twice m h = (Inr ?t2, ?h2)"
    by (simp add: transpose_twice_def bindJ_def s1 s2)
  have keep: "wfM ?h2 a \<and> grid_at ?h2 (data a) = grid_at h (data a)" if "wfM h a" for a
    using that by (simp add: wfM_alloc_old grid_at_alloc_old)
  show ?thesis using run wf2 g2 keep
    by (intro exI[of _ ?t2] exI[of _ ?h2]) simp
qed

subsection \<open>Calls that write only to what they allocate\<close>

lemma keeps_refl: "keeps b b"
  by (simp add: keeps_def)

lemma frame_returnJ: "Q x \<Longrightarrow> frame b (returnJ x) Q"
  by (simp add: frame_def returnJ_def)

lemma frame_throwJ: "frame b (throwJ e) Q"
  by (simp add: frame_def throwJ_def)

lemma frame_bindJ:
  assumes "frame b m Q" "\<And>x. Q x \<Longrightarrow> frame b (f x) R"
  shows "frame b (bindJ m f) R"
  unfolding frame_def
proof (intro allI impI)
  fix h r h' assume k: "keeps b h" and run: "bindJ m f h = (r, h')"
  obtain r1 h1 where m: "m h = (r1, h1)" by (cases "m h")
  have k1: "keeps b h1" and q: "\<forall>x. r1 = Inr x \<longrightarrow> Q x"
    using assms(1) k m by (auto simp: frame_def)
  show "keeps b h' \<and> (\<forall>x. r = Inr x \<longrightarrow> R x)"
  proof (cases r1)
    case (Inl e)
    then show ?thesis using run m k1 by (auto simp: bindJ_def)
  next
    case (Inr x)
    then have "f x h1 = (r, h')" using run m by (simp add: bindJ_def)
    moreover have "frame b (f x) R" using assms(2) q Inr by simp
    ultimately show ?thesis using k1 by (auto simp: frame_def)
  qed
qed

lemma frame_weaken: "frame b m Q \<Longrightarrow> (\<And>x. Q x \<Longrightarrow> Q' x) \<Longrightarrow> frame b m Q'"
  by (auto simp: frame_def)

lemma frame_bind_any:
  assumes "frame b m (\<lambda>_. True)" "\<And>x. frame b (f x) (\<lambda>_. True)"
  shows "frame b (bindJ m f) (\<lambda>_. True)"
  using assms by (intro frame_bindJ[where Q = "\<lambda>_. True"]) simp_all

lemma frame_forJ: "(\<And>i. frame b (body i) (\<lambda>_. True)) \<Longrightarrow> frame b (forJ xs body) (\<lambda>_. True)"
  by (induction xs) (simp_all add: frame_returnJ frame_bind_any)

lemma frame_foldJ:
  "(\<And>i acc. frame b (body i acc) (\<lambda>_. True)) \<Longrightarrow> frame b (foldJ xs body acc) (\<lambda>_. True)"
  by (induction xs arbitrary: acc) (simp_all add: frame_returnJ frame_bind_any)

lemma frame_get_cell: "frame b (get_cell d i j) (\<lambda>_. True)"
  by (auto simp: frame_def get_cell_def split: option.splits)

lemma frame_set_cell:
  assumes "length (outers b) \<le> d"
  shows "frame b (set_cell d i j v) (\<lambda>_. True)"
  unfolding frame_def
proof (intro allI impI)
  fix h r h' assume k: "keeps b h" and run: "set_cell d i j v h = (r, h')"
  show "keeps b h' \<and> (\<forall>x. r = Inr x \<longrightarrow> True)"
  proof (cases "row_ref h d i")
    case None
    then show ?thesis using run k by (simp add: set_cell_def)
  next
    case (Some a)
    then have d: "d < length (outers h)" and a: "a \<in> set (outers h ! d)"
      by (auto simp: row_ref_def split: if_splits)
    then have "length (inners b) \<le> a" using k assms by (simp add: keeps_def)
    moreover have "h' = h\<lparr>inners := (inners h)[a := js_update (row_at h a) j v]\<rparr>"
      using run Some by (simp add: set_cell_def)
    ultimately show ?thesis using k by (simp add: keeps_def)
  qed
qed

lemma frame_new_Matrix:
  "frame b (new_Matrix R C) (\<lambda>m. length (outers b) \<le> data m \<and> rows m = R \<and> cols m = C)"
  by (auto simp: frame_def new_Matrix_def keeps_def nth_append)

lemmas frame_loop = frame_forJ frame_foldJ frame_bind_any frame_get_cell frame_set_cell frame_returnJ

lemma frame_Matrix_fromArray:
  "frame b (Matrix_fromArray arr)
     (\<lambda>m. length (outers b) \<le> data m \<and> rows m = length arr \<and> cols m = 1)"
  unfolding Matrix_fromArray_def
  apply (rule frame_bindJ[OF frame_new_Matrix])
  apply (rule frame_bindJ[where Q = "\<lambda>_. True"])
   apply (intro frame_loop; simp)
  apply (rule frame_returnJ)
  apply simp
  done

lemma frame_Matrix_multiply:
  "frame b (Matrix_multiply a c)
     (\<lambda>m. length (outers b) \<le> data m \<and> rows m = rows a \<and> cols m = cols c \<and> cols a = rows c)"
proof (cases "cols a \<noteq> rows c")
  case True
  then show ?thesis by (simp add: Matrix_multiply_def frame_throwJ)
next
  case False
  then show ?thesis
    unfolding Matrix_multiply_def
    apply simp
    apply (rule frame_bindJ[OF frame_new_Matrix])
    apply (rule frame_bindJ[where Q = "\<lambda>_. True"])
     apply (intro frame_loop; simp)
    apply (rule frame_returnJ)
    apply simp
    done
qed

lemma frame_Matrix_subtract:
  "frame b (Matrix_subtract a c)
     (\<lambda>m. length (outers b) \<le> data m \<and> rows m = rows a \<and> cols m = cols a \<and>
          rows a = rows c \<and> cols a = cols c)"
proof (cases "rows a \<noteq> rows c \<or> cols a \<noteq> cols c")
  case True
  then show ?thesis by (simp add: Matrix_subtract_def frame_throwJ)
next
  case False
  then show ?thesis
    unfolding Matrix_subtract_def
    apply simp
    apply (rule frame_bindJ[OF frame_new_Matrix])
    apply (rule frame_bindJ[where Q = "\<lambda>_. True"])
     apply (intro frame_loop; simp)
    apply (rule frame_returnJ)
    apply simp
    done
qed

lemma frame_Matrix_transpose:
  "frame b (Matrix_transpose a)
     (\<lambda>m. length (outers b) \<le> data m \<and> rows m = cols a \<and> cols m = rows a)"
  unfolding Matrix_transpose_def
  apply (rule frame_bindJ[OF frame_new_Matrix])
  apply (rule frame_bindJ[where Q = "\<lambda>_. True"])
   apply (intro frame_loop; simp)
  apply (rule frame_returnJ)
  apply simp
  done

lemma frame_Matrix_map:
  "frame b (Matrix_map a fn)
     (\<lambda>m. length (outers b) \<le> data m \<and> rows m = rows a \<and> cols m = cols a)"
  unfolding Matrix_map_def
  apply (rule frame_bindJ[OF frame_new_Matrix])
  apply (rule frame_bindJ[where Q = "\<lambda>_. True"])
   apply (intro frame_loop; simp)
  apply (rule frame_returnJ)
  apply simp
  done

lemma frame_map_this:
  "length (outers b) \<le> data this \<Longrightarrow> frame b (map_this this fn) (\<lambda>_. True)"
  unfolding map_this_def by (intro frame_loop; simp)

lemma frame_add:
  assumes "length (outers b) \<le> data this"
  shows "frame b (add this n) (\<lambda>_. \<forall>m. n = Mat m \<longrightarrow> rows this = rows m \<and> cols this = cols m)"
proof (cases n)
  case (Mat m)
  show ?thesis
  proof (cases "rows this \<noteq> rows m \<or> cols this \<noteq> cols m")
    case True
    then show ?thesis using Mat by (simp add: add_def frame_throwJ)
  next
    case False
    have "frame b (add this n) (\<lambda>_. True)"
      using assms False Mat unfolding add_def by (simp, intro frame_loop; simp)
    then show ?thesis using False Mat by (auto simp: frame_def)
  qed
next
  case (Scalar s)
  have "frame b (add this n) (\<lambda>_. True)"
    using assms Scalar unfolding add_def by (simp, intro frame_loop; simp)
  then show ?thesis using Scalar by (auto simp: frame_def)
qed

lemma frame_multiply:
  assumes "length (outers b) \<le> data this"
  shows "frame b (multiply this n) (\<lambda>_. \<forall>m. n = Mat m \<longrightarrow> rows this = rows m \<and> cols this = cols m)"
proof (cases n)
  case (Mat m)
  show ?thesis
  proof (cases "rows this \<noteq> rows m \<or> cols this \<noteq> cols m")
    case True
    then show ?thesis using Mat by (simp add: multiply_def frame_throwJ)
  next
    case False
    have "frame b (multiply this n) (\<lambda>_. True)"
      using assms False Mat unfolding multiply_def by (simp, intro frame_loop; simp)
    then show ?thesis using False Mat by (auto simp: frame_def)
  qed
next
  case (Scalar s)
  have "frame b (multiply this n) (\<lambda>_. True)"
    using assms Scalar unfolding multiply_def by (simp, intro frame_loop; simp)
  then show ?thesis using Scalar by (auto simp: frame_def)
qed

lemma frame_toArray: "frame b (toArray this) (\<lambda>_. True)"
  unfolding toArray_def by (intro frame_loop) simp_all

lemma frame_predict: "frame b (predict n x) (\<lambda>_. True)"
  unfolding predict_def
  apply (rule frame_bindJ[OF frame_Matrix_fromArray])
  apply (rule frame_bindJ[OF frame_Matrix_multiply])
  apply (rule frame_bindJ[OF frame_add], simp)
  apply (rule frame_bindJ[OF frame_map_this], simp)
  apply (rule frame_bindJ[OF frame_Matrix_multiply])
  apply (rule frame_bindJ[OF frame_add], simp)
  apply (rule frame_bindJ[OF frame_map_this], simp)
  apply (rule frame_toArray)
  done

lemma result_sat_any: "result_sat m (\<lambda>_. True)"
  by (simp add: result_sat_def)

lemma result_sat_from_frame: "(\<And>b. frame b m Q) \<Longrightarrow> result_sat m Q"
  unfolding result_sat_def frame_def using keeps_refl by blast

lemma result_sat_Matrix_transpose: "result_sat (Matrix_transpose a) (\<lambda>m. rows m = cols a \<and> cols m = rows a)"
  by (rule result_sat_from_frame, rule frame_weaken[OF frame_Matrix_transpose]) simp

lemma result_sat_Matrix_map: "result_sat (Matrix_map a fn) (\<lambda>m. rows m = rows a \<and> cols m = cols a)"
  by (rule result_sat_from_frame, rule frame_weaken[OF frame_Matrix_map]) simp

lemma result_sat_Matrix_multiply: "result_sat (Matrix_multiply a c) (\<lambda>m. rows m = rows a \<and> cols m = cols c)"
  by (rule result_sat_from_frame, rule frame_weaken[OF frame_Matrix_multiply]) simp

lemma noerr_bind:
  assumes "no_Error m" "result_sat m Q" "\<And>x. Q x \<Longrightarrow> no_Error (f x)"
  shows "no_Error (bindJ m f)"
  unfolding no_Error_def
proof (intro allI impI)
  fix h r h' s assume run: "bindJ m f h = (r, h')"
  obtain r1 h1 where m: "m h = (r1, h1)" by (cases "m h")
  show "r \<noteq> Inl (Error s)"
  proof (cases r1)
    case (Inl e)
    then show ?thesis using run m assms(1) by (auto simp: bindJ_def no_Error_def)
  next
    case (Inr x)
    then have "Q x" using assms(2) m by (auto simp: result_sat_def)
    then have "no_Error (f x)" by (rule assms(3))
    then show ?thesis using run m Inr by (auto simp: bindJ_def no_Error_def)
  qed
qed

lemma no_Error_add:
  "(\<And>m. n = Mat m \<Longrightarrow> rows this = rows m \<and> cols this = cols m) \<Longrightarrow> no_Error (add this n)"
  unfolding add_def by (cases n) (auto intro!: no_Error_intros)

lemma no_Error_multiply:
  "(\<And>m. n = Mat m \<Longrightarrow> rows this = rows m \<and> cols this = cols m) \<Longrightarrow> no_Error (multiply this n)"
  unfolding multiply_def by (cases n) (auto intro!: no_Error_intros)

lemma no_Error_Matrix_multiply: "cols a = rows c \<Longrightarrow> no_Error (Matrix_multiply a c)"
  unfolding Matrix_multiply_def by (auto intro!: no_Error_intros)

lemma no_Error_Matrix_transpose: "no_Error (Matrix_transpose a)"
  unfolding Matrix_transpose_def by (intro no_Error_intros)

lemma no_Error_Matrix_map: "no_Error (Matrix_map a fn)"
  unfolding Matrix_map_def by (intro no_Error_intros)

lemma frame_Error_bind:
  assumes "frame b m Q" "\<And>x. Q x \<Longrightarrow> frame_Error b (f x)"
  shows "frame_Error b (bindJ m f)"
  unfolding frame_Error_def
proof (intro allI impI)
  fix h s h' assume k: "keeps b h" and run: "bindJ m f h = (Inl (Error s), h')"
  obtain r1 h1 where m: "m h = (r1, h1)" by (cases "m h")
  have k1: "keeps b h1" and q: "\<forall>x. r1 = Inr x \<longrightarrow> Q x"
    using assms(1) k m by (auto simp: frame_def)
  show "keeps b h'"
  proof (cases r1)
    case (Inl e)
    then show ?thesis using run m k1 by (auto simp: bindJ_def)
  next
    case (Inr x)
    then have "f x h1 = (Inl (Error s), h')" using run m by (simp add: bindJ_def)
    moreover have "frame_Error b (f x)" using assms(2) q Inr by simp
    ultimately show ?thesis using k1 by (auto simp: frame_Error_def)
  qed
qed

lemma frame_Error_no_Error: "no_Error m \<Longrightarrow> frame_Error b m"
  by (auto simp: frame_Error_def no_Error_def)

lemma frame_Error_train:
  assumes "shape_ok n"
  shows "frame_Error b (train n x t)"
  using assms unfolding train_def shape_ok_def
  apply (elim conjE)
  apply (rule frame_Error_bind[OF frame_Matrix_fromArray])
  apply (rule frame_Error_bind[OF frame_Matrix_fromArray])
  apply (rule frame_Error_bind[OF frame_Matrix_multiply])
  apply (rule frame_Error_bind[OF frame_add], simp)
  apply (rule frame_Error_bind[OF frame_map_this], simp)
  apply (rule frame_Error_bind[OF frame_Matrix_multiply])
  apply (rule frame_Error_bind[OF frame_add], simp)
  apply (rule frame_Error_bind[OF frame_map_this], simp)
  apply (rule frame_Error_bind[OF frame_Matrix_subtract])
  apply (rule frame_Error_bind[OF frame_Matrix_map])
  apply (rule frame_Error_bind[OF frame_multiply], simp)
  apply (rule frame_Error_bind[OF frame_multiply], simp)
  apply (rule frame_Error_bind[OF frame_Matrix_transpose])
  apply (rule frame_Error_bind[OF frame_Matrix_multiply])
  apply (rule frame_Error_no_Error)
  apply (rule noerr_bind[OF no_Error_add result_sat_any], simp)
  apply (rule noerr_bind[OF no_Error_add result_sat_any], simp)
  apply (rule noerr_bind[OF no_Error_Matrix_transpose result_sat_Matrix_transpose])
  apply (rule noerr_bind[OF no_Error_Matrix_multiply result_sat_Matrix_multiply], simp)
  apply (rule noerr_bind[OF no_Error_Matrix_map result_sat_Matrix_map])
  apply (rule noerr_bind[OF no_Error_multiply result_sat_any], simp)
  apply (rule noerr_bind[OF no_Error_multiply result_sat_any], simp)
  apply (rule noerr_bind[OF no_Error_Matrix_transpose result_sat_Matrix_transpose])
  apply (rule noerr_bind[OF no_Error_Matrix_multiply result_sat_Matrix_multiply], simp)
  apply (rule noerr_bind[OF no_Error_add result_sat_any], simp)
  apply (rule noerr_bind[OF no_Error_add result_sat_any], simp)
  apply simp
  done

lemma train_Error_keeps:
  "shape_ok n \<Longrightarrow> train n x t h = (Inl (Error s), h') \<Longrightarrow> keeps h h'"
  using frame_Error_train[of n h x t] keeps_refl[of h] by (auto simp: frame_Error_def)

lemma predict_keeps: "predict n x h = (r, h') \<Longrightarrow> keeps h h'"
  using frame_predict[of h n x] keeps_refl[of h] by (auto simp: frame_def)

subsection \<open>predict in a store that holds more arrays\<close>

lemma moved_less: "N \<le> L \<Longrightarrow> moved N k a < L + k \<longleftrightarrow> a < L"
  by (auto simp: moved_def)

lemma moved_inj: "moved N k a = moved N k a' \<longleftrightarrow> a = a'"
  by (auto simp: moved_def)

lemma sim_row_ref:
  assumes "sim_heap No Ni ko ki g g1"
  shows "row_ref g1 (moved No ko d) i = map_option (moved Ni ki) (row_ref g d i)"
proof (cases "d < length (outers g)")
  case True
  then have "moved No ko d < length (outers g1)" "outers g1 ! moved No ko d = map (moved Ni ki) (outers g ! d)"
    using assms moved_less[of No "length (outers g)" ko d] by (simp_all add: sim_heap_def)
  then show ?thesis using True by (simp add: row_ref_def)
next
  case False
  then have "\<not> moved No ko d < length (outers g1)"
    using assms moved_less[of No "length (outers g)" ko d] by (simp add: sim_heap_def)
  then show ?thesis using False by (simp add: row_ref_def)
qed

lemma row_ref_no_dangling:
  "no_dangling g \<Longrightarrow> row_ref g d i = Some r \<Longrightarrow> r < length (inners g)"
  by (auto simp: no_dangling_def row_ref_def split: if_splits)

lemma sim_row_at:
  assumes "sim_heap No Ni ko ki g g1" "r < length (inners g)"
  shows "row_at g1 (moved Ni ki r) = row_at g r"
proof -
  have "moved Ni ki r < length (inners g1)"
    using assms moved_less[of Ni "length (inners g)" ki r] by (simp add: sim_heap_def)
  then show ?thesis using assms by (simp add: row_at_def sim_heap_def)
qed

lemma sim_returnJ: "V x x1 \<Longrightarrow> sim No Ni ko ki (returnJ x) (returnJ x1) V"
  by (simp add: sim_def returnJ_def)

lemma sim_throwJ: "sim No Ni ko ki (throwJ e) (throwJ e) V"
  by (simp add: sim_def throwJ_def)

lemma sim_bindJ:
  assumes "sim No Ni ko ki m m1 V" "\<And>x x1. V x x1 \<Longrightarrow> sim No Ni ko ki (f x) (f1 x1) W"
  shows "sim No Ni ko ki (bindJ m f) (bindJ m1 f1) W"
  unfolding sim_def
proof (intro allI impI)
  fix g g1 r g' assume s: "sim_heap No Ni ko ki g g1" and run: "bindJ m f g = (r, g')"
  obtain r0 g0 where m: "m g = (r0, g0)" by (cases "m g")
  obtain r1 g1' where m1: "m1 g1 = (r1, g1')" and s1: "sim_heap No Ni ko ki g0 g1'"
    and v: "case r0 of Inl e \<Rightarrow> r1 = Inl e | Inr x \<Rightarrow> (\<exists>x1. r1 = Inr x1 \<and> V x x1)"
    using assms(1) s m unfolding sim_def by blast
  show "\<exists>r1 g1'. bindJ m1 f1 g1 = (r1, g1') \<and> sim_heap No Ni ko ki g' g1' \<and>
           (case r of Inl e \<Rightarrow> r1 = Inl e | Inr x \<Rightarrow> (\<exists>x1. r1 = Inr x1 \<and> W x x1))"
  proof (cases r0)
    case (Inl e)
    then show ?thesis using run m m1 s1 v by (auto simp: bindJ_def)
  next
    case (Inr x)
    then obtain x1 where r1: "r1 = Inr x1" and vx: "V x x1" using v by auto
    have run': "f x g0 = (r, g')" using run m Inr by (simp add: bindJ_def)
    have "sim No Ni ko ki (f x) (f1 x1) W" using assms(2) vx by simp
    then obtain r2 g2 where "f1 x1 g1' = (r2, g2)" "sim_heap No Ni ko ki g' g2"
      "case r of Inl e \<Rightarrow> r2 = Inl e | Inr y \<Rightarrow> (\<exists>y1. r2 = Inr y1 \<and> W y y1)"
      using s1 run' unfolding sim_def by blast
    then show ?thesis using m1 r1 by (auto simp: bindJ_def)
  qed
qed

lemma sim_bind_eq:
  assumes "sim No Ni ko ki m m1 (=)" "\<And>x. sim No Ni ko ki (f x) (f1 x) W"
  shows "sim No Ni ko ki (bindJ m f) (bindJ m1 f1) W"
  using assms by (intro sim_bindJ[where V = "(=)"]) simp_all

lemma sim_forJ:
  "(\<And>i. sim No Ni ko ki (body i) (body1 i) (=)) \<Longrightarrow>
   sim No Ni ko ki (forJ xs body) (forJ xs body1) (=)"
  by (induction xs) (simp_all add: sim_returnJ sim_bind_eq)

lemma sim_foldJ:
  "(\<And>i acc. sim No Ni ko ki (body i acc) (body1 i acc) (=)) \<Longrightarrow>
   sim No Ni ko ki (foldJ xs body acc) (foldJ xs body1 acc) (=)"
  by (induction xs arbitrary: acc) (simp_all add: sim_returnJ sim_bind_eq)

lemma sim_get_cell: "sim No Ni ko ki (get_cell d i j) (get_cell (moved No ko d) i j) (=)"
  unfolding sim_def
proof (intro allI impI)
  fix g g1 r g' assume s: "sim_heap No Ni ko ki g g1" and run: "get_cell d i j g = (r, g')"
  have c: "no_dangling g" using s by (simp add: sim_heap_def)
  show "\<exists>r1 g1'. get_cell (moved No ko d) i j g1 = (r1, g1') \<and> sim_heap No Ni ko ki g' g1' \<and>
           (case r of Inl e \<Rightarrow> r1 = Inl e | Inr x \<Rightarrow> (\<exists>x1. r1 = Inr x1 \<and> x = x1))"
  proof (cases "row_ref g d i")
    case None
    then show ?thesis using run s sim_row_ref[OF s, of d i] by (auto simp: get_cell_def)
  next
    case (Some a)
    have "row_at g1 (moved Ni ki a) = row_at g a"
      using sim_row_at[OF s row_ref_no_dangling[OF c Some]] .
    then show ?thesis using run s sim_row_ref[OF s, of d i] Some by (auto simp: get_cell_def)
  qed
qed

lemma sim_set_cell: "sim No Ni ko ki (set_cell d i j v) (set_cell (moved No ko d) i j v) (=)"
  unfolding sim_def
proof (intro allI impI)
  fix g g1 r g' assume s: "sim_heap No Ni ko ki g g1" and run: "set_cell d i j v g = (r, g')"
  have c: "no_dangling g" using s by (simp add: sim_heap_def)
  show "\<exists>r1 g1'. set_cell (moved No ko d) i j v g1 = (r1, g1') \<and> sim_heap No Ni ko ki g' g1' \<and>
           (case r of Inl e \<Rightarrow> r1 = Inl e | Inr x \<Rightarrow> (\<exists>x1. r1 = Inr x1 \<and> x = x1))"
  proof (cases "row_ref g d i")
    case None
    then show ?thesis using run s sim_row_ref[OF s, of d i] by (auto simp: set_cell_def)
  next
    case (Some a)
    have a: "a < length (inners g)" by (rule row_ref_no_dangling[OF c Some])
    have ra: "row_at g1 (moved Ni ki a) = row_at g a" by (rule sim_row_at[OF s a])
    have a1: "moved Ni ki a < length (inners g1)"
      using s a moved_less[of Ni "length (inners g)" ki a] by (simp add: sim_heap_def)
    define X where "X = js_update (row_at g a) j v"
    have g': "g' = g\<lparr>inners := (inners g)[a := X]\<rparr>" and r: "r = Inr ()"
      using run Some by (simp_all add: set_cell_def X_def)
    have run1: "set_cell (moved No ko d) i j v g1 = (Inr (), g1\<lparr>inners := (inners g1)[moved Ni ki a := X]\<rparr>)"
      using sim_row_ref[OF s, of d i] Some ra by (simp add: set_cell_def X_def)
    have "(inners g1)[moved Ni ki a := X] ! moved Ni ki b = (inners g)[a := X] ! b"
      if "b < length (inners g)" for b
    proof (cases "b = a")
      case True
      then show ?thesis using a a1 by simp
    next
      case False
      then have "moved Ni ki b \<noteq> moved Ni ki a" by (simp add: moved_inj)
      then show ?thesis using False s that by (simp add: sim_heap_def)
    qed
    then have "sim_heap No Ni ko ki (g\<lparr>inners := (inners g)[a := X]\<rparr>)
        (g1\<lparr>inners := (inners g1)[moved Ni ki a := X]\<rparr>)"
      using s by (simp add: sim_heap_def no_dangling_def)
    then show ?thesis using run1 g' r by simp
  qed
qed

lemma map_sh_upt: "N \<le> n \<Longrightarrow> map (moved N k) [n..<n + R] = [n + k..<n + k + R]"
  by (induction R) (simp_all add: moved_def)

lemma sim_new_Matrix: "sim No Ni ko ki (new_Matrix R C) (new_Matrix R C) (sim_Matrix No ko)"
  unfolding sim_def
proof (intro allI impI)
  fix g g1 r g' assume s: "sim_heap No Ni ko ki g g1" and run: "new_Matrix R C g = (r, g')"
  let ?n = "length (inners g)" and ?d = "length (outers g)"
  have len: "length (outers g1) = ?d + ko" "length (inners g1) = ?n + ki" "No \<le> ?d" "Ni \<le> ?n"
    using s by (simp_all add: sim_heap_def)
  have g': "g' = g\<lparr>outers := outers g @ [[?n..<?n + R]],
        inners := inners g @ replicate R (replicate C (Num 0))\<rparr>"
    and r: "r = Inr \<lparr>rows = R, cols = C, data = ?d\<rparr>"
    using run by (simp_all add: new_Matrix_def)
  define g1' where "g1' = g1\<lparr>outers := outers g1 @ [[?n + ki..<?n + ki + R]],
        inners := inners g1 @ replicate R (replicate C (Num 0))\<rparr>"
  have run1: "new_Matrix R C g1 = (Inr \<lparr>rows = R, cols = C, data = ?d + ko\<rparr>, g1')"
    using len by (simp add: new_Matrix_def g1'_def)
  have o: "outers g1' ! moved No ko d = map (moved Ni ki) (outers g' ! d)" if "d < ?d + 1" for d
  proof (cases "d < ?d")
    case True
    then have "moved No ko d < length (outers g1)"
      using len moved_less[of No ?d ko d] by simp
    then show ?thesis using True s by (simp add: g' g1'_def nth_append sim_heap_def)
  next
    case False
    then have d: "d = ?d" using that by simp
    then have "moved No ko d = length (outers g1)" using len by (simp add: moved_def)
    then show ?thesis using d len map_sh_upt[of Ni ?n ki R] by (simp add: g' g1'_def nth_append)
  qed
  have i: "inners g1' ! moved Ni ki b = inners g' ! b" if "b < ?n + R" for b
  proof (cases "b < ?n")
    case True
    then have "moved Ni ki b < length (inners g1)"
      using len moved_less[of Ni ?n ki b] by simp
    then show ?thesis using True s by (simp add: g' g1'_def nth_append sim_heap_def)
  next
    case False
    then have "moved Ni ki b = b + ki" using len by (simp add: moved_def)
    then show ?thesis using False that len by (simp add: g' g1'_def nth_append)
  qed
  have cg: "r < ?n" if "d < ?d" "r \<in> set (outers g ! d)" for d r
    using s that by (auto simp: no_dangling_def sim_heap_def)
  have c: "no_dangling g'"
    unfolding no_dangling_def g' using cg
    by (auto simp: nth_append less_Suc_eq intro: trans_less_add1)
  have "sim_heap No Ni ko ki g' g1'"
    unfolding sim_heap_def using o i c len by (simp add: g' g1'_def)
  moreover have "sim_Matrix No ko \<lparr>rows = R, cols = C, data = ?d\<rparr> \<lparr>rows = R, cols = C, data = ?d + ko\<rparr>"
    using len by (simp add: sim_Matrix_def moved_def)
  ultimately show "\<exists>r1 g1'. new_Matrix R C g1 = (r1, g1') \<and> sim_heap No Ni ko ki g' g1' \<and>
           (case r of Inl e \<Rightarrow> r1 = Inl e | Inr x \<Rightarrow> (\<exists>x1. r1 = Inr x1 \<and> sim_Matrix No ko x x1))"
    using run1 r by simp
qed

lemmas sim_loop = sim_forJ sim_foldJ sim_bind_eq sim_get_cell sim_set_cell sim_returnJ

lemma sim_Matrix_fromArray:
  "sim No Ni ko ki (Matrix_fromArray arr) (Matrix_fromArray arr) (sim_Matrix No ko)"
  unfolding Matrix_fromArray_def
  apply (rule sim_bindJ[OF sim_new_Matrix])
  apply (simp add: sim_Matrix_def)
  apply (rule sim_bindJ[where V = "(=)"])
   apply (intro sim_loop)
  apply (rule sim_returnJ)
  apply (simp add: sim_Matrix_def)
  done

lemma sim_Matrix_multiply:
  assumes "sim_Matrix No ko a a1" "sim_Matrix No ko c c1"
  shows "sim No Ni ko ki (Matrix_multiply a c) (Matrix_multiply a1 c1) (sim_Matrix No ko)"
proof (cases "cols a \<noteq> rows c")
  case True
  then show ?thesis using assms by (simp add: Matrix_multiply_def sim_throwJ sim_Matrix_def)
next
  case False
  then show ?thesis
    using assms unfolding Matrix_multiply_def
    apply (simp add: sim_Matrix_def)
    apply (rule sim_bindJ[OF sim_new_Matrix])
    apply (simp add: sim_Matrix_def)
    apply (rule sim_bindJ[where V = "(=)"])
     apply (intro sim_loop refl)
    apply (rule sim_returnJ)
    apply (simp add: sim_Matrix_def)
    done
qed

lemma sim_add_Mat:
  assumes "sim_Matrix No ko this this1" "sim_Matrix No ko m m1"
  shows "sim No Ni ko ki (add this (Mat m)) (add this1 (Mat m1)) (sim_Matrix No ko)"
proof (cases "rows this \<noteq> rows m \<or> cols this \<noteq> cols m")
  case True
  then show ?thesis using assms by (simp add: add_def sim_throwJ sim_Matrix_def)
next
  case False
  then show ?thesis
    using assms unfolding add_def
    apply (simp add: sim_Matrix_def)
    apply (rule sim_bindJ[where V = "(=)"])
     apply (intro sim_loop)
    apply (rule sim_returnJ)
    apply (simp add: sim_Matrix_def)
    done
qed

lemma sim_map_this:
  assumes "sim_Matrix No ko this this1"
  shows "sim No Ni ko ki (map_this this fn) (map_this this1 fn) (sim_Matrix No ko)"
  using assms unfolding map_this_def
  apply (simp add: sim_Matrix_def)
  apply (rule sim_bindJ[where V = "(=)"])
   apply (intro sim_loop)
  apply (rule sim_returnJ)
  apply (simp add: sim_Matrix_def)
  done

lemma sim_toArray:
  assumes "sim_Matrix No ko this this1"
  shows "sim No Ni ko ki (toArray this) (toArray this1) (=)"
  using assms unfolding toArray_def
  apply (simp add: sim_Matrix_def)
  apply (intro sim_loop refl)
  done

lemma sim_Matrix_old: "data m < No \<Longrightarrow> sim_Matrix No ko m m"
  by (simp add: sim_Matrix_def moved_def)

lemma sim_predict:
  assumes "data (weights_ih n) < No" "data (weights_ho n) < No"
    "data (bias_h n) < No" "data (bias_o n) < No"
  shows "sim No Ni ko ki (predict n x) (predict n x) (=)"
  unfolding predict_def
  apply (rule sim_bindJ[OF sim_Matrix_fromArray])
  apply (rule sim_bindJ[OF sim_Matrix_multiply[OF sim_Matrix_old[OF assms(1)]]], assumption)
  apply (rule sim_bindJ[OF sim_add_Mat[OF _ sim_Matrix_old[OF assms(3)]]], assumption)
  apply (rule sim_bindJ[OF sim_map_this], assumption)
  apply (rule sim_bindJ[OF sim_Matrix_multiply[OF sim_Matrix_old[OF assms(2)]]], assumption)
  apply (rule sim_bindJ[OF sim_add_Mat[OF _ sim_Matrix_old[OF assms(4)]]], assumption)
  apply (rule sim_bindJ[OF sim_map_this], assumption)
  apply (rule sim_toArray, assumption)
  done

lemma keeps_sim_heap:
  assumes "keeps h h1" "no_dangling h"
  shows "sim_heap (length (outers h)) (length (inners h))
           (length (outers h1) - length (outers h)) (length (inners h1) - length (inners h)) h h1"
proof -
  have o: "outers h1 ! d = outers h ! d" if "d < length (outers h)" for d
  proof -
    have "take (length (outers h)) (outers h1) ! d = outers h ! d" using assms(1) by (simp add: keeps_def)
    then show ?thesis using that by simp
  qed
  have i: "inners h1 ! r = inners h ! r" if "r < length (inners h)" for r
  proof -
    have "take (length (inners h)) (inners h1) ! r = inners h ! r" using assms(1) by (simp add: keeps_def)
    then show ?thesis using that by simp
  qed
  have m: "map (moved (length (inners h)) k) (outers h ! d) = outers h ! d" if "d < length (outers h)" for d k
    using assms(2) that by (intro map_idI) (auto simp: no_dangling_def moved_def)
  show ?thesis
    using assms o i m by (simp add: sim_heap_def keeps_def moved_def)
qed

lemma predict_extended:
  assumes "keeps h h1" "no_dangling h"
    and "data (weights_ih n) < length (outers h)" "data (weights_ho n) < length (outers h)"
    and "data (bias_h n) < length (outers h)" "data (bias_o n) < length (outers h)"
    and "predict n x h = (r, h')"
  shows "\<exists>h1'. predict n x h1 = (r, h1')"
proof -
  note s = sim_predict[OF assms(3,4,5,6), of "length (inners h)"
      "length (outers h1) - length (outers h)" "length (inners h1) - length (inners h)" x]
  obtain r1 g1' where run: "predict n x h1 = (r1, g1')"
    and v: "case r of Inl e \<Rightarrow> r1 = Inl e | Inr y \<Rightarrow> (\<exists>y1. r1 = Inr y1 \<and> y = y1)"
    using s keeps_sim_heap[OF assms(1,2)] assms(7) unfolding sim_def by blast
  have "r1 = r" using v by (cases r) auto
  then show ?thesis using run by simp
qed

lemma predict_twice:
  assumes "no_dangling h"
    and "data (weights_ih n) < length (outers h)" "data (weights_ho n) < length (outers h)"
    and "data (bias_h n) < length (outers h)" "data (bias_o n) < length (outers h)"
    and "predict n x h = (r, h1)"
  shows "\<exists>h2. predict n x h1 = (r, h2)"
  using predict_extended[OF predict_keeps[OF assms(6)] assms] .

subsection \<open>What is left unchanged\<close>

lemma keeps_same_arrays: "keeps h h' \<Longrightarrow> same_arrays h h'"
  by (simp add: keeps_def same_arrays_def)

lemma same_arrays_grid_at:
  assumes "same_arrays h h'" "no_dangling h" "d < length (outers h)"
  shows "grid_at h' d = grid_at h d"
proof -
  have tk: "length xs \<le> length ys" if "take (length xs) ys = xs" for xs ys :: "'a list"
  proof -
    have "length (take (length xs) ys) = length xs" using that by simp
    then show ?thesis by simp
  qed
  have lo: "length (outers h) \<le> length (outers h')" and li: "length (inners h) \<le> length (inners h')"
    using assms(1) tk unfolding same_arrays_def by blast+
  have "take (length (outers h)) (outers h') ! d = outers h ! d"
    using assms(1) by (simp add: same_arrays_def)
  then have o: "outers h' ! d = outers h ! d" using assms(3) by simp
  have i: "row_at h' r = row_at h r" if "r \<in> set (outers h ! d)" for r
  proof -
    have r: "r < length (inners h)" using assms(2,3) that by (auto simp: no_dangling_def)
    have "take (length (inners h)) (inners h') ! r = inners h ! r"
      using assms(1) by (simp add: same_arrays_def)
    then show ?thesis using r li by (simp add: row_at_def)
  qed
  show ?thesis using o i lo assms(3) by (simp add: grid_at_def refs_at_def)
qed

lemma same_arrays_same_grids:
  "same_arrays h h' \<Longrightarrow> no_dangling h \<Longrightarrow> in_store h n \<Longrightarrow> same_grids h h' n"
  by (simp add: same_grids_def in_store_def same_arrays_grid_at)

lemma frame_train_wrong_target:
  assumes "shape_ok n" "length t \<noteq> outputNodes n"
  shows "frame b (train n x t) (\<lambda>_. False)"
  using assms unfolding train_def shape_ok_def
  apply (elim conjE)
  apply (rule frame_bindJ[OF frame_Matrix_fromArray])
  apply (rule frame_bindJ[OF frame_Matrix_fromArray])
  apply (rule frame_bindJ[OF frame_Matrix_multiply])
  apply (rule frame_bindJ[OF frame_add], simp)
  apply (rule frame_bindJ[OF frame_map_this], simp)
  apply (rule frame_bindJ[OF frame_Matrix_multiply])
  apply (rule frame_bindJ[OF frame_add], simp)
  apply (rule frame_bindJ[OF frame_map_this], simp)
  apply (rule frame_bindJ[OF frame_Matrix_subtract])
  apply simp
  done

lemma train_wrong_target:
  assumes "shape_ok n" "length t \<noteq> outputNodes n"
  shows "\<exists>e h'. train n x t h = (Inl e, h') \<and> same_arrays h h'"
proof -
  obtain r h' where run: "train n x t h = (r, h')" by (cases "train n x t h")
  have "keeps h h' \<and> (\<forall>y. r = Inr y \<longrightarrow> False)"
    using frame_train_wrong_target[OF assms, of h x] keeps_refl[of h] run
    unfolding frame_def by blast
  then show ?thesis using run keeps_same_arrays by (cases r) auto
qed

lemma frame_deserialize: "frame b (deserialize this s) (\<lambda>_. True)"
  unfolding deserialize_def
  apply (rule frame_bindJ[OF frame_new_Matrix])
  apply (rule frame_bindJ[OF frame_new_Matrix])
  apply (rule frame_bindJ[OF frame_new_Matrix])
  apply (rule frame_bindJ[OF frame_new_Matrix])
  apply (rule frame_returnJ)
  apply simp
  done

lemma deserialize_extends: "deserialize this s h = (r, h') \<Longrightarrow> keeps h h'"
  using frame_deserialize[of h this s] keeps_refl[of h] by (auto simp: frame_def)

lemma ex_no_dangling: "no_dangling ex_heap"
  by (simp add: no_dangling_def ex_heap_def All_less_Suc2 less_Suc_eq)

lemma ex_in_store: "in_store ex_heap ex_net"
  by (simp add: in_store_def ex_heap_def ex_net_def)

subsection \<open>The examples\<close>

lemma ex_shape: "shape_ok ex_net"
  by (simp add: shape_ok_def ex_net_def)

lemma ex_owns: "owns ex_heap (net_grids ex_net [[Num 0]] [[Num 0]] [[Num 0]] [[Num 0]] @ [])"
  by (simp add: net_grids_def owns.simps live_def wfM_def sep_rows_def refs_at_def grid_at_def
      row_at_def ex_heap_def ex_net_def)

lemmas grid_eval = m_add_def m_sub_def m_had_def m_scale_def m_map_def
      m_transpose_def m_mul_def col_vec_def tab_def dotp_def dsigmoid_def layer_def gradient_def
      weight_delta_def hidden_error_def

lemma ex_train_spec:
  "train_spec 1 1 1 (Num 1) [[Num 0]] [[Num 0]] [[Num 0]] [[Num 0]] [Num 1] [Num 1]
   = ([[Num (1 / 128)]], [[Num (1 / 16)]], [[Num (1 / 128)]], [[Num (1 / 8)]])"
  by (simp add: train_spec_def Let_def grid_eval)

lemma ex_train_spec_preupdate:
  "train_spec_preupdate 1 1 1 (Num 1) [[Num 0]] [[Num 0]] [[Num 0]] [[Num 0]] [Num 1] [Num 1]
   = ([[Num 0]], [[Num (1 / 16)]], [[Num 0]], [[Num (1 / 8)]])"
  by (simp add: train_spec_preupdate_def Let_def grid_eval)

lemma ex_predict_spec:
  "predict_spec 1 1 1 [[Num 0]] [[Num 0]] [[Num 0]] [[Num 0]] [Num 1] = [Num (1 / 2)]"
  by (simp add: predict_spec_def grid_eval)

lemma ex_net_fields [simp]:
  "inputNodes ex_net = 1" "hiddenNodes ex_net = 1" "outputNodes ex_net = 1"
  "learningRate ex_net = Num 1"
  "data (weights_ih ex_net) = 0" "data (weights_ho ex_net) = 1"
  "data (bias_h ex_net) = 2" "data (bias_o ex_net) = 3"
  by (simp_all add: ex_net_def)

lemma ex_len: "length [Num 1] = inputNodes ex_net" "length [Num 1] = outputNodes ex_net"
  by simp_all

lemma ex_train:
  "\<exists>h'. train ex_net [Num 1] [Num 1] ex_heap = (Inr (), h') \<and>
     grid_at h' 0 = [[Num (1 / 128)]] \<and> grid_at h' 1 = [[Num (1 / 16)]] \<and>
     grid_at h' 2 = [[Num (1 / 128)]] \<and> grid_at h' 3 = [[Num (1 / 8)]]"
proof -
  obtain h' W1 W2 B1 B2 where r: "train ex_net [Num 1] [Num 1] ex_heap = (Inr (), h')"
    and sp: "train_spec (inputNodes ex_net) (hiddenNodes ex_net) (outputNodes ex_net)
       (learningRate ex_net) [[Num 0]] [[Num 0]] [[Num 0]] [[Num 0]] [Num 1] [Num 1] = (W1, W2, B1, B2)"
    and o': "owns h' (net_grids ex_net W1 W2 B1 B2 @ [])"
    using train_owns[OF ex_shape ex_owns ex_len] by blast
  have "(W1, W2, B1, B2) = ([[Num (1 / 128)]], [[Num (1 / 16)]], [[Num (1 / 128)]], [[Num (1 / 8)]])"
    using sp ex_train_spec by simp
  then have o: "owns h' (net_grids ex_net [[Num (1 / 128)]] [[Num (1 / 16)]] [[Num (1 / 128)]]
              [[Num (1 / 8)]] @ [])"
    using o' by simp
  show ?thesis using r owns_net_grids[OF o] by simp
qed

lemma ex_new:
  "new_NeuralNetwork 1 1 1 ex_heap0 = (Inr (ex_net\<lparr>learningRate := Num (1 / 10)\<rparr>), ex_heap)"
  by (simp add: new_NeuralNetwork_def bindJ_def new_Matrix_def randomize_def returnJ_def
       Math_random_def set_cell_def row_ref_def row_at_def js_update_def ex_net_def ex_heap_def
       ex_heap0_def)

lemma ex_shape_inv: "shape_inv ex_heap ex_net"
proof -
  have "grid_at ex_heap 0 = [[Num 0]]" "grid_at ex_heap 1 = [[Num 0]]"
    "grid_at ex_heap 2 = [[Num 0]]" "grid_at ex_heap 3 = [[Num 0]]"
    by (simp_all add: grid_at_def refs_at_def row_at_def ex_heap_def)
  then show ?thesis using ex_shape ex_owns by (simp add: shape_inv_def)
qed

lemma transpose_twice_times_wf:
  assumes m: "wfM h m" and i: "wfM h i" and d: "rows i = cols m"
  shows "\<exists>p h'. transpose_twice_times m i h = (Inr p, h') \<and> rows p = rows m \<and> cols p = cols i \<and>
           grid_at h' (data p) = m_mul (rows m) (cols m) (cols i) (grid_at h (data m)) (grid_at h (data i))"
proof -
  obtain t h1 where t: "transpose_twice m h = (Inr t, h1)" "rows t = rows m" "cols t = cols m"
    "wfM h1 t" "grid_at h1 (data t) = grid_at h (data m)"
    and keep: "\<forall>a. wfM h a \<longrightarrow> wfM h1 a \<and> grid_at h1 (data a) = grid_at h (data a)"
    using transpose_twice_wf[OF m] by blast
  have i1: "wfM h1 i" "grid_at h1 (data i) = grid_at h (data i)" using keep i by simp_all
  have "Matrix_multiply t i h1 = (Inr (newM h1 (rows t) (cols i)),
           alloc_grid h1 (tab (rows t) (cols i) (dotp (grid_at h1 (data t)) (grid_at h1 (data i)) (cols t))))"
    using Matrix_multiply_wf[OF t(4) i1(1)] t(3) d by simp
  then show ?thesis using t i1
    by (simp add: transpose_twice_times_def bindJ_def m_mul_def grid_at_alloc_new)
qed

lemma upt_0_2: "[0..<2] = [0, 1]"
  by code_simp

lemma ex10_wf: "wfM ex_heap10 ex_M_nan" "wfM ex_heap10 ex_I2" "wfM ex_heap10 ex_M_num"
  by (simp_all add: wfM_def refs_at_def ex_heap10_def ex_M_nan_def ex_I2_def ex_M_num_def)

lemma ex10_grids:
  "grid_at ex_heap10 (data ex_M_nan) = [[NaN, Num 0]]"
  "grid_at ex_heap10 (data ex_I2) = identity_grid 2"
  "grid_at ex_heap10 (data ex_M_num) = [[Num 3, Num 4]]"
  by (simp_all add: grid_at_def refs_at_def row_at_def ex_heap10_def ex_M_nan_def ex_I2_def
      ex_M_num_def identity_grid_def tab_def upt_0_2)

section \<open>The claims\<close>

text \<open>
  Claim C1. In every \<^verbatim>\<open>train(input, target)\<close> call the hidden-layer error is
  \<^verbatim>\<open>transpose(weights_ho) . outputError\<close> with \<open>weights_ho\<close> as it is after the update of
  step 4 of the same call, not as it was before.

  For a network whose four matrices are well formed and separate in the store, and
  vectors of the right lengths, \<open>train\<close> returns; the grid of \<open>weights_ho\<close> after the
  call is the old grid plus the output-layer delta; and the new \<open>weights_ih\<close> and \<open>bias_h\<close>
  are computed from the hidden error taken from that grid of \<open>weights_ho\<close>, the one found in
  the store after the call.
\<close>

theorem train_hidden_error_uses_updated_weights_ho:
  assumes "shape_ok n"
    and "owns h (net_grids n Wih Who Bh Bo @ rest)"
    and "length x = inputNodes n"
    and "length t = outputNodes n"
  shows "\<exists>h'. train n x t h = (Inr (), h') \<and>
     (let ni = inputNodes n; nh = hiddenNodes n; no = outputNodes n; lr = learningRate n;
          Hd = layer nh ni Wih Bh (col_vec x);
          Out = layer no nh Who Bo Hd;
          E = m_sub no 1 (col_vec t) Out;
          Who' = grid_at h' (data (weights_ho n));
          HG = gradient nh lr Hd (hidden_error nh no Who' E)
      in Who' = m_add no nh Who (weight_delta no nh (gradient no lr Out E) Hd) \<and>
         grid_at h' (data (weights_ih n)) = m_add nh ni Wih (weight_delta nh ni HG (col_vec x)) \<and>
         grid_at h' (data (bias_h n)) = m_add nh 1 Bh HG)"
proof -
  obtain h' Wih' Who' Bh' Bo' where r: "train n x t h = (Inr (), h')"
    and sp: "train_spec (inputNodes n) (hiddenNodes n) (outputNodes n) (learningRate n)
               Wih Who Bh Bo x t = (Wih', Who', Bh', Bo')"
    and o: "owns h' (net_grids n Wih' Who' Bh' Bo' @ rest)"
    using train_owns[OF assms] by blast
  have g: "grid_at h' (data (weights_ih n)) = Wih'" "grid_at h' (data (weights_ho n)) = Who'"
    "grid_at h' (data (bias_h n)) = Bh'"
    using owns_net_grids[OF o] by simp_all
  show ?thesis using r sp g
    by (intro exI[of _ h']) (auto simp: train_spec_def Let_def)
qed

text \<open>
  The network \<open>ex_net\<close> (all weights and biases 0, learning rate 1), trained on input
  \<open>[1]\<close> and target \<open>[1]\<close>: \<open>weights_ho\<close> becomes \<open>1/16\<close>, the hidden error taken from it
  is \<open>1/32\<close>, and \<open>weights_ih\<close> and \<open>bias_h\<close> become \<open>1/128\<close>. The hidden error taken from
  the weights before the update would be 0.
\<close>

theorem train_hidden_error_uses_updated_weights_ho_witness:
  "shape_ok ex_net \<and>
   owns ex_heap (net_grids ex_net [[Num 0]] [[Num 0]] [[Num 0]] [[Num 0]] @ []) \<and>
   (\<exists>h'. train ex_net [Num 1] [Num 1] ex_heap = (Inr (), h') \<and>
      grid_at h' (data (weights_ho ex_net)) = [[Num (1 / 16)]] \<and>
      hidden_error 1 1 (grid_at h' (data (weights_ho ex_net))) [[Num (1 / 2)]] = [[Num (1 / 32)]] \<and>
      grid_at h' (data (weights_ih ex_net)) = [[Num (1 / 128)]] \<and>
      grid_at h' (data (bias_h ex_net)) = [[Num (1 / 128)]]) \<and>
   hidden_error 1 1 [[Num 0]] [[Num (1 / 2)]] = [[Num 0]]"
proof -
  obtain h' where r: "train ex_net [Num 1] [Num 1] ex_heap = (Inr (), h')"
    and who: "grid_at h' (data (weights_ho ex_net)) = [[Num (1 / 16)]]"
    and rest: "grid_at h' (data (weights_ih ex_net)) = [[Num (1 / 128)]]"
       "grid_at h' (data (bias_h ex_net)) = [[Num (1 / 128)]]"
    using train_hidden_error_uses_updated_weights_ho[OF ex_shape ex_owns ex_len]
    by (auto simp: Let_def grid_eval)
  have "hidden_error 1 1 [[Num (1 / 16)]] [[Num (1 / 2)]] = [[Num (1 / 32)]]"
    "hidden_error 1 1 [[Num 0]] [[Num (1 / 2)]] = [[Num 0]]"
    by (simp_all add: grid_eval)
  then show ?thesis using r who rest ex_shape ex_owns by auto
qed

text \<open>
  Claim C2, as stated, fails. \<open>serialize\<close> of \<open>ex_net\<close> returns \<open>ex_snap\<close>, whose
  \<open>weights_ho\<close> is the reference 1, the outer array of the live \<open>weights_ho\<close>. Before
  training the snapshot's grid there is \<open>[[0]]\<close>; after one \<open>train([1], [1])\<close> of the network
  the same snapshot's grid is \<open>[[1/16]]\<close>.
\<close>

theorem serialize_snapshot_not_independent_counterexample:
  "serialize ex_net ex_heap = (Inr ex_snap, ex_heap) \<and>
   grid_at ex_heap (s_weights_ho ex_snap) = [[Num 0]] \<and>
   fst (train ex_net [Num 1] [Num 1] ex_heap) = Inr () \<and>
   grid_at (snd (train ex_net [Num 1] [Num 1] ex_heap)) (s_weights_ho ex_snap) = [[Num (1 / 16)]]"
proof -
  obtain h' where r: "train ex_net [Num 1] [Num 1] ex_heap = (Inr (), h')"
    and g: "grid_at h' 1 = [[Num (1 / 16)]]"
    using ex_train by blast
  have "serialize ex_net ex_heap = (Inr ex_snap, ex_heap)"
    by (simp add: serialize_def returnJ_def ex_snap_def ex_net_def)
  moreover have "grid_at ex_heap (s_weights_ho ex_snap) = [[Num 0]]"
    by (simp add: grid_at_def refs_at_def row_at_def ex_heap_def ex_snap_def)
  ultimately show ?thesis using r g by (simp add: ex_snap_def)
qed

text \<open>
  Claim C2, amended. \<open>serialize\<close> changes nothing in the store and returns a snapshot
  with the three topology integers and the learning rate copied by value and, for
  \<open>weights_ih\<close>, \<open>weights_ho\<close>, \<open>bias_h\<close> and \<open>bias_o\<close>, the references to the live matrices'
  own arrays. When it is returned the snapshot's grids are the network's grids; after a
  later successful \<open>train\<close> of the network the grids of the previously returned snapshot
  are the network's updated weights and biases.
\<close>

theorem serialize_shares_the_live_grids:
  assumes "shape_ok n"
    and "owns h (net_grids n Wih Who Bh Bo @ rest)"
    and "length x = inputNodes n"
    and "length t = outputNodes n"
  shows "\<exists>s h' Wih' Who' Bh' Bo'.
     serialize n h = (Inr s, h) \<and>
     s_inputNodes s = inputNodes n \<and> s_hiddenNodes s = hiddenNodes n \<and>
     s_outputNodes s = outputNodes n \<and> s_learningRate s = learningRate n \<and>
     s_weights_ih s = data (weights_ih n) \<and> s_weights_ho s = data (weights_ho n) \<and>
     s_bias_h s = data (bias_h n) \<and> s_bias_o s = data (bias_o n) \<and>
     grid_at h (s_weights_ih s) = Wih \<and> grid_at h (s_weights_ho s) = Who \<and>
     grid_at h (s_bias_h s) = Bh \<and> grid_at h (s_bias_o s) = Bo \<and>
     train n x t h = (Inr (), h') \<and>
     train_spec (inputNodes n) (hiddenNodes n) (outputNodes n) (learningRate n)
        Wih Who Bh Bo x t = (Wih', Who', Bh', Bo') \<and>
     grid_at h' (s_weights_ih s) = Wih' \<and> grid_at h' (s_weights_ho s) = Who' \<and>
     grid_at h' (s_bias_h s) = Bh' \<and> grid_at h' (s_bias_o s) = Bo'"
proof -
  obtain h' Wih' Who' Bh' Bo' where r: "train n x t h = (Inr (), h')"
    and sp: "train_spec (inputNodes n) (hiddenNodes n) (outputNodes n) (learningRate n)
               Wih Who Bh Bo x t = (Wih', Who', Bh', Bo')"
    and o: "owns h' (net_grids n Wih' Who' Bh' Bo' @ rest)"
    using train_owns[OF assms] by blast
  show ?thesis using r sp owns_net_grids[OF o] owns_net_grids[OF assms(2)]
    by (simp add: serialize_def returnJ_def)
qed

text \<open>
  \<open>ex_net\<close>: the snapshot's grids are \<open>[[0]]\<close> when \<open>serialize\<close> returns, and the trained
  values after \<open>train([1], [1])\<close>.
\<close>

theorem serialize_shares_the_live_grids_witness:
  "shape_ok ex_net \<and>
   owns ex_heap (net_grids ex_net [[Num 0]] [[Num 0]] [[Num 0]] [[Num 0]] @ []) \<and>
   length [Num 1] = inputNodes ex_net \<and> length [Num 1] = outputNodes ex_net \<and>
   (\<exists>h'. serialize ex_net ex_heap = (Inr ex_snap, ex_heap) \<and>
      grid_at ex_heap (s_weights_ih ex_snap) = [[Num 0]] \<and>
      train ex_net [Num 1] [Num 1] ex_heap = (Inr (), h') \<and>
      grid_at h' (s_weights_ih ex_snap) = [[Num (1 / 128)]] \<and>
      grid_at h' (s_weights_ho ex_snap) = [[Num (1 / 16)]] \<and>
      grid_at h' (s_bias_h ex_snap) = [[Num (1 / 128)]] \<and>
      grid_at h' (s_bias_o ex_snap) = [[Num (1 / 8)]])"
proof -
  have s: "serialize ex_net ex_heap = (Inr ex_snap, ex_heap)"
    by (simp add: serialize_def returnJ_def ex_snap_def ex_net_def)
  have sp: "train_spec (inputNodes ex_net) (hiddenNodes ex_net) (outputNodes ex_net)
       (learningRate ex_net) [[Num 0]] [[Num 0]] [[Num 0]] [[Num 0]] [Num 1] [Num 1]
     = ([[Num (1 / 128)]], [[Num (1 / 16)]], [[Num (1 / 128)]], [[Num (1 / 8)]])"
    using ex_train_spec by simp
  show ?thesis
    using serialize_shares_the_live_grids[OF ex_shape ex_owns ex_len] ex_shape ex_owns s
    unfolding sp by auto
qed

text \<open>
  Claim C3. For every network \<open>n\<close> whose shape fields agree with its topology, in every
  store (no reference dangles, the arrays of \<open>n\<close> are in it),
  \<open>deserialize(serialize(n))\<close> applied to any network \<open>this\<close> gives a network with the
  fields of \<open>n\<close> (so its learning rate is that of \<open>n\<close>), and for every input vector its
  \<open>predict\<close> has the outcome, the same vector or the same error, that \<open>predict\<close> of \<open>n\<close>
  had before the round trip. For a network whose matrices are well formed and separate and
  an input vector of length \<open>inputNodes\<close> that outcome is a vector.
\<close>

theorem serialize_deserialize_roundtrip:
  assumes "shape_ok n"
    and "no_dangling h"
    and "in_store h n"
    and "predict n x h = (r, h3)"
  shows "\<exists>s n' h2 h4.
     serialize n h = (Inr s, h) \<and> deserialize this s h = (Inr n', h2) \<and>
     n' = n \<and> learningRate n' = learningRate n \<and>
     predict n' x h2 = (r, h4) \<and>
     (owns h (net_grids n Wih Who Bh Bo @ rest) \<and> length x = inputNodes n \<longrightarrow> (\<exists>v. r = Inr v))"
proof -
  let ?s = "\<lparr>s_inputNodes = inputNodes n, s_hiddenNodes = hiddenNodes n,
              s_outputNodes = outputNodes n,
              s_weights_ih = data (weights_ih n), s_weights_ho = data (weights_ho n),
              s_bias_h = data (bias_h n), s_bias_o = data (bias_o n),
              s_learningRate = learningRate n\<rparr>"
  have s: "serialize n h = (Inr ?s, h)" by (simp add: serialize_def returnJ_def)
  obtain r' h2 where d: "deserialize this ?s h = (r', h2)" by (cases "deserialize this ?s h")
  have rn: "r' = Inr n"
    using d assms(1) by (cases n) (auto simp: deserialize_eq shape_ok_def)
  have k: "keeps h h2" using deserialize_extends[OF d] .
  have st: "data (weights_ih n) < length (outers h)" "data (weights_ho n) < length (outers h)"
    "data (bias_h n) < length (outers h)" "data (bias_o n) < length (outers h)"
    using assms(3) by (simp_all add: in_store_def)
  obtain h4 where p: "predict n x h2 = (r, h4)"
    using predict_extended[OF k assms(2) st assms(4)] by blast
  have v: "\<exists>v. r = Inr v" if "owns h (net_grids n Wih Who Bh Bo @ rest)" "length x = inputNodes n"
    using predict_owns[OF assms(1) that] assms(4) by auto
  show ?thesis using s d rn p v by auto
qed

text \<open>
  The snapshot of \<open>ex_net\<close> deserialized into the network \<open>ex_net2\<close>: the result is \<open>ex_net\<close>,
  and both predict \<open>[1/2]\<close> for the input \<open>[1]\<close>.
\<close>

theorem serialize_deserialize_roundtrip_witness:
  "shape_ok ex_net \<and> no_dangling ex_heap \<and> in_store ex_heap ex_net \<and>
   (\<exists>n' h2 h3 h4.
     predict ex_net [Num 1] ex_heap = (Inr [Num (1 / 2)], h3) \<and>
     serialize ex_net ex_heap = (Inr ex_snap, ex_heap) \<and>
     deserialize ex_net2 ex_snap ex_heap = (Inr n', h2) \<and>
     n' = ex_net \<and> learningRate n' = Num 1 \<and>
     predict n' [Num 1] h2 = (Inr [Num (1 / 2)], h4))"
proof -
  have s: "serialize ex_net ex_heap = (Inr ex_snap, ex_heap)"
    by (simp add: serialize_def returnJ_def ex_snap_def ex_net_def)
  obtain h3 where p: "predict ex_net [Num 1] ex_heap = (Inr [Num (1 / 2)], h3)"
    using predict_owns[OF ex_shape ex_owns ex_len(1)] ex_predict_spec by auto
  show ?thesis
    using serialize_deserialize_roundtrip[OF ex_shape ex_no_dangling ex_in_store p, of ex_net2]
      ex_shape ex_no_dangling ex_in_store s p
    by auto
qed

text \<open>
  Claim C4. For a network whose matrices are well formed and separate, and an input
  vector of length \<open>inputNodes\<close>, \<open>predict\<close> returns the flat vector of length
  \<open>outputNodes\<close> of \<open>sigmoid (weights_ho \<cdot> hidden + bias_o)\<close>, where
  \<open>hidden = sigmoid (weights_ih \<cdot> input + bias_h)\<close>; \<open>sigmoid x = 1 / (1 + exp (- x))\<close> is
  applied to every entry (\<open>m_map\<close>), and every entry of a product is the sum, from 0 and in
  the order of the index, of the products of the entries (\<open>m_mul\<close>, \<open>dotp\<close>).
\<close>

theorem predict_computes_the_forward_pass:
  assumes "shape_ok n"
    and "owns h (net_grids n Wih Who Bh Bo @ rest)"
    and "length x = inputNodes n"
  shows "\<exists>h'. predict n x h =
       (Inr (concat (m_map (outputNodes n) 1 sigmoid
          (m_add (outputNodes n) 1
             (m_mul (outputNodes n) (hiddenNodes n) 1 Who
                (m_map (hiddenNodes n) 1 sigmoid
                   (m_add (hiddenNodes n) 1
                      (m_mul (hiddenNodes n) (inputNodes n) 1 Wih (col_vec x)) Bh)))
             Bo))), h') \<and>
     length (concat (m_map (outputNodes n) 1 sigmoid
          (m_add (outputNodes n) 1
             (m_mul (outputNodes n) (hiddenNodes n) 1 Who
                (m_map (hiddenNodes n) 1 sigmoid
                   (m_add (hiddenNodes n) 1
                      (m_mul (hiddenNodes n) (inputNodes n) 1 Wih (col_vec x)) Bh)))
             Bo))) = outputNodes n \<and>
     (\<forall>r. sigmoid (Num r) = Num (1 / (1 + exp (- r))))"
proof -
  have "concat (tab R 1 f) = map (\<lambda>i. f i 0) [0..<R]" for R and f :: "nat \<Rightarrow> nat \<Rightarrow> jsv"
    by (induction R) (simp_all add: tab_def)
  then have len: "length (concat (m_map R 1 f A)) = R" for R f A
    by (simp add: m_map_def)
  obtain h' where "predict n x h = (Inr (predict_spec (inputNodes n) (hiddenNodes n)
        (outputNodes n) Wih Bh Who Bo x), h')"
    using predict_owns[OF assms] by blast
  then show ?thesis unfolding predict_spec_def layer_def
    by (intro exI[of _ h'] conjI len) simp_all
qed

text \<open>
  \<open>ex_net\<close> predicts \<open>sigmoid 0 = 1/2\<close> for the input \<open>[1]\<close>.
\<close>

theorem predict_computes_the_forward_pass_witness:
  "shape_ok ex_net \<and>
   owns ex_heap (net_grids ex_net [[Num 0]] [[Num 0]] [[Num 0]] [[Num 0]] @ []) \<and>
   length [Num 1] = inputNodes ex_net \<and>
   (\<exists>h'. predict ex_net [Num 1] ex_heap = (Inr [Num (1 / 2)], h'))"
  using predict_computes_the_forward_pass[OF ex_shape ex_owns ex_len(1)] ex_shape ex_owns
  by (auto simp: grid_eval)

text \<open>
  Claim C5. \<open>predict\<close> reads the model and does not change it. For every network, store
  and input vector, and whether the call returns or throws, every array that was in the
  store before the call is there after it with the same contents (\<open>predict\<close> writes only to
  the matrices that it allocates), and the random sequence is where it was. So, in a store
  where no reference dangles, the grids of \<open>weights_ih\<close>, \<open>weights_ho\<close>, \<open>bias_h\<close> and
  \<open>bias_o\<close> after the call are the grids before it, and a second call with the same input
  has the same outcome as the first. \<open>predict\<close> assigns to no field of \<^verbatim>\<open>this\<close>, so the
  learning rate and the topology fields, which are not in the store, stay as they are.
\<close>

theorem predict_is_pure:
  assumes "predict n x h = (r, h1)"
  shows "same_arrays h h1 \<and> rng h1 = rng h \<and> rng_pos h1 = rng_pos h \<and>
     (no_dangling h \<and> in_store h n \<longrightarrow>
        same_grids h h1 n \<and> (\<exists>h2. predict n x h1 = (r, h2)))"
proof -
  have k: "keeps h h1" using predict_keeps[OF assms] .
  have a: "same_arrays h h1" using keeps_same_arrays[OF k] .
  have g: "same_grids h h1 n" if "no_dangling h" "in_store h n"
    using same_arrays_same_grids[OF a that] .
  have t: "\<exists>h2. predict n x h1 = (r, h2)" if "no_dangling h" "in_store h n"
    using predict_twice[OF that(1) _ _ _ _ assms] that(2) by (simp add: in_store_def)
  show ?thesis using k a g t by (auto simp: keeps_def)
qed

text \<open>
  Two calls of \<open>predict\<close> on \<open>ex_net\<close>.
\<close>

theorem predict_is_pure_witness:
  "no_dangling ex_heap \<and> in_store ex_heap ex_net \<and>
   (\<exists>h1 h2. predict ex_net [Num 1] ex_heap = (Inr [Num (1 / 2)], h1) \<and>
      same_arrays ex_heap h1 \<and>
      grid_at h1 (data (weights_ih ex_net)) = [[Num 0]] \<and>
      grid_at h1 (data (weights_ho ex_net)) = [[Num 0]] \<and>
      grid_at h1 (data (bias_h ex_net)) = [[Num 0]] \<and>
      grid_at h1 (data (bias_o ex_net)) = [[Num 0]] \<and>
      predict ex_net [Num 1] h1 = (Inr [Num (1 / 2)], h2))"
proof -
  obtain h1 where p: "predict ex_net [Num 1] ex_heap = (Inr [Num (1 / 2)], h1)"
    using predict_owns[OF ex_shape ex_owns ex_len(1)] ex_predict_spec by auto
  have g: "grid_at ex_heap (data (weights_ih ex_net)) = [[Num 0]]"
    "grid_at ex_heap (data (weights_ho ex_net)) = [[Num 0]]"
    "grid_at ex_heap (data (bias_h ex_net)) = [[Num 0]]"
    "grid_at ex_heap (data (bias_o ex_net)) = [[Num 0]]"
    using owns_net_grids[OF ex_owns] by simp_all
  show ?thesis
    using predict_is_pure[OF p] p ex_no_dangling ex_in_store g
    by (auto simp: same_grids_def)
qed



text \<open>
  Claim C7. No operation is partial on a shape error. Whenever \<open>add\<close>, \<open>subtract\<close>, the
  element-wise \<open>multiply\<close> or the matrix product throws an \<^verbatim>\<open>Error\<close>, the store is
  exactly the store before the call. Whenever \<open>predict\<close> throws an \<^verbatim>\<open>Error\<close>, and
  whenever \<open>train\<close> of a network whose shape fields agree with its topology throws an
  \<^verbatim>\<open>Error\<close>, every array that was in the store before the call is there with the same
  contents, so the grids of \<open>weights_ih\<close>, \<open>weights_ho\<close>, \<open>bias_h\<close> and \<open>bias_o\<close> are the
  grids before the call. \<open>train\<close> with a target vector of the wrong length throws and
  leaves them so; for a network whose matrices are well formed and separate and an input
  vector of the right length, what it throws is the \<^verbatim>\<open>Error\<close> of the shape check of
  \<open>subtract\<close>.
\<close>

theorem shape_errors_leave_state_unchanged:
  "(add this n h = (Inl (Error s), h') \<longrightarrow> h' = h) \<and>
   (Matrix_subtract a b h = (Inl (Error s), h') \<longrightarrow> h' = h) \<and>
   (multiply this n h = (Inl (Error s), h') \<longrightarrow> h' = h) \<and>
   (Matrix_multiply a b h = (Inl (Error s), h') \<longrightarrow> h' = h) \<and>
   (predict net x h = (Inl (Error s), h') \<longrightarrow>
      same_arrays h h' \<and> (no_dangling h \<and> in_store h net \<longrightarrow> same_grids h h' net)) \<and>
   (shape_ok net \<and> train net x t h = (Inl (Error s), h') \<longrightarrow>
      same_arrays h h' \<and> (no_dangling h \<and> in_store h net \<longrightarrow> same_grids h h' net)) \<and>
   (shape_ok net \<and> length t \<noteq> outputNodes net \<longrightarrow>
      (\<exists>e h''. train net x t h = (Inl e, h'') \<and> same_arrays h h'' \<and>
         (no_dangling h \<and> in_store h net \<longrightarrow> same_grids h h'' net))) \<and>
   (shape_ok net \<and> owns h (net_grids net Wih Who Bh Bo @ rest) \<and>
    length x = inputNodes net \<and> length t \<noteq> outputNodes net \<longrightarrow>
      (\<exists>h''. train net x t h =
         (Inl (Error ''Matrix dimensions must match for subtraction.''), h'')))"
proof (intro conjI impI)
  show "h' = h" if "add this n h = (Inl (Error s), h')" using that by (rule add_Error)
  show "h' = h" if "Matrix_subtract a b h = (Inl (Error s), h')"
    using that by (rule Matrix_subtract_Error)
  show "h' = h" if "multiply this n h = (Inl (Error s), h')" using that by (rule multiply_Error)
  show "h' = h" if "Matrix_multiply a b h = (Inl (Error s), h')"
    using that by (rule Matrix_multiply_Error)
next
  assume p: "predict net x h = (Inl (Error s), h')"
  show a: "same_arrays h h'" using keeps_same_arrays[OF predict_keeps[OF p]] .
  show "same_grids h h' net" if "no_dangling h \<and> in_store h net"
    using same_arrays_same_grids[OF a] that by simp
next
  assume "shape_ok net \<and> train net x t h = (Inl (Error s), h')"
  then have a: "same_arrays h h'" using keeps_same_arrays[OF train_Error_keeps] by blast
  show "same_arrays h h'" by (rule a)
  show "same_grids h h' net" if "no_dangling h \<and> in_store h net"
    using same_arrays_same_grids[OF a] that by simp
next
  assume "shape_ok net \<and> length t \<noteq> outputNodes net"
  then obtain e h'' where "train net x t h = (Inl e, h'')" "same_arrays h h''"
    using train_wrong_target[of net t x h] by blast
  then show "\<exists>e h''. train net x t h = (Inl e, h'') \<and> same_arrays h h'' \<and>
         (no_dangling h \<and> in_store h net \<longrightarrow> same_grids h h'' net)"
    using same_arrays_same_grids[of h h'' net] by blast
next
  assume "shape_ok net \<and> owns h (net_grids net Wih Who Bh Bo @ rest) \<and>
    length x = inputNodes net \<and> length t \<noteq> outputNodes net"
  then show "\<exists>h''. train net x t h =
         (Inl (Error ''Matrix dimensions must match for subtraction.''), h'')"
    using train_target_mismatch[of net h Wih Who Bh Bo rest x t] by blast
qed

text \<open>
  The four matrix operations on a 1 by 2 and a 1 by 1 matrix; \<open>predict\<close> with two inputs
  and \<open>train\<close> with two targets on \<open>ex_net\<close>.
\<close>

theorem shape_errors_leave_state_unchanged_witness:
  "add (weights_ih ex_net2) (Mat (bias_h ex_net2)) ex_heap2 =
      (Inl (Error ''Matrix dimensions must match for addition.''), ex_heap2) \<and>
   Matrix_subtract (weights_ih ex_net2) (bias_h ex_net2) ex_heap2 =
      (Inl (Error ''Matrix dimensions must match for subtraction.''), ex_heap2) \<and>
   multiply (weights_ih ex_net2) (Mat (bias_h ex_net2)) ex_heap2 =
      (Inl (Error ''Matrix dimensions must match for element-wise multiplication.''), ex_heap2) \<and>
   Matrix_multiply (weights_ih ex_net2) (bias_h ex_net2) ex_heap2 =
      (Inl (Error ''Columns of A must match rows of B for dot product.''), ex_heap2) \<and>
   shape_ok ex_net \<and> no_dangling ex_heap \<and> in_store ex_heap ex_net \<and>
   owns ex_heap (net_grids ex_net [[Num 0]] [[Num 0]] [[Num 0]] [[Num 0]] @ []) \<and>
   length [Num 1] = inputNodes ex_net \<and> length [Num 1, Num 1] \<noteq> outputNodes ex_net \<and>
   (\<exists>h'. predict ex_net [Num 1, Num 1] ex_heap =
        (Inl (Error ''Columns of A must match rows of B for dot product.''), h') \<and>
      same_arrays ex_heap h' \<and> same_grids ex_heap h' ex_net) \<and>
   (\<exists>h'. train ex_net [Num 1] [Num 1, Num 1] ex_heap =
        (Inl (Error ''Matrix dimensions must match for subtraction.''), h') \<and>
      same_arrays ex_heap h' \<and> same_grids ex_heap h' ex_net \<and>
      grid_at h' (data (weights_ih ex_net)) = [[Num 0]] \<and>
      grid_at h' (data (weights_ho ex_net)) = [[Num 0]] \<and>
      grid_at h' (data (bias_h ex_net)) = [[Num 0]] \<and>
      grid_at h' (data (bias_o ex_net)) = [[Num 0]])"
proof -
  have ops: "add (weights_ih ex_net2) (Mat (bias_h ex_net2)) ex_heap2 =
      (Inl (Error ''Matrix dimensions must match for addition.''), ex_heap2)"
    "Matrix_subtract (weights_ih ex_net2) (bias_h ex_net2) ex_heap2 =
      (Inl (Error ''Matrix dimensions must match for subtraction.''), ex_heap2)"
    "multiply (weights_ih ex_net2) (Mat (bias_h ex_net2)) ex_heap2 =
      (Inl (Error ''Matrix dimensions must match for element-wise multiplication.''), ex_heap2)"
    "Matrix_multiply (weights_ih ex_net2) (bias_h ex_net2) ex_heap2 =
      (Inl (Error ''Columns of A must match rows of B for dot product.''), ex_heap2)"
    by (simp_all add: add_def Matrix_subtract_def multiply_def Matrix_multiply_def throwJ_def
        ex_net2_def)
  have l: "length [Num 1, Num 1] \<noteq> outputNodes ex_net" by (simp add: ex_net_def)
  obtain hp where p: "predict ex_net [Num 1, Num 1] ex_heap =
        (Inl (Error ''Columns of A must match rows of B for dot product.''), hp)"
    using predict_mismatch[of ex_net "[Num 1, Num 1]" ex_heap] by (simp add: ex_net_def)
  note inst = shape_errors_leave_state_unchanged[where net = ex_net and h = ex_heap
      and Wih = "[[Num 0]]" and Who = "[[Num 0]]" and Bh = "[[Num 0]]" and Bo = "[[Num 0]]"
      and rest = "[]"]
  obtain ht where t: "train ex_net [Num 1] [Num 1, Num 1] ex_heap =
        (Inl (Error ''Matrix dimensions must match for subtraction.''), ht)"
    using inst[where x = "[Num 1]" and t = "[Num 1, Num 1]"] ex_shape ex_owns ex_len(1) l by blast
  have gp: "same_arrays ex_heap hp \<and> same_grids ex_heap hp ex_net"
    using inst[where x = "[Num 1, Num 1]" and h' = hp
        and s = "''Columns of A must match rows of B for dot product.''"]
      ex_no_dangling ex_in_store p by blast
  have gt: "same_arrays ex_heap ht \<and> same_grids ex_heap ht ex_net"
    using inst[where x = "[Num 1]" and t = "[Num 1, Num 1]" and h' = ht
        and s = "''Matrix dimensions must match for subtraction.''"]
      ex_shape ex_no_dangling ex_in_store t by blast
  have g: "grid_at ex_heap (data (weights_ih ex_net)) = [[Num 0]]"
    "grid_at ex_heap (data (weights_ho ex_net)) = [[Num 0]]"
    "grid_at ex_heap (data (bias_h ex_net)) = [[Num 0]]"
    "grid_at ex_heap (data (bias_o ex_net)) = [[Num 0]]"
    using owns_net_grids[OF ex_owns] by simp_all
  have gt': "grid_at ht (data (weights_ih ex_net)) = [[Num 0]] \<and>
      grid_at ht (data (weights_ho ex_net)) = [[Num 0]] \<and>
      grid_at ht (data (bias_h ex_net)) = [[Num 0]] \<and>
      grid_at ht (data (bias_o ex_net)) = [[Num 0]]"
    using gt g by (simp add: same_grids_def)
  show ?thesis
    using ops ex_shape ex_no_dangling ex_in_store ex_owns ex_len(1) l p t gp gt gt' by blast
qed

text \<open>
  Claim C8. The constructor returns a network with the given topology, learning rate
  \<open>0.1\<close>, and the shape invariant; every successful \<open>train\<close> keeps the shape invariant;
  and the shape invariant says that \<open>weights_ih\<close> is hiddenNodes by inputNodes, \<open>weights_ho\<close>
  is outputNodes by hiddenNodes, \<open>bias_h\<close> is hiddenNodes by 1 and \<open>bias_o\<close> is outputNodes
  by 1, in the fields and in the store.
\<close>

theorem constructor_and_train_keep_the_shape_invariant:
  "(\<exists>n h'. new_NeuralNetwork ni nh no h = (Inr n, h') \<and>
        inputNodes n = ni \<and> hiddenNodes n = nh \<and> outputNodes n = no \<and>
        learningRate n = Num (1 / 10) \<and> shape_inv h' n) \<and>
   (shape_inv h0 net \<and> train net x t h0 = (Inr (), h1) \<longrightarrow> shape_inv h1 net) \<and>
   (shape_inv h0 net \<longrightarrow>
        rows (weights_ih net) = hiddenNodes net \<and> cols (weights_ih net) = inputNodes net \<and>
        rows (weights_ho net) = outputNodes net \<and> cols (weights_ho net) = hiddenNodes net \<and>
        rows (bias_h net) = hiddenNodes net \<and> cols (bias_h net) = 1 \<and>
        rows (bias_o net) = outputNodes net \<and> cols (bias_o net) = 1 \<and>
        rect (hiddenNodes net) (inputNodes net) (grid_at h0 (data (weights_ih net))) \<and>
        rect (outputNodes net) (hiddenNodes net) (grid_at h0 (data (weights_ho net))) \<and>
        rect (hiddenNodes net) 1 (grid_at h0 (data (bias_h net))) \<and>
        rect (outputNodes net) 1 (grid_at h0 (data (bias_o net))))"
proof (intro conjI impI)
  have "owns h []" by (simp add: owns.simps)
  then obtain n h' Wih Who Bh Bo where c: "new_NeuralNetwork ni nh no h = (Inr n, h')"
    "inputNodes n = ni" "hiddenNodes n = nh" "outputNodes n = no"
    "learningRate n = Num (1 / 10)" "shape_ok n"
    and o: "owns h' (net_grids n Wih Who Bh Bo @ [])"
    using new_NeuralNetwork_owns[of h "[]" ni nh no] by blast
  show "\<exists>n h'. new_NeuralNetwork ni nh no h = (Inr n, h') \<and>
        inputNodes n = ni \<and> hiddenNodes n = nh \<and> outputNodes n = no \<and>
        learningRate n = Num (1 / 10) \<and> shape_inv h' n"
    using c owns_net_shape_inv[OF c(6) o] by blast
next
  assume a: "shape_inv h0 net \<and> train net x t h0 = (Inr (), h1)"
  let ?A = "grid_at h0 (data (weights_ih net))" and ?B = "grid_at h0 (data (weights_ho net))"
  let ?C = "grid_at h0 (data (bias_h net))" and ?D = "grid_at h0 (data (bias_o net))"
  have sh: "shape_ok net" and o: "owns h0 (net_grids net ?A ?B ?C ?D @ [])"
    using a by (simp_all add: shape_inv_def)
  have r: "train net x t h0 = (Inr (), h1)" using a by simp
  have len: "length x = inputNodes net" "length t = outputNodes net"
    using train_success_lengths[OF sh o r] by simp_all
  obtain h' A' B' C' D' where r': "train net x t h0 = (Inr (), h')"
    and o': "owns h' (net_grids net A' B' C' D' @ [])"
    using train_owns[OF sh o len] by blast
  have "h' = h1" using r r' by simp
  then show "shape_inv h1 net" using owns_net_shape_inv[OF sh o'] by simp
next
  assume a: "shape_inv h0 net"
  then have sh: "shape_ok net" by (simp add: shape_inv_def)
  show "rows (weights_ih net) = hiddenNodes net" "cols (weights_ih net) = inputNodes net"
    "rows (weights_ho net) = outputNodes net" "cols (weights_ho net) = hiddenNodes net"
    "rows (bias_h net) = hiddenNodes net" "cols (bias_h net) = 1"
    "rows (bias_o net) = outputNodes net" "cols (bias_o net) = 1"
    using sh by (simp_all add: shape_ok_def)
  show "rect (hiddenNodes net) (inputNodes net) (grid_at h0 (data (weights_ih net)))"
    "rect (outputNodes net) (hiddenNodes net) (grid_at h0 (data (weights_ho net)))"
    "rect (hiddenNodes net) 1 (grid_at h0 (data (bias_h net)))"
    "rect (outputNodes net) 1 (grid_at h0 (data (bias_o net)))"
    using shape_inv_rect[OF a] by simp_all
qed

text \<open>
  \<^verbatim>\<open>new NeuralNetwork(1, 1, 1)\<close> on the empty store, and one \<open>train\<close> of \<open>ex_net\<close>.
\<close>

theorem constructor_and_train_keep_the_shape_invariant_witness:
  "new_NeuralNetwork 1 1 1 ex_heap0 = (Inr (ex_net\<lparr>learningRate := Num (1 / 10)\<rparr>), ex_heap) \<and>
   shape_inv ex_heap (ex_net\<lparr>learningRate := Num (1 / 10)\<rparr>) \<and>
   shape_inv ex_heap ex_net \<and>
   rect 1 1 (grid_at ex_heap (data (weights_ih ex_net))) \<and>
   (\<exists>h1. train ex_net [Num 1] [Num 1] ex_heap = (Inr (), h1) \<and> shape_inv h1 ex_net \<and>
      rect 1 1 (grid_at h1 (data (weights_ih ex_net))))"
proof -
  obtain h1 where r: "train ex_net [Num 1] [Num 1] ex_heap = (Inr (), h1)"
    using ex_train by blast
  note inst = constructor_and_train_keep_the_shape_invariant[where ni = 1 and nh = 1 and no = 1
      and h = ex_heap0 and net = ex_net and x = "[Num 1]" and t = "[Num 1]"]
  have a: "shape_inv ex_heap (ex_net\<lparr>learningRate := Num (1 / 10)\<rparr>)"
    using inst[of ex_heap h1] ex_new by auto
  have b: "shape_inv h1 ex_net"
    using inst[of ex_heap h1] ex_shape_inv r by blast
  have c: "rect 1 1 (grid_at h1 (data (weights_ih ex_net)))"
    using inst[of h1 h1] b by simp
  have d: "rect 1 1 (grid_at ex_heap (data (weights_ih ex_net)))"
    using inst[of ex_heap h1] ex_shape_inv by simp
  show ?thesis using ex_new a ex_shape_inv r b c d by blast
qed

text \<open>
  Claim C9. \<open>deserialize(s)\<close> installs the arrays of the snapshot as the data of the
  live matrices and copies nothing: the four matrices of the network refer to the outer
  arrays of \<open>s\<close>, nothing that was in the store has changed, and a later \<open>train\<close> of the
  network writes its new weights and biases into the grids of the snapshot \<open>s\<close> itself.
\<close>

theorem deserialize_shares_the_snapshot_grids:
  assumes "deserialize this s h = (Inr n, h1)"
  shows "data (weights_ih n) = s_weights_ih s \<and> data (weights_ho n) = s_weights_ho s \<and>
     data (bias_h n) = s_bias_h s \<and> data (bias_o n) = s_bias_o s \<and>
     take (length (inners h)) (inners h1) = inners h \<and>
     take (length (outers h)) (outers h1) = outers h \<and>
     (owns h1 (net_grids n Wih Who Bh Bo @ rest) \<and>
        length x = inputNodes n \<and> length t = outputNodes n \<longrightarrow>
        (\<exists>h2 Wih' Who' Bh' Bo'. train n x t h1 = (Inr (), h2) \<and>
           train_spec (inputNodes n) (hiddenNodes n) (outputNodes n) (learningRate n)
             Wih Who Bh Bo x t = (Wih', Who', Bh', Bo') \<and>
           grid_at h2 (s_weights_ih s) = Wih' \<and> grid_at h2 (s_weights_ho s) = Who' \<and>
           grid_at h2 (s_bias_h s) = Bh' \<and> grid_at h2 (s_bias_o s) = Bo'))"
proof (intro conjI impI)
  have n: "n = \<lparr>inputNodes = s_inputNodes s, hiddenNodes = s_hiddenNodes s,
           outputNodes = s_outputNodes s,
           weights_ih = \<lparr>rows = s_hiddenNodes s, cols = s_inputNodes s, data = s_weights_ih s\<rparr>,
           weights_ho = \<lparr>rows = s_outputNodes s, cols = s_hiddenNodes s, data = s_weights_ho s\<rparr>,
           bias_h = \<lparr>rows = s_hiddenNodes s, cols = 1, data = s_bias_h s\<rparr>,
           bias_o = \<lparr>rows = s_outputNodes s, cols = 1, data = s_bias_o s\<rparr>,
           learningRate = s_learningRate s\<rparr>"
    using assms by (simp add: deserialize_eq)
  show d: "data (weights_ih n) = s_weights_ih s" "data (weights_ho n) = s_weights_ho s"
    "data (bias_h n) = s_bias_h s" "data (bias_o n) = s_bias_o s"
    by (simp_all add: n)
  show "take (length (inners h)) (inners h1) = inners h"
    "take (length (outers h)) (outers h1) = outers h"
    using deserialize_keeps[OF assms] by simp_all
  have sh: "shape_ok n" by (simp add: n shape_ok_def)
  assume a: "owns h1 (net_grids n Wih Who Bh Bo @ rest) \<and>
        length x = inputNodes n \<and> length t = outputNodes n"
  then obtain h2 Wih' Who' Bh' Bo' where r: "train n x t h1 = (Inr (), h2)"
    and sp: "train_spec (inputNodes n) (hiddenNodes n) (outputNodes n) (learningRate n)
             Wih Who Bh Bo x t = (Wih', Who', Bh', Bo')"
    and o: "owns h2 (net_grids n Wih' Who' Bh' Bo' @ rest)"
    using train_owns[OF sh, of h1 Wih Who Bh Bo rest x t] by blast
  show "\<exists>h2 Wih' Who' Bh' Bo'. train n x t h1 = (Inr (), h2) \<and>
           train_spec (inputNodes n) (hiddenNodes n) (outputNodes n) (learningRate n)
             Wih Who Bh Bo x t = (Wih', Who', Bh', Bo') \<and>
           grid_at h2 (s_weights_ih s) = Wih' \<and> grid_at h2 (s_weights_ho s) = Who' \<and>
           grid_at h2 (s_bias_h s) = Bh' \<and> grid_at h2 (s_bias_o s) = Bo'"
    using r sp owns_net_grids[OF o] d by auto
qed

text \<open>
  \<open>ex_snap\<close> deserialized into \<open>ex_net2\<close>: the grids of the snapshot are \<open>[[0]]\<close> before
  and the trained values after \<open>train([1], [1])\<close> of the network.
\<close>

theorem deserialize_shares_the_snapshot_grids_witness:
  "\<exists>h1 h2. deserialize ex_net2 ex_snap ex_heap = (Inr ex_net, h1) \<and>
     data (weights_ih ex_net) = s_weights_ih ex_snap \<and>
     data (weights_ho ex_net) = s_weights_ho ex_snap \<and>
     data (bias_h ex_net) = s_bias_h ex_snap \<and> data (bias_o ex_net) = s_bias_o ex_snap \<and>
     owns h1 (net_grids ex_net [[Num 0]] [[Num 0]] [[Num 0]] [[Num 0]] @ []) \<and>
     grid_at h1 (s_weights_ih ex_snap) = [[Num 0]] \<and> grid_at h1 (s_weights_ho ex_snap) = [[Num 0]] \<and>
     grid_at h1 (s_bias_h ex_snap) = [[Num 0]] \<and> grid_at h1 (s_bias_o ex_snap) = [[Num 0]] \<and>
     train ex_net [Num 1] [Num 1] h1 = (Inr (), h2) \<and>
     grid_at h2 (s_weights_ih ex_snap) = [[Num (1 / 128)]] \<and>
     grid_at h2 (s_weights_ho ex_snap) = [[Num (1 / 16)]] \<and>
     grid_at h2 (s_bias_h ex_snap) = [[Num (1 / 128)]] \<and>
     grid_at h2 (s_bias_o ex_snap) = [[Num (1 / 8)]]"
proof -
  obtain r h1 where d: "deserialize ex_net2 ex_snap ex_heap = (r, h1)"
    by (cases "deserialize ex_net2 ex_snap ex_heap")
  have r: "r = Inr ex_net" using d by (simp add: deserialize_eq ex_snap_def ex_net_def)
  have o1: "owns h1 (net_grids ex_net [[Num 0]] [[Num 0]] [[Num 0]] [[Num 0]] @ [])"
    using deserialize_owns[OF d ex_owns] .
  have sp: "train_spec (inputNodes ex_net) (hiddenNodes ex_net) (outputNodes ex_net)
       (learningRate ex_net) [[Num 0]] [[Num 0]] [[Num 0]] [[Num 0]] [Num 1] [Num 1]
     = ([[Num (1 / 128)]], [[Num (1 / 16)]], [[Num (1 / 128)]], [[Num (1 / 8)]])"
    using ex_train_spec by simp
  have g1: "grid_at h1 (s_weights_ih ex_snap) = [[Num 0]]" "grid_at h1 (s_weights_ho ex_snap) = [[Num 0]]"
     "grid_at h1 (s_bias_h ex_snap) = [[Num 0]]" "grid_at h1 (s_bias_o ex_snap) = [[Num 0]]"
    using owns_net_grids[OF o1] by (simp_all add: ex_snap_def)
  have "\<exists>h2 Wih' Who' Bh' Bo'. train ex_net [Num 1] [Num 1] h1 = (Inr (), h2) \<and>
           train_spec (inputNodes ex_net) (hiddenNodes ex_net) (outputNodes ex_net)
             (learningRate ex_net) [[Num 0]] [[Num 0]] [[Num 0]] [[Num 0]] [Num 1] [Num 1]
             = (Wih', Who', Bh', Bo') \<and>
           grid_at h2 (s_weights_ih ex_snap) = Wih' \<and> grid_at h2 (s_weights_ho ex_snap) = Who' \<and>
           grid_at h2 (s_bias_h ex_snap) = Bh' \<and> grid_at h2 (s_bias_o ex_snap) = Bo'"
    using deserialize_shares_the_snapshot_grids[OF d[unfolded r], of "[[Num 0]]" "[[Num 0]]"
        "[[Num 0]]" "[[Num 0]]" "[]" "[Num 1]" "[Num 1]"] o1 ex_len
    by blast
  then obtain h2 where t: "train ex_net [Num 1] [Num 1] h1 = (Inr (), h2)"
     and g2: "grid_at h2 (s_weights_ih ex_snap) = [[Num (1 / 128)]]"
     "grid_at h2 (s_weights_ho ex_snap) = [[Num (1 / 16)]]"
     "grid_at h2 (s_bias_h ex_snap) = [[Num (1 / 128)]]"
     "grid_at h2 (s_bias_o ex_snap) = [[Num (1 / 8)]]"
    unfolding sp by auto
  show ?thesis using d r o1 g1 t g2 by (intro exI[of _ h1] exI[of _ h2]) (simp add: ex_snap_def)
qed

text \<open>
  Claim C10, as stated, fails. For the 1 by 2 matrix \<open>[[NaN, 0]]\<close> and the 2 by 2
  identity, \<open>multiply(transpose(transpose(M)), I)\<close> is \<open>[[NaN, NaN]]\<close>: every sum of the
  row has a term \<open>NaN * 0\<close> or \<open>NaN * 1\<close>, which is \<open>NaN\<close>.
\<close>

theorem identity_product_counterexample:
  "(case transpose_twice_times ex_M_nan ex_I2 ex_heap10 of
      (Inr p, h') \<Rightarrow> grid_at h' (data p)
    | (Inl e, h') \<Rightarrow> []) = [[NaN, NaN]] \<and>
   grid_at ex_heap10 (data ex_M_nan) = [[NaN, Num 0]] \<and>
   grid_at ex_heap10 (data ex_I2) = identity_grid 2"
proof -
  obtain p h' where r: "transpose_twice_times ex_M_nan ex_I2 ex_heap10 = (Inr p, h')"
    and g: "grid_at h' (data p) = m_mul (rows ex_M_nan) (cols ex_M_nan) (cols ex_I2)
         (grid_at ex_heap10 (data ex_M_nan)) (grid_at ex_heap10 (data ex_I2))"
    using transpose_twice_times_wf[OF ex10_wf(1,2)] by (auto simp: ex_M_nan_def ex_I2_def)
  have "m_mul (rows ex_M_nan) (cols ex_M_nan) (cols ex_I2) [[NaN, Num 0]] (identity_grid 2)
        = [[NaN, NaN]]"
    by (simp add: ex_M_nan_def ex_I2_def m_mul_def tab_def dotp_def identity_grid_def upt_0_2)
  then show ?thesis using r g by (simp add: ex10_grids)
qed

text \<open>
  Claim C10, amended. For every well-formed matrix \<open>M\<close>, \<open>transpose(transpose(M))\<close>
  is a matrix of the shape of \<open>M\<close> with the entries of \<open>M\<close>. For every well-formed matrix
  \<open>M\<close> all of whose entries are numbers, and the identity matrix \<open>I\<close> of size \<open>M.cols\<close>,
  \<open>multiply(transpose(transpose(M)), I)\<close> is a matrix of the shape of \<open>M\<close> with the entries
  of \<open>M\<close>.
\<close>

theorem transpose_involutive_and_identity_product:
  "(wfM h m \<longrightarrow>
      (\<exists>t h1. transpose_twice m h = (Inr t, h1) \<and> rows t = rows m \<and> cols t = cols m \<and>
         grid_at h1 (data t) = grid_at h (data m))) \<and>
   (wfM h m \<and> wfM h i \<and> rows i = cols m \<and> cols i = cols m \<and>
    grid_at h (data i) = identity_grid (cols m) \<and> all_num (grid_at h (data m)) \<longrightarrow>
      (\<exists>p h2. transpose_twice_times m i h = (Inr p, h2) \<and> rows p = rows m \<and> cols p = cols m \<and>
         grid_at h2 (data p) = grid_at h (data m)))"
proof (intro conjI impI)
  assume "wfM h m"
  then show "\<exists>t h1. transpose_twice m h = (Inr t, h1) \<and> rows t = rows m \<and> cols t = cols m \<and>
         grid_at h1 (data t) = grid_at h (data m)"
    using transpose_twice_wf[of h m] by blast
next
  assume a: "wfM h m \<and> wfM h i \<and> rows i = cols m \<and> cols i = cols m \<and>
    grid_at h (data i) = identity_grid (cols m) \<and> all_num (grid_at h (data m))"
  then have m: "wfM h m" and i: "wfM h i" and d: "rows i = cols m" "cols i = cols m"
    and id: "grid_at h (data i) = identity_grid (cols m)" and num: "all_num (grid_at h (data m))"
    by simp_all
  have "m_mul (rows m) (cols m) (cols m) (grid_at h (data m)) (identity_grid (cols m))
        = grid_at h (data m)"
    using m_mul_identity[OF wfM_rect[OF m] num] .
  then show "\<exists>p h2. transpose_twice_times m i h = (Inr p, h2) \<and> rows p = rows m \<and> cols p = cols m \<and>
         grid_at h2 (data p) = grid_at h (data m)"
    using transpose_twice_times_wf[OF m i d(1)] d id by auto
qed

text \<open>
  Transposing \<open>[[NaN, 0]]\<close> twice, and \<open>[[3, 4]]\<close> transposed twice times the identity.
\<close>

theorem transpose_involutive_and_identity_product_witness:
  "wfM ex_heap10 ex_M_nan \<and> wfM ex_heap10 ex_M_num \<and> wfM ex_heap10 ex_I2 \<and>
   rows ex_I2 = cols ex_M_num \<and> cols ex_I2 = cols ex_M_num \<and>
   grid_at ex_heap10 (data ex_I2) = identity_grid (cols ex_M_num) \<and>
   all_num (grid_at ex_heap10 (data ex_M_num)) \<and>
   (\<exists>t h1. transpose_twice ex_M_nan ex_heap10 = (Inr t, h1) \<and> rows t = 1 \<and> cols t = 2 \<and>
       grid_at h1 (data t) = [[NaN, Num 0]]) \<and>
   (\<exists>p h2. transpose_twice_times ex_M_num ex_I2 ex_heap10 = (Inr p, h2) \<and> rows p = 1 \<and> cols p = 2 \<and>
       grid_at h2 (data p) = [[Num 3, Num 4]])"
proof -
  have c: "rows ex_I2 = cols ex_M_num" "cols ex_I2 = cols ex_M_num" "cols ex_M_num = 2"
    "rows ex_M_num = 1" "rows ex_M_nan = 1" "cols ex_M_nan = 2"
    by (simp_all add: ex_I2_def ex_M_num_def ex_M_nan_def)
  have n: "all_num (grid_at ex_heap10 (data ex_M_num))"
    by (simp add: ex10_grids all_num_def)
  have id: "grid_at ex_heap10 (data ex_I2) = identity_grid (cols ex_M_num)"
    by (simp add: ex10_grids c)
  have a: "\<exists>t h1. transpose_twice ex_M_nan ex_heap10 = (Inr t, h1) \<and> rows t = 1 \<and> cols t = 2 \<and>
       grid_at h1 (data t) = [[NaN, Num 0]]"
    using transpose_involutive_and_identity_product[of ex_heap10 ex_M_nan ex_I2] ex10_wf
    by (simp add: ex10_grids c)
  have b: "\<exists>p h2. transpose_twice_times ex_M_num ex_I2 ex_heap10 = (Inr p, h2) \<and> rows p = 1 \<and> cols p = 2 \<and>
       grid_at h2 (data p) = [[Num 3, Num 4]]"
    using transpose_involutive_and_identity_product[of ex_heap10 ex_M_num ex_I2] ex10_wf n id
    by (simp add: ex10_grids(3) c)
  show ?thesis using ex10_wf c(1,2) id n a b by blast
qed

end
